theory Spec2Isabelle
  imports Complex_Main
begin

section \<open>The controller server thread of ocra-yarp\<close>

text \<open>
  A shallow embedding of \<^verbatim>\<open>src/libs/ocra-yarp/src/OcraControllerServerThread.cpp\<close>.
  The thread object is a record that every member function takes and returns. What the
  thread does to its collaborators is recorded in the state: the ports it opens, the calls
  it makes on the whole-body interface (\<^verbatim>\<open>robot->...\<close>) and the operands it streams to
  \<^verbatim>\<open>std::cout\<close> (without \<^verbatim>\<open>std::endl\<close> and without the newline and tab decoration of the
  literals). What the collaborators answer (the estimates, the parsed task managers, the
  controller's torque vector, the clock, the boolean results of the interface) is an input of
  the member function that asks for it. A null pointer that is dereferenced, an Eigen
  coefficient access out of range and a coefficient-wise operation on arrays of different
  sizes are results of their own.

  The \<^verbatim>\<open>double\<close> values of the source are real numbers here and no value is a NaN.
  The simulated time \<^verbatim>\<open>time_sim\<close> is accumulated as the machine accumulates it: the
  product and the sum of \<^verbatim>\<open>time_sim += TIME_MSEC_TO_SEC * getRate()\<close> are rounded to the
  nearest binary64 number, ties to even. The other arithmetic of this theory (the norm of the
  joint velocities, the differences of clock readings) is exact.
\<close>

subsection \<open>Data\<close>

text \<open>
  The members of \<^verbatim>\<open>OCRA_CONTROLLER_MESSAGE\<close> that the source file names. The
  enumeration is declared in a header; the integer value of each member is a parameter
  (\<open>val\<close>) of the functions that need it.
\<close>

datatype OCRA_CONTROLLER_MESSAGE =
    GET_CONTROLLER_STATUS
  | GET_WBI_CONFIG_FILE_PATH
  | GET_ROBOT_NAME
  | START_CONTROLLER
  | STOP_CONTROLLER
  | PAUSE_CONTROLLER
  | ADD_TASK
  | ADD_TASK_FROM_FILE
  | REMOVE_TASK
  | REMOVE_TASKS
  | GET_TASK_LIST
  | GET_TASK_PORT_LIST
  | HELP
  | CONTROLLER_RUNNING
  | CONTROLLER_STOPPED

datatype OCRA_CONTROLLER_TYPE = WOCRA_CONTROLLER

datatype error = NullDereference | IndexOutOfRange | SizeMismatch

datatype ctrl_mode = CTRL_MODE_POS | CTRL_MODE_TORQUE

datatype joint_sel = ALL_JOINTS | Joint int

text \<open>A call on the whole-body interface, with the reference values it passes.\<close>

datatype wbi_call =
    SetControlMode ctrl_mode joint_sel
  | SetControlReference "real list" joint_sel

text \<open>An operand streamed to \<^verbatim>\<open>std::cout\<close>.\<close>

datatype out = Str string | IntVal int | DblVal real

text \<open>
  A task manager, by its concrete class and the target it holds: the stabilization
  procedure casts the handles it looks up to these three classes.
\<close>

datatype task_manager =
    FullPostureTaskManager "real list"
  | CoMTaskManager "real list"
  | SegCartesianTaskManager "real list"
  | OtherTaskManager

text \<open>
  The task sequence as the thread sees it: the managers by name (the first entry of a name
  is the one a lookup finds), how often \<^verbatim>\<open>init\<close> was called, and the time argument of
  every call of \<^verbatim>\<open>update\<close>.
\<close>

record TaskSequence =
  taskManagers :: "(string \<times> task_manager) list"
  initCalls :: nat
  updateCalls :: "real list"

record OcraControllerOptions =
  threadPeriod :: int
  serverName :: string
  robotName :: string
  startupTaskSetPath :: string
  startupSequence :: string
  wbiConfigFilePath :: string
  runInDebugMode :: bool
  isFloatingBase :: bool
  controllerType :: OCRA_CONTROLLER_TYPE

record thread =
  ctrlOptions :: OcraControllerOptions
  isStabilizing :: bool
  controllerStatus :: OCRA_CONTROLLER_MESSAGE
  taskSequence :: "TaskSequence option"
  getDoFs :: nat
  hasFixedRoot :: bool
  jointVelocities :: "real list"
  homePosture :: "real list"
  debugPosture :: "real list"
  initialPosture :: "real list"
  torques :: "real list"
  measuredTorques :: "real list"
  refSpeed :: "real list"
  minTorques :: "real list"
  maxTorques :: "real list"
  initialCoMPosition :: "real list"
  initialTorsoPosition :: "real list"
  debugJointIndex :: int
  time_sim :: real
  openPorts :: "string list"
  wbiCalls :: "wbi_call list"
  cout :: "out list"

text \<open>
  What the constructor reads from outside the source file: the robot's number of degrees of
  freedom, the macros of the header, the two postures that \<^verbatim>\<open>getHomePosture\<close> and
  \<^verbatim>\<open>getNominalPosture\<close> fill in, the joint velocities that the newly built model
  reports, and the value that the member \<^verbatim>\<open>debugJointIndex\<close>, which the constructor
  does not initialise, happens to hold.
\<close>

record ctor_input =
  robot_DoFs :: nat
  TORQUE_MIN :: real
  TORQUE_MAX :: real
  REFERENCE_JOINT_VELOCITY :: real
  home_posture :: "real list"
  nominal_posture :: "real list"
  model_velocities :: "real list"
  indeterminate_index :: int

text \<open>What \<^verbatim>\<open>threadInit\<close> is answered by its collaborators.\<close>

record init_input =
  updater_initialize :: bool
  estimate_joint_pos :: "real list"
  com_position :: "real list"
  torso_translation :: "real list"
  parseTasksXML :: "(string \<times> task_manager) list option"
  add_managers_result :: bool

text \<open>
  What one call of \<^verbatim>\<open>run\<close> is answered: the joint velocities of the refreshed model
  (\<open>None\<close> when the model updater fails), the integer read from the debug port
  (\<open>None\<close> when nothing is waiting), the result of switching the new debug joint to torque
  mode, and the vector that \<^verbatim>\<open>computeOutput\<close> writes.
\<close>

record step_input =
  updater_update :: "real list option"
  debug_read :: "int option"
  set_torque_mode :: bool
  computeOutput :: "real list"

subsection \<open>Helpers\<close>

definition say :: "out list \<Rightarrow> thread \<Rightarrow> thread" where
  "say xs s = s\<lparr>cout := cout s @ xs\<rparr>"

definition call :: "wbi_call \<Rightarrow> thread \<Rightarrow> thread" where
  "call c s = s\<lparr>wbiCalls := wbiCalls s @ [c]\<rparr>"

text \<open>\<^verbatim>\<open>v[i]\<close> on an Eigen vector, the index an \<^verbatim>\<open>int\<close>.\<close>

definition coeff :: "real list \<Rightarrow> int \<Rightarrow> error + real" where
  "coeff v i = (if 0 \<le> i \<and> nat i < length v then Inr (v ! nat i) else Inl IndexOutOfRange)"

text \<open>\<^verbatim>\<open>a.max(b)\<close> and \<^verbatim>\<open>a.min(b)\<close> on Eigen arrays: coefficient-wise, on equal sizes.\<close>

definition array_max :: "real list \<Rightarrow> real list \<Rightarrow> error + real list" where
  "array_max a b = (if length a = length b then Inr (map2 max a b) else Inl SizeMismatch)"

definition array_min :: "real list \<Rightarrow> real list \<Rightarrow> error + real list" where
  "array_min a b = (if length a = length b then Inr (map2 min a b) else Inl SizeMismatch)"

text \<open>\<^verbatim>\<open>v.norm()\<close>: the Euclidean norm.\<close>

definition vnorm :: "real list \<Rightarrow> real" where
  "vnorm v = sqrt (sum_list (map (\<lambda>x. x * x) v))"

text \<open>\<^verbatim>\<open>std::fmod\<close>: the remainder of the division truncated towards zero.\<close>

definition fmod :: "real \<Rightarrow> real \<Rightarrow> real" where
  "fmod x y = x - y * of_int (if 0 \<le> x / y then \<lfloor>x / y\<rfloor> else \<lceil>x / y\<rceil>)"

text \<open>
  The arithmetic of \<^verbatim>\<open>double\<close> (IEEE 754 binary64, rounding to nearest, ties to even), for
  the simulated time. A real number \<open>x\<close> other than 0 lies in one binade,
  \<open>2 ^ e \<le> \<bar>x\<bar> < 2 ^ (e + 1)\<close>; the representable numbers around it are the integer
  multiples of \<open>2 ^ (e - 52)\<close>, or of \<open>2 ^ - 1074\<close> in the subnormal range. The overflow to
  infinity above \<open>2 ^ 1024\<close> is not represented.
\<close>

definition round_even :: "real \<Rightarrow> int" where
  "round_even q =
     (let f = \<lfloor>q\<rfloor>; r = q - of_int f in
      if r < 1 / 2 then f
      else if 1 / 2 < r then f + 1
      else if even f then f else f + 1)"

definition ulp_exponent :: "real \<Rightarrow> int" where
  "ulp_exponent x = max (\<lfloor>log 2 \<bar>x\<bar>\<rfloor> - 52) (- 1074)"

definition round_double :: "real \<Rightarrow> real" where
  "round_double x =
     (if x = 0 then 0
      else of_int (round_even (x / 2 powr of_int (ulp_exponent x))) * 2 powr of_int (ulp_exponent x))"

text \<open>
  \<^verbatim>\<open>x + y\<close> and \<^verbatim>\<open>x * y\<close> on two doubles: each operation rounds its exact result (the
  product and the sum of line 335 are two operations, not one fused multiply-add).
\<close>

definition dadd :: "real \<Rightarrow> real \<Rightarrow> real" where
  "dadd x y = round_double (x + y)"

definition dmul :: "real \<Rightarrow> real \<Rightarrow> real" where
  "dmul x y = round_double (x * y)"

text \<open>
  Modelled from the spec: the macro \<^verbatim>\<open>TIME_MSEC_TO_SEC\<close> of the header, which is not among
  the sources. The period is in milliseconds and the simulated time advances by
  "one period (converted to seconds)": the macro is the \<^verbatim>\<open>double\<close> literal \<^verbatim>\<open>0.001\<close>, the
  binary64 number nearest to 1/1000.
\<close>

definition TIME_MSEC_TO_SEC :: real where
  "TIME_MSEC_TO_SEC = round_double (1 / 1000)"

text \<open>\<^verbatim>\<open>RateThread::getRate\<close>: the period the thread was constructed with, in milliseconds.\<close>

definition getRate :: "thread \<Rightarrow> real" where
  "getRate s = real_of_int (threadPeriod (ctrlOptions s))"

subsection \<open>Construction\<close>

definition OcraControllerOptions_default :: OcraControllerOptions where
  "OcraControllerOptions_default =
     \<lparr>threadPeriod = 10, serverName = '''', robotName = '''', startupTaskSetPath = '''',
      startupSequence = '''', wbiConfigFilePath = '''', runInDebugMode = False,
      isFloatingBase = False, controllerType = WOCRA_CONTROLLER\<rparr>"

text \<open>
  Modelled from the spec: \<^verbatim>\<open>OcraWbiModel::hasFixedRoot\<close>, which is not among the sources.
  The model is built from the option \<^verbatim>\<open>isFloatingBase\<close>, and the base is fixed exactly
  when it is not floating.
\<close>

definition OcraControllerServerThread :: "OcraControllerOptions \<Rightarrow> ctor_input \<Rightarrow> thread" where
  "OcraControllerServerThread controller_options c =
     \<lparr>ctrlOptions = controller_options,
      isStabilizing = False,
      controllerStatus = CONTROLLER_STOPPED,
      taskSequence = None,
      getDoFs = robot_DoFs c,
      hasFixedRoot = (\<not> isFloatingBase controller_options),
      jointVelocities = model_velocities c,
      homePosture = home_posture c,
      debugPosture = nominal_posture c,
      initialPosture = replicate (robot_DoFs c) 0,
      torques = replicate (robot_DoFs c) 0,
      measuredTorques = replicate (robot_DoFs c) 0,
      refSpeed = replicate (robot_DoFs c) (REFERENCE_JOINT_VELOCITY c),
      minTorques = replicate (robot_DoFs c) (TORQUE_MIN c),
      maxTorques = replicate (robot_DoFs c) (TORQUE_MAX c),
      initialCoMPosition = [],
      initialTorsoPosition = [],
      debugJointIndex = indeterminate_index c,
      time_sim = 0,
      openPorts = [],
      wbiCalls = [],
      cout = []\<rparr>"

subsection \<open>The periodic step\<close>

text \<open>Lines 243 and 244: the model updater refreshes the model, or its failure is printed.\<close>

definition update_model :: "step_input \<Rightarrow> thread \<Rightarrow> thread" where
  "update_model inp s =
     (case updater_update inp of
        None \<Rightarrow> say [Str ''ERROR with model updater''] s
      | Some v \<Rightarrow> s\<lparr>jointVelocities := v\<rparr>)"

text \<open>Lines 253 to 271: a joint index read from the debug port.\<close>

definition debug_new_joint :: "step_input \<Rightarrow> thread \<Rightarrow> error + thread" where
  "debug_new_joint inp s =
     (case debug_read inp of
        None \<Rightarrow> Inr s
      | Some tempDebugIndex \<Rightarrow>
          if tempDebugIndex \<ge> 0 \<and> tempDebugIndex < int (getDoFs s) then
            (let s1 = say [Str ''-----New joint received...'', Str ''Returning joint: '',
                           IntVal (debugJointIndex s), Str '' to home position.''] s
             in case coeff (debugPosture s1) (debugJointIndex s1) of
                  Inl e \<Rightarrow> Inl e
                | Inr p \<Rightarrow>
                    (let s2 = call (SetControlMode CTRL_MODE_POS (Joint (debugJointIndex s1))) s1;
                         s3 = call (SetControlReference [p] (Joint (debugJointIndex s2))) s2;
                         s4 = s3\<lparr>debugJointIndex := tempDebugIndex\<rparr>
                     in case coeff (torques s4) (debugJointIndex s4) of
                          Inl e \<Rightarrow> Inl e
                        | Inr t \<Rightarrow>
                            (let s5 = call (SetControlMode CTRL_MODE_TORQUE (Joint (debugJointIndex s4))) s4
                             in if set_torque_mode inp
                                then Inr (say [Str ''Now joint: '', IntVal (debugJointIndex s5),
                                     Str '' is now being tested in torque control.-----''] s5)
                                else Inr s5)))
          else Inr (say [Str ''[WARNING] (thread.run) The command you sent was not a valid joint index. Please use integers between 0 and '',
                         IntVal (int (getDoFs s) - 1), Str ''.''] s))"

text \<open>Lines 251 to 275: the task sequence is updated outside debug mode, unless the robot is being stabilized.\<close>

definition update_tasks :: "step_input \<Rightarrow> thread \<Rightarrow> error + thread" where
  "update_tasks inp s =
     (if runInDebugMode (ctrlOptions s) then debug_new_joint inp s
      else if \<not> isStabilizing s then
        (case taskSequence s of
           None \<Rightarrow> Inl NullDereference
         | Some ts \<Rightarrow> Inr (s\<lparr>taskSequence := Some (ts\<lparr>updateCalls := updateCalls ts @ [time_sim s]\<rparr>)\<rparr>))
      else Inr s)"

text \<open>Line 289: \<^verbatim>\<open>torques = ((torques.array().max(minTorques)).min(maxTorques)).matrix().eval()\<close>.\<close>

definition threshold_torques :: "thread \<Rightarrow> error + thread" where
  "threshold_torques s =
     (case array_max (torques s) (minTorques s) of
        Inl e \<Rightarrow> Inl e
      | Inr a \<Rightarrow>
          (case array_min a (maxTorques s) of
             Inl e \<Rightarrow> Inl e
           | Inr b \<Rightarrow> Inr (s\<lparr>torques := b\<rparr>)))"

text \<open>Lines 296 to 301: the torques are sent to the robot.\<close>

definition send_torques :: "thread \<Rightarrow> error + thread" where
  "send_torques s =
     (if runInDebugMode (ctrlOptions s) then
        (case coeff (torques s) (debugJointIndex s) of
           Inl e \<Rightarrow> Inl e
         | Inr t \<Rightarrow> Inr (call (SetControlReference [t] (Joint (debugJointIndex s))) s))
      else Inr (call (SetControlReference (torques s) ALL_JOINTS) s))"

definition run :: "step_input \<Rightarrow> thread \<Rightarrow> error + thread" where
  "run inp s =
     (case update_tasks inp (update_model inp s) of
        Inl e \<Rightarrow> Inl e
      | Inr s1 \<Rightarrow>
          (case threshold_torques (s1\<lparr>torques := computeOutput inp\<rparr>) of
             Inl e \<Rightarrow> Inl e
           | Inr s2 \<Rightarrow>
               (case send_torques s2 of
                  Inl e \<Rightarrow> Inl e
                | Inr s3 \<Rightarrow> Inr (s3\<lparr>time_sim := dadd (time_sim s3) (dmul TIME_MSEC_TO_SEC (getRate s3))\<rparr>))))"

subsection \<open>Initialisation\<close>

text \<open>
  \<^verbatim>\<open>TaskParser::addTaskManagersToSequence\<close>, called with the sequence pointer: the
  parsed managers are added to the sequence the pointer refers to, behind the ones it holds
  (a manager whose name is taken is not found by a lookup), and the call answers a boolean.
\<close>

definition addTaskManagersToSequence ::
  "(string \<times> task_manager) list \<Rightarrow> bool \<Rightarrow> TaskSequence option \<Rightarrow> error + (bool \<times> TaskSequence)" where
  "addTaskManagersToSequence parsed res p =
     (case p of
        None \<Rightarrow> Inl NullDereference
      | Some ts \<Rightarrow> Inr (res, ts\<lparr>taskManagers := taskManagers ts @ parsed\<rparr>))"

definition empty_sequence :: TaskSequence where
  "empty_sequence = \<lparr>taskManagers = [], initCalls = 0, updateCalls = []\<rparr>"

text \<open>Lines 164 to 180: the XML task set.\<close>

definition load_xml_task_set :: "init_input \<Rightarrow> thread \<Rightarrow> error + thread" where
  "load_xml_task_set inp s =
     (if startupTaskSetPath (ctrlOptions s) \<noteq> [] then
        (let s1 = (if startupSequence (ctrlOptions s) = []
                   then s\<lparr>taskSequence := Some empty_sequence\<rparr> else s);
             s2 = say [Str ''Loading tasks from XML file:'', Str (startupTaskSetPath (ctrlOptions s1))] s1
         in case parseTasksXML inp of
              Some parsed \<Rightarrow>
                (case addTaskManagersToSequence parsed (add_managers_result inp) (taskSequence s2) of
                   Inl e \<Rightarrow> Inl e
                 | Inr (_, ts) \<Rightarrow> Inr (s2\<lparr>taskSequence := Some ts\<rparr>))
            | None \<Rightarrow> Inr s2)
      else Inr (say [Str ''No XML task set detected.''] s))"

text \<open>
  Lines 183 to 194: without a task set and without a sequence the source prints which
  default tasks it loads; the two calls of \<^verbatim>\<open>LoadSequence\<close> are commented out.
\<close>

definition default_tasks :: "thread \<Rightarrow> thread" where
  "default_tasks s =
     (if startupTaskSetPath (ctrlOptions s) = [] \<and> startupSequence (ctrlOptions s) = [] then
        (let s1 = say [Str ''No tasks or scenarios loaded on startup. Defaulting to standard initial tasks.''] s
         in if \<not> hasFixedRoot s1
            then say [Str ''Loading floating base minimal tasks...''] s1
            else say [Str ''Loading fixed base minimal tasks...''] s1)
      else s)"

text \<open>
  Lines 131 to 196. The result is \<open>Inr (False, s)\<close> where the source returns false, and
  \<open>Inr (True, s)\<close> where it goes on.
\<close>

definition load_sequence :: "init_input \<Rightarrow> thread \<Rightarrow> error + (bool \<times> thread)" where
  "load_sequence inp s =
     (if runInDebugMode (ctrlOptions s) then
        (if hasFixedRoot s then
           (let s1 = say [Str ''Loading fixed base minimal tasks...'',
                          Str ''------------------------------'',
                          Str ''  Running in DEBUG mode...'',
                          Str ''------------------------------''] s;
                portPrefix = ''/OCRA/Controller/debug'';
                s2 = s1\<lparr>openPorts := openPorts s1 @ [portPrefix @ '':i'']\<rparr>;
                s3 = s2\<lparr>openPorts := openPorts s2 @ [portPrefix @ '':o'']\<rparr>
            in Inr (True, s3\<lparr>debugJointIndex := 3\<rparr>))
         else Inr (False, say [Str ''[ERR] Cannot run debug mode with floating base.''] s))
      else
        (let s1 = say [Str ''=== Creating wocraController ===''] s;
             s2 = (if startupSequence (ctrlOptions s1) \<noteq> []
                   then say [Str ''Loading sequence:'', Str (startupSequence (ctrlOptions s1))] s1
                   else s1)
         in case load_xml_task_set inp s2 of
              Inl e \<Rightarrow> Inl e
            | Inr s3 \<Rightarrow> Inr (True, default_tasks s3)))"

text \<open>Line 205: \<^verbatim>\<open>taskSequence->init(*ctrl, *ocraModel)\<close>.\<close>

definition init_sequence :: "thread \<Rightarrow> error + thread" where
  "init_sequence s =
     (case taskSequence s of
        None \<Rightarrow> Inl NullDereference
      | Some ts \<Rightarrow> Inr (s\<lparr>taskSequence := Some (ts\<lparr>initCalls := Suc (initCalls ts)\<rparr>)\<rparr>))"

text \<open>Lines 214 to 224: the control mode of the robot.\<close>

definition set_control_mode :: "thread \<Rightarrow> thread" where
  "set_control_mode s =
     (if runInDebugMode (ctrlOptions s) then
        call (SetControlMode CTRL_MODE_TORQUE (Joint (debugJointIndex s)))
          (call (SetControlReference (debugPosture s) ALL_JOINTS)
            (call (SetControlMode CTRL_MODE_POS ALL_JOINTS) s))
      else call (SetControlMode CTRL_MODE_TORQUE ALL_JOINTS) s)"

text \<open>Lines 104 to 122: the RPC port, the model updater and the initial estimates.\<close>

definition open_rpc_and_estimate :: "init_input \<Rightarrow> thread \<Rightarrow> thread" where
  "open_rpc_and_estimate inp s =
     (let s1 = s\<lparr>openPorts := openPorts s @ [''/OCRA/Controller/rpc:i'']\<rparr>;
          s2 = (if \<not> updater_initialize inp then say [Str ''ERROR with model updater''] s1 else s1);
          s3 = s2\<lparr>initialPosture := estimate_joint_pos inp\<rparr>;
          s4 = s3\<lparr>initialCoMPosition := com_position inp\<rparr>
      in s4\<lparr>initialTorsoPosition := torso_translation inp\<rparr>)"

definition threadInit :: "init_input \<Rightarrow> thread \<Rightarrow> error + (bool \<times> thread)" where
  "threadInit inp s =
     (case load_sequence inp (open_rpc_and_estimate inp s) of
        Inl e \<Rightarrow> Inl e
      | Inr (False, s6) \<Rightarrow> Inr (False, s6)
      | Inr (True, s6) \<Rightarrow>
          (case init_sequence s6 of
             Inl e \<Rightarrow> Inl e
           | Inr s7 \<Rightarrow> Inr (True, (set_control_mode s7)\<lparr>controllerStatus := CONTROLLER_RUNNING\<rparr>)))"

subsection \<open>Stabilization and release\<close>

text \<open>
  What \<^verbatim>\<open>threadRelease\<close> is answered: the managers parsed from the stabilization task set
  and the result of adding them, the inputs of the \<open>k\<close>-th step of the stabilization loop,
  the successive readings of \<^verbatim>\<open>yarp::os::Time::now()\<close> (reading 0 is the start time,
  reading \<open>k + 1\<close> is taken after the \<open>k\<close>-th step), and the result of switching all joints
  to position mode.
\<close>

record release_input =
  stabilization_tasks :: "(string \<times> task_manager) list"
  stabilization_added :: bool
  loop_steps :: "nat \<Rightarrow> step_input"
  time_now :: "nat \<Rightarrow> real"
  set_position_mode :: bool

definition clearSequence :: "thread \<Rightarrow> error + thread" where
  "clearSequence s =
     (case taskSequence s of
        None \<Rightarrow> Inl NullDereference
      | Some ts \<Rightarrow> Inr (s\<lparr>taskSequence := Some (ts\<lparr>taskManagers := []\<rparr>)\<rparr>))"

definition loadStabilizationTasks :: "release_input \<Rightarrow> thread \<Rightarrow> error + (bool \<times> thread)" where
  "loadStabilizationTasks inp s =
     (case addTaskManagersToSequence (stabilization_tasks inp) (stabilization_added inp) (taskSequence s) of
        Inl e \<Rightarrow> Inl e
      | Inr (res, ts) \<Rightarrow> Inr (res, s\<lparr>taskSequence := Some ts\<rparr>))"

definition ZERO_VELOCITY_THRESHOLD :: real where
  "ZERO_VELOCITY_THRESHOLD = 0.01"

definition isRobotStable :: "thread \<Rightarrow> bool" where
  "isRobotStable s = (vnorm (jointVelocities s) \<le> ZERO_VELOCITY_THRESHOLD)"

definition STABILIZATION_TIMEOUT :: real where
  "STABILIZATION_TIMEOUT = 1.0"

text \<open>
  The target of a named task manager is set through a handle cast to a concrete class:
  \<^verbatim>\<open>getTaskManagerPointer\<close> gives no handle for a name the sequence does not hold, the
  cast gives none for a manager of another class, and the source calls the setter on what
  it gets.
\<close>

fun setPosture :: "real list \<Rightarrow> task_manager option \<Rightarrow> task_manager option" where
  "setPosture v (Some (FullPostureTaskManager _)) = Some (FullPostureTaskManager v)"
| "setPosture v _ = None"

fun setState_CoM :: "real list \<Rightarrow> task_manager option \<Rightarrow> task_manager option" where
  "setState_CoM v (Some (CoMTaskManager _)) = Some (CoMTaskManager v)"
| "setState_CoM v _ = None"

fun setState_SegCartesian :: "real list \<Rightarrow> task_manager option \<Rightarrow> task_manager option" where
  "setState_SegCartesian v (Some (SegCartesianTaskManager _)) = Some (SegCartesianTaskManager v)"
| "setState_SegCartesian v _ = None"

fun replace_manager :: "string \<Rightarrow> task_manager \<Rightarrow> (string \<times> task_manager) list \<Rightarrow> (string \<times> task_manager) list" where
  "replace_manager k m [] = []"
| "replace_manager k m ((k', m') # xs) = (if k' = k then (k, m) # xs else (k', m') # replace_manager k m xs)"

definition retarget ::
  "(task_manager option \<Rightarrow> task_manager option) \<Rightarrow> string \<Rightarrow> thread \<Rightarrow> error + thread" where
  "retarget setter key s =
     (case taskSequence s of
        None \<Rightarrow> Inl NullDereference
      | Some ts \<Rightarrow>
          (case setter (map_of (taskManagers ts) key) of
             None \<Rightarrow> Inl NullDereference
           | Some m \<Rightarrow> Inr (s\<lparr>taskSequence := Some (ts\<lparr>taskManagers := replace_manager key m (taskManagers ts)\<rparr>)\<rparr>)))"

text \<open>Lines 522 to 530.\<close>

definition retarget_stabilization_tasks :: "thread \<Rightarrow> error + thread" where
  "retarget_stabilization_tasks s =
     (let s0 = s\<lparr>isStabilizing := True\<rparr>;
          postureTaskKey = ''stabilization_fullPosture'';
          comTaskKey = ''stabilization_comTask'';
          torsoTaskKey = ''stabilization_torsoCartesianTask''
      in case retarget (setPosture (initialPosture s0)) postureTaskKey s0 of
           Inl e \<Rightarrow> Inl e
         | Inr s1 \<Rightarrow>
             (case retarget (setState_CoM (initialCoMPosition s1)) comTaskKey s1 of
                Inl e \<Rightarrow> Inl e
              | Inr s2 \<Rightarrow> retarget (setState_SegCartesian (initialTorsoPosition s2)) torsoTaskKey s2))"

text \<open>
  The body of the \<^verbatim>\<open>do\<close> loop, lines 541 to 551, with the value of the loop condition.
\<close>

definition stabilize_step :: "step_input \<Rightarrow> real \<Rightarrow> thread \<Rightarrow> error + (bool \<times> thread)" where
  "stabilize_step inp timeStabilizing s =
     (case run inp s of
        Inl e \<Rightarrow> Inl e
      | Inr s1 \<Rightarrow>
          (let s2 = (if fmod timeStabilizing 5.0 \<le> 0.01
                     then say [DblVal timeStabilizing, Str '' sec''] s1 else s1);
               s3 = (if timeStabilizing \<ge> STABILIZATION_TIMEOUT
                     then say [Str ''****[WARNING] Stabilization procedure has timed out. The robot may fall!****''] s2
                     else s2)
           in Inr (\<not> isRobotStable s3 \<and> timeStabilizing < STABILIZATION_TIMEOUT, s3)))"

text \<open>
  The \<^verbatim>\<open>do\<close> loop. Nothing in it bounds the number of iterations but the clock, so the
  result is \<open>None\<close> where the loop does not end.
\<close>

partial_function (option) stabilize_loop ::
  "(nat \<Rightarrow> step_input) \<Rightarrow> (nat \<Rightarrow> real) \<Rightarrow> real \<Rightarrow> nat \<Rightarrow> thread \<Rightarrow> (error + thread) option" where
  "stabilize_loop inputs now timeStabilizingStart k s =
     (case stabilize_step (inputs k) (now (Suc k) - timeStabilizingStart) s of
        Inl e \<Rightarrow> Some (Inl e)
      | Inr (again, s') \<Rightarrow>
          if again then stabilize_loop inputs now timeStabilizingStart (Suc k) s'
          else Some (Inr s'))"

definition stabilizeRobot :: "release_input \<Rightarrow> thread \<Rightarrow> (error + thread) option" where
  "stabilizeRobot inp s =
     (case retarget_stabilization_tasks s of
        Inl e \<Rightarrow> Some (Inl e)
      | Inr s1 \<Rightarrow>
          (let timeStabilizingStart = time_now inp 0;
               s2 = say [Str ''Attempting to stabilize the robot's posture. Time elapsed:''] s1
           in case stabilize_loop (loop_steps inp) (time_now inp) timeStabilizingStart 0 s2 of
                None \<Rightarrow> None
              | Some (Inl e) \<Rightarrow> Some (Inl e)
              | Some (Inr s3) \<Rightarrow>
                  Some (Inr (if isRobotStable s3
                             then say [Str ''Stabilization procedure complete!''] s3 else s3))))"

text \<open>Lines 340 to 348.\<close>

definition release_stabilize :: "release_input \<Rightarrow> thread \<Rightarrow> (error + thread) option" where
  "release_stabilize inp s =
     (case clearSequence s of
        Inl e \<Rightarrow> Some (Inl e)
      | Inr s1 \<Rightarrow>
          if \<not> hasFixedRoot s1 then
            (case loadStabilizationTasks inp s1 of
               Inl e \<Rightarrow> Some (Inl e)
             | Inr (True, s2) \<Rightarrow> stabilizeRobot inp s2
             | Inr (False, s2) \<Rightarrow>
                 Some (Inr (say [Str ''[WARNING] Error loading stabilization task set. Could not perform safe stabilization procedure.''] s2)))
          else Some (Inr s1))"

text \<open>Lines 350 to 359.\<close>

definition release_position_mode :: "release_input \<Rightarrow> thread \<Rightarrow> error + thread" where
  "release_position_mode inp s =
     (let s1 = call (SetControlMode CTRL_MODE_POS ALL_JOINTS) s
      in if set_position_mode inp then
           (let s2 = call (SetControlReference (initialPosture s1) ALL_JOINTS) s1;
                s3 = say [Str ''--> Closing controller thread. Switching to POSITION mode and returning to home pose.''] s2
            in case clearSequence s3 of
                 Inl e \<Rightarrow> Inl e
               | Inr s4 \<Rightarrow> Inr (s4\<lparr>controllerStatus := CONTROLLER_STOPPED\<rparr>))
         else Inr (say [Str ''[ERROR] (OcraControllerServerThread::threadRelease): Could not set the robot into Position Control mode.''] s1))"

definition threadRelease :: "release_input \<Rightarrow> thread \<Rightarrow> (error + thread) option" where
  "threadRelease inp s =
     (case release_stabilize inp s of
        None \<Rightarrow> None
      | Some (Inl e) \<Rightarrow> Some (Inl e)
      | Some (Inr s1) \<Rightarrow> Some (release_position_mode inp s1))"

subsection \<open>The command handler\<close>

text \<open>A value of a bottle, and \<^verbatim>\<open>asInt\<close>, which is 0 on a value that is no integer.\<close>

datatype bottle_value = BInt int | BString string

fun asInt :: "bottle_value \<Rightarrow> int" where
  "asInt (BInt n) = n"
| "asInt (BString _) = 0"

text \<open>
  The \<^verbatim>\<open>switch\<close> of lines 368 to 428 on one value of the bottle: the reply and the thread
  after it. Every case advances the index by one, which the loop below does.
\<close>

definition handle_message ::
  "(OCRA_CONTROLLER_MESSAGE \<Rightarrow> int) \<Rightarrow> int \<Rightarrow> bottle_value list \<Rightarrow> thread \<Rightarrow> bottle_value list \<times> thread" where
  "handle_message val m reply s =
     (if m = val GET_CONTROLLER_STATUS then
        (reply @ [BInt (val (controllerStatus s))], say [Str ''Got message: GET_CONTROLLER_STATUS.''] s)
      else if m = val GET_WBI_CONFIG_FILE_PATH then
        (reply @ [BString (wbiConfigFilePath (ctrlOptions s))], say [Str ''Got message: GET_WBI_CONFIG_FILE_PATH.''] s)
      else if m = val GET_ROBOT_NAME then
        (reply @ [BString (robotName (ctrlOptions s))], say [Str ''Got message: GET_ROBOT_NAME.''] s)
      else if m = val START_CONTROLLER then (reply, say [Str ''Got message: START_CONTROLLER.''] s)
      else if m = val STOP_CONTROLLER then (reply, say [Str ''Got message: STOP_CONTROLLER.''] s)
      else if m = val PAUSE_CONTROLLER then (reply, say [Str ''Got message: PAUSE_CONTROLLER.''] s)
      else if m = val ADD_TASK then (reply, say [Str ''Got message: ADD_TASK.''] s)
      else if m = val ADD_TASK_FROM_FILE then (reply, say [Str ''Got message: ADD_TASK_FROM_FILE.''] s)
      else if m = val REMOVE_TASK then (reply, say [Str ''Got message: REMOVE_TASK.''] s)
      else if m = val REMOVE_TASKS then (reply, say [Str ''Got message: REMOVE_TASKS.''] s)
      else if m = val GET_TASK_LIST then (reply, say [Str ''Got message: GET_TASK_LIST.''] s)
      else if m = val GET_TASK_PORT_LIST then (reply, say [Str ''Got message: GET_TASK_PORT_LIST.''] s)
      else if m = val HELP then (reply, say [Str ''Got message: HELP.''] s)
      else (reply, say [Str ''Got message: UNKNOWN.''] s))"

function parse_from ::
  "(OCRA_CONTROLLER_MESSAGE \<Rightarrow> int) \<Rightarrow> bottle_value list \<Rightarrow> nat \<Rightarrow> bottle_value list \<Rightarrow> thread \<Rightarrow> bottle_value list \<times> thread" where
  "parse_from val input i reply s =
     (if i < length input then
        (case handle_message val (asInt (input ! i)) reply s of
           (reply', s') \<Rightarrow> parse_from val input (Suc i) reply' s')
      else (reply, s))"
  by pat_completeness auto
termination
  by (relation "measure (\<lambda>(val, input, i, reply, s). length input - i)") auto

declare parse_from.simps [simp del]

definition parseIncomingMessage ::
  "(OCRA_CONTROLLER_MESSAGE \<Rightarrow> int) \<Rightarrow> bottle_value list \<Rightarrow> bottle_value list \<Rightarrow> thread \<Rightarrow> bottle_value list \<times> thread" where
  "parseIncomingMessage val input reply s = parse_from val input 0 reply s"

subsection \<open>Calls in sequence\<close>

text \<open>The periodic scheduler calls \<^verbatim>\<open>run\<close> once per period; a fault ends the sequence.\<close>

fun steps :: "step_input list \<Rightarrow> thread \<Rightarrow> error + thread" where
  "steps [] s = Inr s"
| "steps (inp # inps) s = (case run inp s of Inl e \<Rightarrow> Inl e | Inr s' \<Rightarrow> steps inps s')"

text \<open>
  A call of one of the member functions from outside, and a lifetime of the thread as any
  sequence of such calls. The result is \<open>None\<close> when a call does not return.
\<close>

datatype event =
    Init init_input
  | Step step_input
  | Release release_input
  | Message "bottle_value list"

fun fire :: "(OCRA_CONTROLLER_MESSAGE \<Rightarrow> int) \<Rightarrow> event \<Rightarrow> thread \<Rightarrow> (error + thread) option" where
  "fire val (Init inp) s = Some (map_sum id snd (threadInit inp s))"
| "fire val (Step inp) s = Some (run inp s)"
| "fire val (Release inp) s = threadRelease inp s"
| "fire val (Message input) s = Some (Inr (snd (parseIncomingMessage val input [] s)))"

fun life :: "(OCRA_CONTROLLER_MESSAGE \<Rightarrow> int) \<Rightarrow> event list \<Rightarrow> thread \<Rightarrow> (error + thread) option" where
  "life val [] s = Some (Inr s)"
| "life val (e # es) s =
     (case fire val e s of
        None \<Rightarrow> None
      | Some (Inl x) \<Rightarrow> Some (Inl x)
      | Some (Inr s') \<Rightarrow> life val es s')"

subsection \<open>Properties as definitions\<close>

text \<open>The members that \<^verbatim>\<open>run\<close> has no assignment to.\<close>

definition kept_by_run ::
  "thread \<Rightarrow> OcraControllerOptions \<times> bool \<times> OCRA_CONTROLLER_MESSAGE \<times> nat \<times> bool \<times> real list \<times> real list \<times>
     real list \<times> real list \<times> real list \<times> real list \<times> real list \<times> real list \<times> real list \<times> string list" where
  "kept_by_run s = (ctrlOptions s, isStabilizing s, controllerStatus s, getDoFs s, hasFixedRoot s,
     homePosture s, debugPosture s, initialPosture s, measuredTorques s, refSpeed s,
     minTorques s, maxTorques s, initialCoMPosition s, initialTorsoPosition s, openPorts s)"

text \<open>
  What the command handler is described to append to the reply for one value of the
  bottle: the status for a status query, the configuration path and the robot name for
  those queries, nothing for any other value.
\<close>

definition reply_for :: "(OCRA_CONTROLLER_MESSAGE \<Rightarrow> int) \<Rightarrow> thread \<Rightarrow> bottle_value \<Rightarrow> bottle_value list" where
  "reply_for val s b =
     (if asInt b = val GET_CONTROLLER_STATUS then [BInt (val (controllerStatus s))]
      else if asInt b = val GET_WBI_CONFIG_FILE_PATH then [BString (wbiConfigFilePath (ctrlOptions s))]
      else if asInt b = val GET_ROBOT_NAME then [BString (robotName (ctrlOptions s))]
      else [])"

text \<open>
  The simulated time \<open>n\<close> steps after the state \<open>s\<close>: the increment of one step, added
  \<open>n\<close> times as line 335 adds it.
\<close>

definition time_after :: "nat \<Rightarrow> thread \<Rightarrow> real" where
  "time_after n s = ((\<lambda>t. dadd t (dmul TIME_MSEC_TO_SEC (getRate s))) ^^ n) (time_sim s)"

text \<open>The three names the stabilization procedure looks up.\<close>

definition stabilization_keys :: "string set" where
  "stabilization_keys =
     {''stabilization_fullPosture'', ''stabilization_comTask'', ''stabilization_torsoCartesianTask''}"

subsection \<open>Concrete inputs\<close>

text \<open>A robot of two joints, with torque bounds of 24 on either side.\<close>

definition robot2 :: ctor_input where
  "robot2 = \<lparr>robot_DoFs = 2, TORQUE_MIN = - 24, TORQUE_MAX = 24, REFERENCE_JOINT_VELOCITY = 10,
             home_posture = [0, 0], nominal_posture = [0, 0], model_velocities = [0, 0],
             indeterminate_index = 0\<rparr>"

definition xml_options :: OcraControllerOptions where
  "xml_options = OcraControllerOptions_default\<lparr>startupTaskSetPath := ''tasks.xml''\<rparr>"

definition floating_xml_options :: OcraControllerOptions where
  "floating_xml_options = xml_options\<lparr>isFloatingBase := True\<rparr>"

definition floating_options :: OcraControllerOptions where
  "floating_options = OcraControllerOptions_default\<lparr>isFloatingBase := True\<rparr>"

definition debug_floating_options :: OcraControllerOptions where
  "debug_floating_options = OcraControllerOptions_default\<lparr>runInDebugMode := True, isFloatingBase := True\<rparr>"

definition init2 :: init_input where
  "init2 = \<lparr>updater_initialize = True, estimate_joint_pos = [1, 2], com_position = [0, 0, 1],
            torso_translation = [0, 0, 2],
            parseTasksXML = Some [(''fullPosture'', FullPostureTaskManager [0, 0])],
            add_managers_result = True\<rparr>"

text \<open>The thread of that robot after its initialisation from an XML task set, on a fixed and on a floating base.\<close>

definition started2 :: thread where
  "started2 =
     (case threadInit init2 (OcraControllerServerThread xml_options robot2) of
        Inr (_, s) \<Rightarrow> s
      | Inl _ \<Rightarrow> OcraControllerServerThread xml_options robot2)"

definition floating2 :: thread where
  "floating2 =
     (case threadInit init2 (OcraControllerServerThread floating_xml_options robot2) of
        Inr (_, s) \<Rightarrow> s
      | Inl _ \<Rightarrow> OcraControllerServerThread floating_xml_options robot2)"

text \<open>A step in which the controller asks for torques beyond both bounds and the joints are at rest.\<close>

definition step2 :: step_input where
  "step2 = \<lparr>updater_update = Some [0, 0], debug_read = None, set_torque_mode = True,
            computeOutput = [30, - 50]\<rparr>"

text \<open>A step in which the joints move.\<close>

definition moving2 :: step_input where
  "moving2 = \<lparr>updater_update = Some [1, 0], debug_read = None, set_torque_mode = True,
              computeOutput = [1, 1]\<rparr>"

definition stabilization_set :: "(string \<times> task_manager) list" where
  "stabilization_set =
     [(''stabilization_fullPosture'', FullPostureTaskManager []),
      (''stabilization_comTask'', CoMTaskManager []),
      (''stabilization_torsoCartesianTask'', SegCartesianTaskManager [])]"

text \<open>A release during which the joints are at rest and the clock reads half a second more each time.\<close>

definition release2 :: release_input where
  "release2 = \<lparr>stabilization_tasks = stabilization_set, stabilization_added = True,
               loop_steps = (\<lambda>k. step2), time_now = (\<lambda>k. real k / 2),
               set_position_mode = True\<rparr>"

text \<open>A release during which the joints keep moving: the loop ends on the clock.\<close>

definition timing_out2 :: release_input where
  "timing_out2 = release2\<lparr>loop_steps := (\<lambda>k. moving2)\<rparr>"

text \<open>The thread on the floating base with the stabilization task set in its sequence.\<close>

definition loaded2 :: thread where
  "loaded2 = floating2\<lparr>taskSequence :=
     Some \<lparr>taskManagers = stabilization_set, initCalls = 1, updateCalls = []\<rparr>\<rparr>"

text \<open>A release in which the robot refuses the switch to position mode.\<close>

definition refused2 :: release_input where
  "refused2 = release2\<lparr>set_position_mode := False\<rparr>"

text \<open>The thread on the floating base after one release, and after a second one.\<close>

definition released2 :: thread where
  "released2 = (case threadRelease release2 floating2 of Some (Inr s) \<Rightarrow> s | _ \<Rightarrow> floating2)"

definition released_twice2 :: thread where
  "released_twice2 = (case threadRelease release2 released2 of Some (Inr s) \<Rightarrow> s | _ \<Rightarrow> released2)"

text \<open>A numbering of the enumeration, in the order in which the source names its members.\<close>

fun val0 :: "OCRA_CONTROLLER_MESSAGE \<Rightarrow> int" where
  "val0 GET_CONTROLLER_STATUS = 1"
| "val0 GET_WBI_CONFIG_FILE_PATH = 2"
| "val0 GET_ROBOT_NAME = 3"
| "val0 START_CONTROLLER = 4"
| "val0 STOP_CONTROLLER = 5"
| "val0 PAUSE_CONTROLLER = 6"
| "val0 ADD_TASK = 7"
| "val0 ADD_TASK_FROM_FILE = 8"
| "val0 REMOVE_TASK = 9"
| "val0 REMOVE_TASKS = 10"
| "val0 GET_TASK_LIST = 11"
| "val0 GET_TASK_PORT_LIST = 12"
| "val0 HELP = 13"
| "val0 CONTROLLER_RUNNING = 14"
| "val0 CONTROLLER_STOPPED = 15"

section \<open>Properties\<close>

subsection \<open>The arithmetic of the simulated time\<close>

lemma round_even_ge: "of_int k \<le> q \<Longrightarrow> k \<le> round_even q"
proof -
  assume "of_int k \<le> q"
  then have "k \<le> \<lfloor>q\<rfloor>" by (simp add: le_floor_iff)
  then show ?thesis by (simp add: round_even_def Let_def)
qed

lemma round_even_le: "q \<le> of_int k \<Longrightarrow> round_even q \<le> k"
proof -
  assume q: "q \<le> of_int k"
  have f: "\<lfloor>q\<rfloor> \<le> k" using q by (simp add: floor_le_iff)
  show ?thesis
  proof (cases "q = of_int \<lfloor>q\<rfloor>")
    case True
    then have "q - of_int \<lfloor>q\<rfloor> = 0" by simp
    then show ?thesis using f by (simp add: round_even_def Let_def)
  next
    case False
    then have "of_int \<lfloor>q\<rfloor> < q" using of_int_floor_le[of q] by linarith
    then have "of_int \<lfloor>q\<rfloor> < (of_int k :: real)" using q by linarith
    then have "\<lfloor>q\<rfloor> < k" by simp
    then show ?thesis by (auto simp: round_even_def Let_def)
  qed
qed

lemma round_even_of_int: "round_even (of_int k) = k"
  by (simp add: round_even_def)

lemma binade:
  assumes "x \<noteq> 0"
  shows "2 powr of_int \<lfloor>log 2 \<bar>x\<bar>\<rfloor> \<le> \<bar>x\<bar>" "\<bar>x\<bar> < 2 powr of_int (\<lfloor>log 2 \<bar>x\<bar>\<rfloor> + 1)"
proof -
  have "0 < \<bar>x\<bar>" using assms by simp
  from floor_log_eq_powr_iff[OF this, of 2 "\<lfloor>log 2 \<bar>x\<bar>\<rfloor>"]
  show "2 powr of_int \<lfloor>log 2 \<bar>x\<bar>\<rfloor> \<le> \<bar>x\<bar>" "\<bar>x\<bar> < 2 powr of_int (\<lfloor>log 2 \<bar>x\<bar>\<rfloor> + 1)"
    by simp_all
qed

lemma round_double_nonneg: "0 \<le> x \<Longrightarrow> 0 \<le> round_double x"
proof -
  assume x: "0 \<le> x"
  have "0 \<le> round_even (x / 2 powr of_int (ulp_exponent x))"
    by (rule round_even_ge) (use x in simp)
  then show ?thesis by (simp add: round_double_def)
qed

lemma round_double_nonpos: "x \<le> 0 \<Longrightarrow> round_double x \<le> 0"
proof -
  assume x: "x \<le> 0"
  have "round_even (x / 2 powr of_int (ulp_exponent x)) \<le> 0"
    by (rule round_even_le) (use x in \<open>simp add: divide_nonpos_pos\<close>)
  then show ?thesis by (simp add: round_double_def mult_nonpos_nonneg)
qed

lemma powr_int_add: "2 powr of_int (a + b) = 2 powr of_int a * (2::real) powr of_int b"
  by (simp add: powr_add)

lemma round_double_bound:
  assumes "0 < x"
  shows "round_double x \<le> 2 powr of_int (ulp_exponent x + 53)"
proof -
  let ?g = "ulp_exponent x"
  let ?E = "\<lfloor>log 2 \<bar>x\<bar>\<rfloor>"
  have x0: "x \<noteq> 0" using assms by simp
  have "x < 2 powr of_int (?E + 1)" using binade(2)[OF x0] assms by simp
  also have "\<dots> \<le> 2 powr of_int (?g + 53)"
    by (simp add: ulp_exponent_def)
  finally have "x < 2 powr of_int ?g * 2 powr of_int 53" by (simp only: powr_int_add)
  then have "x / 2 powr of_int ?g \<le> 2 powr of_int 53"
    by (simp add: pos_divide_le_eq mult.commute)
  also have "(2::real) powr of_int 53 = of_int (2 ^ 53)" by (simp add: powr_realpow[symmetric])
  finally have "round_even (x / 2 powr of_int ?g) \<le> 2 ^ 53" by (rule round_even_le)
  then have "(of_int (round_even (x / 2 powr of_int ?g)) :: real) \<le> of_int (2 ^ 53)"
    by (simp only: of_int_le_iff)
  also have "(of_int (2 ^ 53) :: real) = 2 powr of_int 53" by (simp add: powr_realpow[symmetric])
  finally have "real_of_int (round_even (x / 2 powr of_int ?g)) * 2 powr of_int ?g \<le> 2 powr of_int 53 * 2 powr of_int ?g"
    by (simp add: mult_right_mono)
  then have "round_double x \<le> 2 powr of_int 53 * 2 powr of_int ?g"
    using x0 by (simp add: round_double_def)
  also have "\<dots> = 2 powr of_int (?g + 53)" by (simp add: powr_add mult.commute)
  finally show ?thesis .
qed

lemma round_double_pos_arg: "0 < round_double a \<Longrightarrow> 0 < a"
  using round_double_nonpos[of a] by linarith

text \<open>
  Rounding does not go below a double that the rounded number is not below: the sum of a
  non-negative double and a non-negative number rounds to at least that double.
\<close>

lemma round_double_mono_double:
  assumes t: "t = round_double a" and t0: "0 \<le> t" and ty: "t \<le> y"
  shows "t \<le> round_double y"
proof (cases "t = 0")
  case True
  then show ?thesis using round_double_nonneg[of y] ty by simp
next
  case False
  then have tpos: "0 < t" using t0 by simp
  then have apos: "0 < a" using t round_double_pos_arg by simp
  have ypos: "0 < y" using tpos ty by simp
  let ?ga = "ulp_exponent a"
  let ?gy = "ulp_exponent y"
  let ?n = "round_even (a / 2 powr of_int ?ga)"
  have tn: "t = of_int ?n * 2 powr of_int ?ga" using t apos by (simp add: round_double_def)
  have ry: "round_double y = of_int (round_even (y / 2 powr of_int ?gy)) * 2 powr of_int ?gy"
    using ypos by (simp add: round_double_def)
  show ?thesis
  proof (cases "?gy \<le> ?ga")
    case True
    then obtain m where m: "?ga = ?gy + int m" by (metis zle_iff_zadd)
    have "(2::real) powr of_int ?ga = 2 powr of_int ?gy * 2 ^ m"
      by (simp add: m powr_add powr_realpow)
    then have tq: "t / 2 powr of_int ?gy = of_int (?n * 2 ^ m)"
      using tn by simp
    have "t / 2 powr of_int ?gy \<le> y / 2 powr of_int ?gy"
      using ty by (simp add: divide_right_mono)
    then have "?n * 2 ^ m \<le> round_even (y / 2 powr of_int ?gy)"
      unfolding tq by (rule round_even_ge)
    then have "real_of_int (?n * 2 ^ m) \<le> of_int (round_even (y / 2 powr of_int ?gy))"
      by (simp only: of_int_le_iff)
    then have "real_of_int (?n * 2 ^ m) * 2 powr of_int ?gy \<le> round_double y"
      unfolding ry by (simp add: mult_right_mono)
    moreover have "t = real_of_int (?n * 2 ^ m) * 2 powr of_int ?gy"
      using tq by (simp add: field_simps)
    ultimately show ?thesis by simp
  next
    case False
    then have lt: "?ga + 1 \<le> ?gy" by simp
    have "- 1074 \<le> ?ga" by (simp add: ulp_exponent_def)
    then have gy: "?gy = \<lfloor>log 2 \<bar>y\<bar>\<rfloor> - 52" using lt by (simp add: ulp_exponent_def max_def split: if_splits)
    have y0: "y \<noteq> 0" using ypos by simp
    have "2 powr of_int (?gy + 52) \<le> y" using binade(1)[OF y0] ypos by (simp add: gy)
    then have "2 powr of_int 52 * 2 powr of_int ?gy \<le> y" by (simp add: powr_add mult.commute)
    then have "2 powr of_int 52 \<le> y / 2 powr of_int ?gy" by (simp add: pos_le_divide_eq)
    moreover have "(2::real) powr of_int 52 = of_int (2 ^ 52)" by (simp add: powr_realpow[symmetric])
    ultimately have "2 ^ 52 \<le> round_even (y / 2 powr of_int ?gy)"
      by (simp only: round_even_ge)
    then have "real_of_int (2 ^ 52) \<le> of_int (round_even (y / 2 powr of_int ?gy))"
      by (simp only: of_int_le_iff)
    then have "real_of_int (2 ^ 52) * 2 powr of_int ?gy \<le> round_double y"
      unfolding ry by (simp add: mult_right_mono)
    moreover have "real_of_int (2 ^ 52) * 2 powr of_int ?gy = 2 powr of_int (?gy + 52)"
      by (simp add: powr_add powr_realpow[symmetric] mult.commute)
    moreover have "t \<le> 2 powr of_int (?ga + 53)"
      using round_double_bound[OF apos] t by simp
    moreover have "(2::real) powr of_int (?ga + 53) \<le> 2 powr of_int (?gy + 52)"
      using lt by simp
    ultimately show ?thesis by linarith
  qed
qed


text \<open>The rounding of a number of a known binade \<open>2 ^ - k\<close>.\<close>

lemma round_double_eval:
  assumes lo: "1 / 2 ^ k \<le> x" and hi: "x < 2 / 2 ^ k" and k: "k \<le> 1022"
  shows "round_double x = of_int (round_even (x * 2 ^ (k + 52))) / 2 ^ (k + 52)"
proof -
  have pos: "0 < x" using lo by (smt (verit) divide_pos_pos zero_less_power)
  have p1: "(2::real) powr (- real k) = 1 / 2 ^ k"
    by (simp add: powr_minus powr_realpow divide_simps)
  have "(2::real) powr (1 - real k) = 2 powr 1 * 2 powr (- real k)"
    by (simp only: powr_add[symmetric]) simp
  then have p2: "(2::real) powr (1 - real k) = 2 / 2 ^ k"
    by (simp add: p1)
  have "\<lfloor>log 2 x\<rfloor> = - int k"
    using floor_log_eq_powr_iff[OF pos, of 2 "- int k"] lo hi p1 p2 by simp
  then have g: "ulp_exponent x = - int (k + 52)"
    using pos k by (simp add: ulp_exponent_def)
  have p3: "(2::real) powr of_int (- int (k + 52)) = 1 / 2 ^ (k + 52)"
    by (simp only: powr_minus of_int_minus of_int_of_nat_eq powr_realpow[OF zero_less_numeral] inverse_eq_divide)
  show ?thesis using pos by (simp add: round_double_def g p3 del: of_int_minus of_nat_add)
qed

text \<open>
  The values of the examples: the literal \<^verbatim>\<open>0.001\<close>, its product with a period of 10 ms (the
  double \<^verbatim>\<open>0.01\<close>), and the first two sums.
\<close>

lemma TIME_MSEC_TO_SEC_value: "TIME_MSEC_TO_SEC = 1152921504606847 / 1152921504606846976"
  unfolding TIME_MSEC_TO_SEC_def
  by (subst round_double_eval[where k = 10]) (simp_all add: round_even_def)

lemma increment_value: "dmul TIME_MSEC_TO_SEC 10 = 5764607523034235 / 576460752303423488"
  unfolding dmul_def TIME_MSEC_TO_SEC_value
  by (subst round_double_eval[where k = 7]) (simp_all add: round_even_def)

lemma time_value_1: "dadd (0) (5764607523034235 / 576460752303423488) = 5764607523034235 / 576460752303423488"
  unfolding dadd_def
  by (subst round_double_eval[where k = 7]) (simp_all add: round_even_def)

lemma time_value_2: "dadd (5764607523034235 / 576460752303423488) (5764607523034235 / 576460752303423488) = 5764607523034235 / 288230376151711744"
  unfolding dadd_def
  by (subst round_double_eval[where k = 6]) (simp_all add: round_even_def)

lemma time_after_0: "time_after 0 s = time_sim s"
  by (simp add: time_after_def)

lemma time_after_Suc:
  "time_after (Suc n) s = dadd (time_after n s) (dmul TIME_MSEC_TO_SEC (getRate s))"
  by (simp add: time_after_def)

lemma time_after_step:
  assumes "time_sim s1 = dadd (time_sim s) (dmul TIME_MSEC_TO_SEC (getRate s))"
      and "getRate s1 = getRate s"
  shows "time_after n s1 = time_after (Suc n) s"
proof -
  let ?f = "\<lambda>t. dadd t (dmul TIME_MSEC_TO_SEC (getRate s))"
  have "(?f ^^ Suc n) (time_sim s) = (?f ^^ n) (?f (time_sim s))"
    by (simp only: funpow_Suc_right o_apply)
  then show ?thesis by (simp only: time_after_def assms)
qed

lemma time_after_cong:
  assumes "time_sim s1 = time_sim s" and "getRate s1 = getRate s"
  shows "time_after n s1 = time_after n s"
  using assms by (simp add: time_after_def)

subsection \<open>What a step writes\<close>

lemmas example_defs = robot2_def xml_options_def floating_xml_options_def floating_options_def
  debug_floating_options_def init2_def step2_def moving2_def stabilization_set_def release2_def
  timing_out2_def loaded2_def refused2_def
  OcraControllerOptions_default_def

lemmas init_defs = OcraControllerServerThread_def threadInit_def open_rpc_and_estimate_def load_sequence_def
  load_xml_task_set_def default_tasks_def init_sequence_def set_control_mode_def
  addTaskManagersToSequence_def empty_sequence_def say_def call_def

lemmas run_defs = run_def update_model_def update_tasks_def debug_new_joint_def
  threshold_torques_def send_torques_def array_max_def array_min_def coeff_def getRate_def
  increment_value time_value_1 time_value_2 say_def call_def

lemmas release_defs = clearSequence_def loadStabilizationTasks_def isRobotStable_def
  ZERO_VELOCITY_THRESHOLD_def STABILIZATION_TIMEOUT_def retarget_def
  retarget_stabilization_tasks_def stabilize_step_def stabilizeRobot_def release_stabilize_def
  release_position_mode_def threadRelease_def vnorm_def fmod_def addTaskManagersToSequence_def

lemma threshold_torques_Inr:
  assumes "threshold_torques s = Inr s'"
  shows "length (torques s) = length (minTorques s) \<and> length (minTorques s) = length (maxTorques s)
         \<and> s' = s\<lparr>torques := map2 min (map2 max (torques s) (minTorques s)) (maxTorques s)\<rparr>"
  using assms by (auto simp: threshold_torques_def array_max_def array_min_def split: if_splits)

lemma send_torques_Inr:
  assumes "send_torques s = Inr s'"
  shows "if runInDebugMode (ctrlOptions s)
         then 0 \<le> debugJointIndex s \<and> nat (debugJointIndex s) < length (torques s)
              \<and> s' = call (SetControlReference [torques s ! nat (debugJointIndex s)] (Joint (debugJointIndex s))) s
         else s' = call (SetControlReference (torques s) ALL_JOINTS) s"
  using assms by (auto simp: send_torques_def coeff_def split: if_splits)

lemma update_model_kept: "kept_by_run (update_model inp s) = kept_by_run s"
  by (auto simp: kept_by_run_def update_model_def say_def split: option.splits)

lemma debug_new_joint_kept:
  assumes "debug_new_joint inp s = Inr s'"
  shows "kept_by_run s' = kept_by_run s \<and> taskSequence s' = taskSequence s \<and> time_sim s' = time_sim s"
  using assms
  by (auto simp: kept_by_run_def debug_new_joint_def say_def call_def Let_def
           split: option.splits if_splits sum.splits)

lemma update_tasks_kept:
  assumes "update_tasks inp s = Inr s'"
  shows "kept_by_run s' = kept_by_run s \<and> time_sim s' = time_sim s"
  using assms debug_new_joint_kept[of inp s s']
  by (auto simp: kept_by_run_def update_tasks_def split: option.splits if_splits)

lemma update_tasks_sequence:
  assumes "update_tasks inp s = Inr s'"
  shows "taskSequence s' =
           (if runInDebugMode (ctrlOptions s) \<or> isStabilizing s then taskSequence s
            else map_option (\<lambda>ts. ts\<lparr>updateCalls := updateCalls ts @ [time_sim s]\<rparr>) (taskSequence s))"
  using assms debug_new_joint_kept[of inp s s']
  by (auto simp: update_tasks_def split: option.splits if_splits)

lemma run_Inr:
  assumes "run inp s = Inr s'"
  obtains s1 s2 s3 where
    "update_tasks inp (update_model inp s) = Inr s1"
    "threshold_torques (s1\<lparr>torques := computeOutput inp\<rparr>) = Inr s2"
    "send_torques s2 = Inr s3"
    "s' = s3\<lparr>time_sim := dadd (time_sim s3) (dmul TIME_MSEC_TO_SEC (getRate s3))\<rparr>"
  using assms by (auto simp: run_def split: sum.splits)

lemma run_kept:
  assumes "run inp s = Inr s'"
  shows "kept_by_run s' = kept_by_run s"
proof -
  from assms obtain s1 s2 s3 where
    s1: "update_tasks inp (update_model inp s) = Inr s1" and
    s2: "threshold_torques (s1\<lparr>torques := computeOutput inp\<rparr>) = Inr s2" and
    s3: "send_torques s2 = Inr s3" and
    s': "s' = s3\<lparr>time_sim := dadd (time_sim s3) (dmul TIME_MSEC_TO_SEC (getRate s3))\<rparr>"
    by (rule run_Inr)
  have "kept_by_run s1 = kept_by_run s"
    using update_tasks_kept[OF s1] update_model_kept by simp
  moreover have "kept_by_run s2 = kept_by_run s1"
    using threshold_torques_Inr[OF s2] by (auto simp: kept_by_run_def)
  moreover have "kept_by_run s3 = kept_by_run s2"
    using send_torques_Inr[OF s3] by (auto simp: kept_by_run_def call_def split: if_splits)
  moreover have "kept_by_run s' = kept_by_run s3"
    using s' by (simp add: kept_by_run_def)
  ultimately show ?thesis by simp
qed

lemma run_time_sim:
  assumes "run inp s = Inr s'"
  shows "time_sim s' = dadd (time_sim s) (dmul TIME_MSEC_TO_SEC (getRate s))"
proof -
  from assms obtain s1 s2 s3 where
    s1: "update_tasks inp (update_model inp s) = Inr s1" and
    s2: "threshold_torques (s1\<lparr>torques := computeOutput inp\<rparr>) = Inr s2" and
    s3: "send_torques s2 = Inr s3" and
    s': "s' = s3\<lparr>time_sim := dadd (time_sim s3) (dmul TIME_MSEC_TO_SEC (getRate s3))\<rparr>"
    by (rule run_Inr)
  have a: "time_sim s1 = time_sim s" "ctrlOptions s1 = ctrlOptions s"
    using update_tasks_kept[OF s1] update_model_kept[of inp s]
    by (auto simp: kept_by_run_def update_model_def say_def split: option.splits)
  have b: "time_sim s2 = time_sim s1" "ctrlOptions s2 = ctrlOptions s1"
    using threshold_torques_Inr[OF s2] by auto
  have c: "time_sim s3 = time_sim s2" "ctrlOptions s3 = ctrlOptions s2"
    using send_torques_Inr[OF s3] by (auto simp: call_def split: if_splits)
  show ?thesis using a b c s' by (simp add: getRate_def)
qed

lemma run_sequence:
  assumes "run inp s = Inr s'"
  shows "taskSequence s' =
           (if runInDebugMode (ctrlOptions s) \<or> isStabilizing s then taskSequence s
            else map_option (\<lambda>ts. ts\<lparr>updateCalls := updateCalls ts @ [time_sim s]\<rparr>) (taskSequence s))"
proof -
  from assms obtain s1 s2 s3 where
    s1: "update_tasks inp (update_model inp s) = Inr s1" and
    s2: "threshold_torques (s1\<lparr>torques := computeOutput inp\<rparr>) = Inr s2" and
    s3: "send_torques s2 = Inr s3" and
    s': "s' = s3\<lparr>time_sim := dadd (time_sim s3) (dmul TIME_MSEC_TO_SEC (getRate s3))\<rparr>"
    by (rule run_Inr)
  have m: "taskSequence (update_model inp s) = taskSequence s"
          "ctrlOptions (update_model inp s) = ctrlOptions s"
          "isStabilizing (update_model inp s) = isStabilizing s"
          "time_sim (update_model inp s) = time_sim s"
    by (auto simp: update_model_def say_def split: option.splits)
  have b: "taskSequence s2 = taskSequence s1"
    using threshold_torques_Inr[OF s2] by auto
  have c: "taskSequence s3 = taskSequence s2"
    using send_torques_Inr[OF s3] by (auto simp: call_def split: if_splits)
  show ?thesis using update_tasks_sequence[OF s1] m b c s' by simp
qed

lemma started2_eq:
  "started2 =
     \<lparr>ctrlOptions = xml_options, isStabilizing = False, controllerStatus = CONTROLLER_RUNNING,
      taskSequence = Some \<lparr>taskManagers = [(''fullPosture'', FullPostureTaskManager [0, 0])],
                           initCalls = 1, updateCalls = []\<rparr>,
      getDoFs = 2, hasFixedRoot = True, jointVelocities = [0, 0], homePosture = [0, 0],
      debugPosture = [0, 0], initialPosture = [1, 2], torques = [0, 0], measuredTorques = [0, 0],
      refSpeed = [10, 10], minTorques = [- 24, - 24], maxTorques = [24, 24],
      initialCoMPosition = [0, 0, 1], initialTorsoPosition = [0, 0, 2], debugJointIndex = 0,
      time_sim = 0, openPorts = [''/OCRA/Controller/rpc:i''],
      wbiCalls = [SetControlMode CTRL_MODE_TORQUE ALL_JOINTS],
      cout = [Str ''=== Creating wocraController ==='', Str ''Loading tasks from XML file:'',
              Str ''tasks.xml'']\<rparr>"
  by (simp add: started2_def example_defs init_defs numeral_2_eq_2)

lemma run_step2_started2:
  "run step2 started2 =
     Inr (started2\<lparr>taskSequence := Some \<lparr>taskManagers = [(''fullPosture'', FullPostureTaskManager [0, 0])],
                                         initCalls = 1, updateCalls = [0]\<rparr>,
                   torques := [24, - 24], time_sim := 5764607523034235 / 576460752303423488,
                   wbiCalls := [SetControlMode CTRL_MODE_TORQUE ALL_JOINTS,
                                SetControlReference [24, - 24] ALL_JOINTS]\<rparr>)"
  by (simp add: started2_eq run_defs step2_def xml_options_def OcraControllerOptions_default_def)

subsection \<open>The stabilization loop\<close>

lemma stabilize_step_run:
  assumes "stabilize_step inp t s = Inr (again, s')"
  shows "\<exists>s1. run inp s = Inr s1 \<and> s' = s1\<lparr>cout := cout s'\<rparr>
           \<and> again = (\<not> isRobotStable s1 \<and> t < STABILIZATION_TIMEOUT)"
  using assms
  by (auto simp: stabilize_step_def Let_def say_def isRobotStable_def split: sum.splits if_splits)

lemma stabilize_step_kept:
  assumes "stabilize_step inp t s = Inr (again, s')"
  shows "kept_by_run s' = kept_by_run s"
    and "time_sim s' = dadd (time_sim s) (dmul TIME_MSEC_TO_SEC (getRate s))"
    and "taskSequence s' =
           (if runInDebugMode (ctrlOptions s) \<or> isStabilizing s then taskSequence s
            else map_option (\<lambda>ts. ts\<lparr>updateCalls := updateCalls ts @ [time_sim s]\<rparr>) (taskSequence s))"
    and "isRobotStable s' \<or> \<not> t < STABILIZATION_TIMEOUT \<or> again"
    and "again \<longrightarrow> t < STABILIZATION_TIMEOUT"
proof -
  from stabilize_step_run[OF assms] obtain s1 where
    r: "run inp s = Inr s1" and e: "s' = s1\<lparr>cout := cout s'\<rparr>"
    and a: "again = (\<not> isRobotStable s1 \<and> t < STABILIZATION_TIMEOUT)" by blast
  have k: "kept_by_run s' = kept_by_run s1" "time_sim s' = time_sim s1" "taskSequence s' = taskSequence s1"
    "jointVelocities s' = jointVelocities s1"
    by (subst e, simp add: kept_by_run_def)+
  show "kept_by_run s' = kept_by_run s" using k run_kept[OF r] by simp
  show "time_sim s' = dadd (time_sim s) (dmul TIME_MSEC_TO_SEC (getRate s))" using k run_time_sim[OF r] by simp
  show "taskSequence s' =
           (if runInDebugMode (ctrlOptions s) \<or> isStabilizing s then taskSequence s
            else map_option (\<lambda>ts. ts\<lparr>updateCalls := updateCalls ts @ [time_sim s]\<rparr>) (taskSequence s))"
    using k run_sequence[OF r] by simp
  show "isRobotStable s' \<or> \<not> t < STABILIZATION_TIMEOUT \<or> again"
    using a k by (auto simp: isRobotStable_def)
  show "again \<longrightarrow> t < STABILIZATION_TIMEOUT" using a by simp
qed

lemma stabilize_loop_invariant:
  assumes "stabilize_loop stps now t0 k s = Some (Inr s')"
      and "P s"
      and step: "\<And>inp t s again s'. P s \<Longrightarrow> stabilize_step inp t s = Inr (again, s') \<Longrightarrow> P s'"
  shows "P s'"
proof -
  have "\<forall>s'. y = Inr s' \<longrightarrow> P s \<longrightarrow> P s'" if "stabilize_loop stps now t0 k s = Some y" for y
    by (rule stabilize_loop.raw_induct
          [where P = "\<lambda>stps now t0 k s y. \<forall>s'. y = Inr s' \<longrightarrow> P s \<longrightarrow> P s'", OF _ that])
       (auto split: sum.splits prod.splits if_splits dest: step)
  with assms show ?thesis by blast
qed

lemma stabilize_loop_terminates:
  assumes "STABILIZATION_TIMEOUT \<le> now (Suc n) - t0" and "k \<le> n"
  shows "\<exists>r. stabilize_loop stps now t0 k s = Some r"
  using assms(2)
proof (induction "n - k" arbitrary: k s)
  case 0
  then have k: "k = n" by simp
  show ?case
    using assms(1) k
    by (subst stabilize_loop.simps)
       (auto split: sum.splits prod.splits dest!: stabilize_step_run)
next
  case (Suc d)
  then have "d = n - Suc k" "Suc k \<le> n" by simp_all
  from Suc(1)[OF this] show ?case
    by (subst stabilize_loop.simps) (auto split: sum.splits prod.splits)
qed

lemma stabilize_loop_kept:
  assumes "stabilize_loop stps now t0 k s = Some (Inr s')"
  shows "kept_by_run s' = kept_by_run s"
  by (rule stabilize_loop_invariant[OF assms, where P = "\<lambda>x. kept_by_run x = kept_by_run s"])
     (simp_all add: stabilize_step_kept(1))

lemma stabilize_loop_sequence:
  assumes "stabilize_loop stps now t0 k s = Some (Inr s')" and "isStabilizing s"
  shows "taskSequence s' = taskSequence s"
proof -
  have "isStabilizing s' \<and> taskSequence s' = taskSequence s"
  proof (rule stabilize_loop_invariant[OF assms(1),
          where P = "\<lambda>x. isStabilizing x \<and> taskSequence x = taskSequence s"])
    show "isStabilizing s \<and> taskSequence s = taskSequence s" using assms(2) by simp
  next
    fix inp t x again x'
    assume p: "isStabilizing x \<and> taskSequence x = taskSequence s"
      and st: "stabilize_step inp t x = Inr (again, x')"
    have "isStabilizing x' = isStabilizing x"
      using stabilize_step_kept(1)[OF st] by (simp add: kept_by_run_def)
    then show "isStabilizing x' \<and> taskSequence x' = taskSequence s"
      using p stabilize_step_kept(3)[OF st] by simp
  qed
  then show ?thesis by simp
qed

text \<open>The exit of the loop: at least one step was made, the exit condition holds, and no earlier reading of the clock had reached the timeout.\<close>

lemma stabilize_loop_exit:
  assumes "stabilize_loop stps now t0 k s = Some (Inr s')"
  shows "\<exists>n\<ge>k. time_sim s' = time_after (Suc n - k) s \<and>
               (isRobotStable s' \<or> STABILIZATION_TIMEOUT \<le> now (Suc n) - t0) \<and>
               (\<forall>j. k \<le> j \<and> j < n \<longrightarrow> now (Suc j) - t0 < STABILIZATION_TIMEOUT)"
proof -
  let ?Q = "\<lambda>(stps :: nat \<Rightarrow> step_input) (now :: nat \<Rightarrow> real) (t0 :: real) (k :: nat) (s :: thread) (y :: error + thread). \<forall>s'. y = Inr s' \<longrightarrow>
     (\<exists>n\<ge>k. time_sim s' = time_after (Suc n - k) s \<and>
               (isRobotStable s' \<or> STABILIZATION_TIMEOUT \<le> now (Suc n) - t0) \<and>
               (\<forall>j. k \<le> j \<and> j < n \<longrightarrow> now (Suc j) - t0 < STABILIZATION_TIMEOUT))"
  have "?Q stps now t0 k s (Inr s')"
  proof (rule stabilize_loop.raw_induct[where P = ?Q, OF _ assms])
    fix loop stps now t0 k s y
    assume IH: "\<And>stps now t0 k s y. loop stps now t0 k s = Some y \<Longrightarrow> ?Q stps now t0 k s y"
      and body: "(case stabilize_step (stps k) (now (Suc k) - t0) s of
                    Inl e \<Rightarrow> Some (Inl e)
                  | Inr (again, s') \<Rightarrow> if again then loop stps now t0 (Suc k) s' else Some (Inr s')) = Some y"
    show "?Q stps now t0 k s y"
    proof (intro allI impI)
      fix s' assume y: "y = Inr s'"
      from body y obtain again s1 where
        st: "stabilize_step (stps k) (now (Suc k) - t0) s = Inr (again, s1)"
        by (auto split: sum.splits prod.splits)
      note kp = stabilize_step_kept[OF st]
      have rate: "getRate s1 = getRate s"
        using kp(1) by (simp add: kept_by_run_def getRate_def)
      show "\<exists>n\<ge>k. time_sim s' = time_after (Suc n - k) s \<and>
               (isRobotStable s' \<or> STABILIZATION_TIMEOUT \<le> now (Suc n) - t0) \<and>
               (\<forall>j. k \<le> j \<and> j < n \<longrightarrow> now (Suc j) - t0 < STABILIZATION_TIMEOUT)"
      proof (cases again)
        case False
        then have "s' = s1" using body y st by simp
        then show ?thesis
          using kp(2) kp(4) False by (intro exI[of _ k]) (auto simp: time_after_Suc time_after_0)
      next
        case True
        then have "loop stps now t0 (Suc k) s1 = Some (Inr s')" using body y st by simp
        from IH[OF this] obtain n where n: "Suc k \<le> n"
          "time_sim s' = time_after (Suc n - Suc k) s1"
          "isRobotStable s' \<or> STABILIZATION_TIMEOUT \<le> now (Suc n) - t0"
          "\<forall>j. Suc k \<le> j \<and> j < n \<longrightarrow> now (Suc j) - t0 < STABILIZATION_TIMEOUT"
          by blast
        have t: "now (Suc k) - t0 < STABILIZATION_TIMEOUT" using kp(5) True by simp
        have e: "Suc n - k = Suc (Suc n - Suc k)" using n(1) by simp
        have "time_sim s' = time_after (Suc n - k) s"
          using n(2) time_after_step[OF kp(2) rate, of "Suc n - Suc k"] by (simp only: e)
        moreover have "\<forall>j. k \<le> j \<and> j < n \<longrightarrow> now (Suc j) - t0 < STABILIZATION_TIMEOUT"
          using n(4) t by (metis Suc_leI le_neq_implies_less)
        ultimately show ?thesis using n(1) n(3) by (intro exI[of _ n]) auto
      qed
    qed
  qed
  then show ?thesis by simp
qed


subsection \<open>Initialisation\<close>

lemma load_sequence_kept:
  assumes "load_sequence inp s = Inr (r, s')"
  shows "ctrlOptions s' = ctrlOptions s \<and> isStabilizing s' = isStabilizing s \<and>
         controllerStatus s' = controllerStatus s \<and> time_sim s' = time_sim s \<and>
         minTorques s' = minTorques s \<and> maxTorques s' = maxTorques s \<and>
         hasFixedRoot s' = hasFixedRoot s \<and> getDoFs s' = getDoFs s \<and> wbiCalls s' = wbiCalls s"
  using assms
  by (auto simp: load_sequence_def load_xml_task_set_def default_tasks_def
        addTaskManagersToSequence_def say_def Let_def
      split: if_splits option.splits sum.splits prod.splits)

lemma init_sequence_kept:
  assumes "init_sequence s = Inr s'"
  shows "ctrlOptions s' = ctrlOptions s \<and> isStabilizing s' = isStabilizing s \<and>
         controllerStatus s' = controllerStatus s \<and> time_sim s' = time_sim s \<and>
         minTorques s' = minTorques s \<and> maxTorques s' = maxTorques s \<and>
         hasFixedRoot s' = hasFixedRoot s \<and> getDoFs s' = getDoFs s \<and> wbiCalls s' = wbiCalls s"
  using assms by (auto simp: init_sequence_def split: option.splits)

lemma set_control_mode_kept:
  "ctrlOptions (set_control_mode s) = ctrlOptions s \<and> isStabilizing (set_control_mode s) = isStabilizing s \<and>
   controllerStatus (set_control_mode s) = controllerStatus s \<and> time_sim (set_control_mode s) = time_sim s \<and>
   minTorques (set_control_mode s) = minTorques s \<and> maxTorques (set_control_mode s) = maxTorques s \<and>
   hasFixedRoot (set_control_mode s) = hasFixedRoot s \<and> getDoFs (set_control_mode s) = getDoFs s"
  by (simp add: set_control_mode_def call_def)

lemma threadInit_Inr:
  assumes "threadInit inp s = Inr (r, s')"
  obtains s6 where "load_sequence inp (open_rpc_and_estimate inp s) = Inr (False, s6)" "r = False" "s' = s6"
  | s6 s7 where "load_sequence inp (open_rpc_and_estimate inp s) = Inr (True, s6)" "init_sequence s6 = Inr s7"
      "r = True" "s' = (set_control_mode s7)\<lparr>controllerStatus := CONTROLLER_RUNNING\<rparr>"
  using assms unfolding threadInit_def open_rpc_and_estimate_def Let_def
  by (auto split: sum.splits prod.splits bool.splits)

lemma open_rpc_and_estimate_kept:
  "ctrlOptions (open_rpc_and_estimate inp s) = ctrlOptions s \<and> isStabilizing (open_rpc_and_estimate inp s) = isStabilizing s \<and>
   controllerStatus (open_rpc_and_estimate inp s) = controllerStatus s \<and> time_sim (open_rpc_and_estimate inp s) = time_sim s \<and>
   minTorques (open_rpc_and_estimate inp s) = minTorques s \<and> maxTorques (open_rpc_and_estimate inp s) = maxTorques s \<and>
   hasFixedRoot (open_rpc_and_estimate inp s) = hasFixedRoot s \<and> getDoFs (open_rpc_and_estimate inp s) = getDoFs s \<and>
   wbiCalls (open_rpc_and_estimate inp s) = wbiCalls s"
  by (simp add: open_rpc_and_estimate_def say_def Let_def)

lemma threadInit_kept:
  assumes "threadInit inp s = Inr (r, s')"
  shows "ctrlOptions s' = ctrlOptions s \<and> isStabilizing s' = isStabilizing s \<and>
         time_sim s' = time_sim s \<and>
         minTorques s' = minTorques s \<and> maxTorques s' = maxTorques s \<and>
         hasFixedRoot s' = hasFixedRoot s \<and> getDoFs s' = getDoFs s \<and>
         controllerStatus s' = (if r then CONTROLLER_RUNNING else controllerStatus s)"
  using assms
proof (cases rule: threadInit_Inr)
  case (1 s6)
  then show ?thesis
    using load_sequence_kept[OF 1(1)] open_rpc_and_estimate_kept[of inp s] by simp
next
  case (2 s6 s7)
  then show ?thesis
    using load_sequence_kept[OF 2(1)] init_sequence_kept[OF 2(2)] set_control_mode_kept[of s7]
      open_rpc_and_estimate_kept[of inp s] by simp
qed


lemma steps_time_sim:
  assumes "steps inps s = Inr s'"
  shows "time_sim s' = time_after (length inps) s \<and>
         ctrlOptions s' = ctrlOptions s"
  using assms
proof (induction inps arbitrary: s)
  case Nil
  then show ?case by (simp add: time_after_0)
next
  case (Cons inp inps)
  then obtain s1 where r: "run inp s = Inr s1" and rest: "steps inps s1 = Inr s'"
    by (auto split: sum.splits)
  have o: "ctrlOptions s1 = ctrlOptions s"
    using run_kept[OF r] by (simp add: kept_by_run_def)
  then have g: "getRate s1 = getRate s" by (simp add: getRate_def)
  from Cons.IH[OF rest] time_after_step[OF run_time_sim[OF r] g, of "length inps"] o show ?case
    by simp
qed

lemma threadInit_started2:
  "threadInit init2 (OcraControllerServerThread xml_options robot2) = Inr (True, started2)"
  by (simp add: started2_def example_defs init_defs)

subsection \<open>The simulated time\<close>

lemma time_value_3: "dadd (5764607523034235 / 288230376151711744) (5764607523034235 / 576460752303423488) = 1080863910568919 / 36028797018963968"
  unfolding dadd_def
  by (subst round_double_eval[where k = 6]) (simp_all add: round_even_def)

lemma time_value_4: "dadd (1080863910568919 / 36028797018963968) (5764607523034235 / 576460752303423488) = 5764607523034235 / 144115188075855872"
  unfolding dadd_def
  by (subst round_double_eval[where k = 5]) (simp_all add: round_even_def)

lemma time_value_5: "dadd (5764607523034235 / 144115188075855872) (5764607523034235 / 576460752303423488) = 3602879701896397 / 72057594037927936"
  unfolding dadd_def
  by (subst round_double_eval[where k = 5]) (simp_all add: round_even_def)

lemma time_value_6: "dadd (3602879701896397 / 72057594037927936) (5764607523034235 / 576460752303423488) = 8646911284551353 / 144115188075855872"
  unfolding dadd_def
  by (subst round_double_eval[where k = 5]) (simp_all add: round_even_def)

lemmas time_values = time_value_3 time_value_4 time_value_5 time_value_6

lemma steps5_started2:
  "steps [step2, step2, step2, step2, step2] started2 = Inr (projr (steps [step2, step2, step2, step2, step2] started2))"
  by (simp add: started2_eq run_defs time_values step2_def xml_options_def OcraControllerOptions_default_def)

lemma steps6_started2:
  "steps [step2, step2, step2, step2, step2, step2] started2 = Inr (projr (steps [step2, step2, step2, step2, step2, step2] started2))"
  by (simp add: started2_eq run_defs time_values step2_def xml_options_def OcraControllerOptions_default_def)

lemma run_step2_steps5:
  "run step2 (projr (steps [step2, step2, step2, step2, step2] started2)) = Inr (projr (steps [step2, step2, step2, step2, step2, step2] started2))"
  by (simp add: started2_eq run_defs time_values step2_def xml_options_def OcraControllerOptions_default_def)

lemma time_sim_steps5:
  "time_sim (projr (steps [step2, step2, step2, step2, step2] started2)) = 3602879701896397 / 72057594037927936"
  by (simp add: started2_eq run_defs time_values step2_def xml_options_def OcraControllerOptions_default_def)

lemma time_sim_steps6:
  "time_sim (projr (steps [step2, step2, step2, step2, step2, step2] started2)) = 8646911284551353 / 144115188075855872"
  by (simp add: started2_eq run_defs time_values step2_def xml_options_def OcraControllerOptions_default_def)

lemma round_even_error: "\<bar>of_int (round_even q) - q\<bar> \<le> 1 / 2"
proof -
  have f: "of_int \<lfloor>q\<rfloor> \<le> q" "q < of_int \<lfloor>q\<rfloor> + 1" by linarith+
  consider "q - of_int \<lfloor>q\<rfloor> < 1 / 2" | "1 / 2 < q - of_int \<lfloor>q\<rfloor>" | "q - of_int \<lfloor>q\<rfloor> = 1 / 2"
    by linarith
  then show ?thesis
  proof cases
    case 1
    then have "round_even q = \<lfloor>q\<rfloor>" by (simp add: round_even_def)
    then show ?thesis using 1 f by simp
  next
    case 2
    then have "round_even q = \<lfloor>q\<rfloor> + 1" by (simp add: round_even_def Let_def)
    then show ?thesis using 2 f by simp
  next
    case 3
    then have "round_even q = \<lfloor>q\<rfloor> \<or> round_even q = \<lfloor>q\<rfloor> + 1" by (simp add: round_even_def Let_def)
    then show ?thesis using 3 by auto
  qed
qed

text \<open>Rounding moves a number by at most half a unit in its last place.\<close>

lemma round_double_error: "\<bar>round_double x - x\<bar> \<le> 2 powr of_int (ulp_exponent x) / 2"
proof (cases "x = 0")
  case True
  then show ?thesis by (simp add: round_double_def)
next
  case False
  let ?u = "2 powr of_int (ulp_exponent x) :: real"
  have u: "0 < ?u" by simp
  have "round_double x - x = (of_int (round_even (x / ?u)) - x / ?u) * ?u"
    using False by (simp add: round_double_def algebra_simps)
  then have "\<bar>round_double x - x\<bar> = \<bar>of_int (round_even (x / ?u)) - x / ?u\<bar> * ?u"
    by (simp add: abs_mult)
  also have "\<dots> \<le> 1 / 2 * ?u"
    using round_even_error[of "x / ?u"] by (intro mult_right_mono) simp_all
  finally show ?thesis by simp
qed

lemma increment_nonneg: "0 \<le> p \<Longrightarrow> 0 \<le> dmul TIME_MSEC_TO_SEC p"
  unfolding dmul_def TIME_MSEC_TO_SEC_def
  by (intro round_double_nonneg mult_nonneg_nonneg) simp_all

lemma time_after_double:
  assumes "0 \<le> getRate s" and "time_sim s = 0"
  shows "0 \<le> time_after n s \<and> (\<exists>a. time_after n s = round_double a)"
proof (induction n)
  case 0
  have "round_double 0 = 0" by (simp add: round_double_def)
  then show ?case using assms(2) by (metis order_refl time_after_0)
next
  case (Suc n)
  have "0 \<le> time_after n s + dmul TIME_MSEC_TO_SEC (getRate s)"
    using Suc increment_nonneg[OF assms(1)] by simp
  then have "0 \<le> time_after (Suc n) s"
    unfolding time_after_Suc dadd_def by (rule round_double_nonneg)
  then show ?case unfolding time_after_Suc dadd_def by blast
qed

text \<open>
  Claim C2, as stated, fails. With the period of 10 ms, after \<^verbatim>\<open>threadInit\<close> has returned
  true and \<^verbatim>\<open>run\<close> was called six times, the simulated time is
  0.060000000000000005 (the double \<open>8646911284551353 / 2 ^ 57\<close>): it is not
  \<open>6 * (10 / 1000)\<close>, and it is not the double nearest to that number either, which is
  \<open>1080863910568919 / 2 ^ 54\<close>.
\<close>

theorem simulated_time_is_rounded:
  "0 < threadPeriod xml_options \<and>
   threadInit init2 (OcraControllerServerThread xml_options robot2) = Inr (True, started2) \<and>
   steps [step2, step2, step2, step2, step2, step2] started2 = Inr (projr (steps [step2, step2, step2, step2, step2, step2] started2)) \<and>
   time_sim (projr (steps [step2, step2, step2, step2, step2, step2] started2)) = 8646911284551353 / 144115188075855872 \<and>
   time_sim (projr (steps [step2, step2, step2, step2, step2, step2] started2))
     \<noteq> real (length [step2, step2, step2, step2, step2, step2]) * (real_of_int (threadPeriod xml_options) / 1000) \<and>
   time_sim (projr (steps [step2, step2, step2, step2, step2, step2] started2))
     \<noteq> round_double (real (length [step2, step2, step2, step2, step2, step2]) * (real_of_int (threadPeriod xml_options) / 1000))"
proof -
  have p: "0 < threadPeriod xml_options" "threadPeriod xml_options = 10"
    by (simp_all add: xml_options_def OcraControllerOptions_default_def)
  have n: "round_double (real (length [step2, step2, step2, step2, step2, step2]) * (real_of_int (threadPeriod xml_options) / 1000))
             = 1080863910568919 / 18014398509481984"
    by (subst round_double_eval[where k = 5]) (simp_all add: p(2) round_even_def)
  have a: "time_sim (projr (steps [step2, step2, step2, step2, step2, step2] started2))
             \<noteq> real (length [step2, step2, step2, step2, step2, step2]) * (real_of_int (threadPeriod xml_options) / 1000)"
    unfolding time_sim_steps6 p(2) by simp
  have b: "time_sim (projr (steps [step2, step2, step2, step2, step2, step2] started2))
             \<noteq> round_double (real (length [step2, step2, step2, step2, step2, step2]) * (real_of_int (threadPeriod xml_options) / 1000))"
    unfolding time_sim_steps6 n by simp
  show ?thesis
    by (intro conjI)
       (fact p(1), fact threadInit_started2, fact steps6_started2, fact time_sim_steps6, fact a, fact b)
qed

text \<open>
  Claim C2, amended. For a period \<open>P > 0\<close> (in milliseconds): when \<^verbatim>\<open>threadInit\<close> has
  returned true on the constructed thread, the simulated time is 0; every call of
  \<^verbatim>\<open>run\<close> replaces it by the double sum of the time and of the double product
  \<^verbatim>\<open>TIME_MSEC_TO_SEC * P\<close>, so that after \<open>N\<close> calls it is that increment accumulated
  \<open>N\<close> times from 0, each sum rounded to the nearest double (not, in general, the number
  \<open>N * P / 1000\<close>): the sum of a step is within half a unit in the last place of the exact
  sum, and the time never decreases. No input of \<^verbatim>\<open>run\<close> is a clock reading.
\<close>

theorem simulated_time_accumulates:
  assumes period: "0 < threadPeriod opts"
      and init: "threadInit ii (OcraControllerServerThread opts c) = Inr (True, s0)"
      and run: "steps inps s0 = Inr s"
  shows "time_sim s0 = 0 \<and>
         time_sim s = ((\<lambda>t. dadd t (dmul TIME_MSEC_TO_SEC (real_of_int (threadPeriod opts)))) ^^ length inps) 0 \<and>
         (\<forall>inp s'. run inp s = Inr s' \<longrightarrow>
            time_sim s' = dadd (time_sim s) (dmul TIME_MSEC_TO_SEC (real_of_int (threadPeriod opts))) \<and>
            \<bar>time_sim s' - (time_sim s + dmul TIME_MSEC_TO_SEC (real_of_int (threadPeriod opts)))\<bar>
              \<le> 2 powr of_int (ulp_exponent (time_sim s + dmul TIME_MSEC_TO_SEC (real_of_int (threadPeriod opts)))) / 2 \<and>
            time_sim s \<le> time_sim s')"
proof -
  let ?d = "dmul TIME_MSEC_TO_SEC (real_of_int (threadPeriod opts))"
  have i: "time_sim s0 = 0" "ctrlOptions s0 = opts"
    using threadInit_kept[OF init] by (simp_all add: OcraControllerServerThread_def)
  have r: "getRate s0 = real_of_int (threadPeriod opts)"
    using i by (simp add: getRate_def)
  have t: "time_sim s = time_after (length inps) s0" "ctrlOptions s = opts"
    using steps_time_sim[OF run] i by simp_all
  have t': "time_sim s = ((\<lambda>t. dadd t ?d) ^^ length inps) 0"
    using t(1) by (simp add: time_after_def i(1) r)
  have d: "0 \<le> ?d" using period by (intro increment_nonneg) simp
  have "0 \<le> getRate s0" using r period by simp
  from time_after_double[OF this i(1), of "length inps"] obtain a where
    a: "0 \<le> time_sim s" "time_sim s = round_double a"
    using t(1) by auto
  have n: "time_sim s' = dadd (time_sim s) ?d \<and>
           \<bar>time_sim s' - (time_sim s + ?d)\<bar> \<le> 2 powr of_int (ulp_exponent (time_sim s + ?d)) / 2 \<and>
           time_sim s \<le> time_sim s'"
    if "run inp s = Inr s'" for inp s'
  proof -
    have e: "time_sim s' = dadd (time_sim s) ?d"
      using run_time_sim[OF that] t(2) by (simp add: getRate_def)
    have "time_sim s \<le> round_double (time_sim s + ?d)"
      using a d by (intro round_double_mono_double[of _ a]) simp_all
    then show ?thesis
      using e round_double_error[of "time_sim s + ?d"] by (simp add: dadd_def)
  qed
  from i(1) t' n show ?thesis by blast
qed

theorem simulated_time_accumulates_witness:
  "0 < threadPeriod xml_options \<and>
   threadInit init2 (OcraControllerServerThread xml_options robot2) = Inr (True, started2) \<and>
   steps [step2, step2, step2, step2, step2] started2 = Inr (projr (steps [step2, step2, step2, step2, step2] started2)) \<and>
   time_sim started2 = 0 \<and>
   time_sim (projr (steps [step2, step2, step2, step2, step2] started2)) = 3602879701896397 / 72057594037927936 \<and>
   run step2 (projr (steps [step2, step2, step2, step2, step2] started2)) = Inr (projr (steps [step2, step2, step2, step2, step2, step2] started2)) \<and>
   time_sim (projr (steps [step2, step2, step2, step2, step2, step2] started2)) = 8646911284551353 / 144115188075855872 \<and>
   time_sim (projr (steps [step2, step2, step2, step2, step2] started2)) \<le> time_sim (projr (steps [step2, step2, step2, step2, step2, step2] started2))"
proof -
  have p: "0 < threadPeriod xml_options"
    by (simp add: xml_options_def OcraControllerOptions_default_def)
  note T = simulated_time_accumulates[OF p threadInit_started2 steps5_started2]
  have z: "time_sim started2 = 0" using T by blast
  have m: "time_sim (projr (steps [step2, step2, step2, step2, step2] started2)) \<le> time_sim (projr (steps [step2, step2, step2, step2, step2, step2] started2))"
    using T[THEN conjunct2, THEN conjunct2, rule_format, OF run_step2_steps5] by blast
  show ?thesis
    by (intro conjI)
       (fact p, fact threadInit_started2, fact steps5_started2, fact z, fact time_sim_steps5,
        fact run_step2_steps5, fact time_sim_steps6, fact m)
qed

subsection \<open>The default task set\<close>

text \<open>
  Claim C3. On a floating base, outside debug mode, with no task-set path and no sequence
  name (the default options but for the base), \<^verbatim>\<open>threadInit\<close> does not return true with
  the status RUNNING: the call of \<^verbatim>\<open>LoadSequence\<close> that would load the floating-base
  minimal tasks is commented out, the sequence pointer is still null when
  \<^verbatim>\<open>taskSequence->init\<close> is reached, and the initialisation faults there, for every
  robot and whatever the collaborators answer.
\<close>

theorem default_floating_tasks_fault:
  "threadInit inp (OcraControllerServerThread floating_options c) = Inl NullDereference"
  by (simp add: floating_options_def OcraControllerOptions_default_def init_defs Let_def)

subsection \<open>Debug mode on a floating base\<close>

text \<open>
  Claim C4, as stated, fails: when debug mode is requested on a floating base,
  \<^verbatim>\<open>threadInit\<close> returns false, and the port \<^verbatim>\<open>/OCRA/Controller/rpc:i\<close> has been opened.
\<close>

theorem debug_floating_opens_rpc_port:
  "map_sum id (map_prod id openPorts)
     (threadInit init2 (OcraControllerServerThread debug_floating_options robot2))
   = Inr (False, [''/OCRA/Controller/rpc:i''])"
  by (simp add: debug_floating_options_def OcraControllerOptions_default_def init_defs robot2_def init2_def)

text \<open>
  Claim C4, amended. When debug mode is requested and the base is not fixed,
  \<^verbatim>\<open>threadInit\<close> returns false after printing the error; the status, the task sequence
  and the simulated time are what they were, no call is made on the whole-body interface,
  and the only port opened is the RPC port, which the function opens first: neither debug
  port is opened.
\<close>

theorem debug_floating_init_fails:
  assumes "runInDebugMode (ctrlOptions s)" and "\<not> hasFixedRoot s"
  shows "\<exists>s'. threadInit inp s = Inr (False, s') \<and>
           controllerStatus s' = controllerStatus s \<and>
           openPorts s' = openPorts s @ [''/OCRA/Controller/rpc:i''] \<and>
           wbiCalls s' = wbiCalls s \<and> taskSequence s' = taskSequence s \<and>
           time_sim s' = time_sim s \<and>
           last (cout s') = Str ''[ERR] Cannot run debug mode with floating base.''"
  using assms
  by (simp add: threadInit_def open_rpc_and_estimate_def load_sequence_def say_def Let_def)

theorem debug_floating_init_fails_witness:
  "runInDebugMode (ctrlOptions (OcraControllerServerThread debug_floating_options robot2)) \<and>
   \<not> hasFixedRoot (OcraControllerServerThread debug_floating_options robot2) \<and>
   map_sum id (map_prod id (\<lambda>s. (controllerStatus s, openPorts s, wbiCalls s)))
     (threadInit init2 (OcraControllerServerThread debug_floating_options robot2))
   = Inr (False, CONTROLLER_STOPPED, [''/OCRA/Controller/rpc:i''], [])"
proof -
  have h: "runInDebugMode (ctrlOptions (OcraControllerServerThread debug_floating_options robot2))"
    "\<not> hasFixedRoot (OcraControllerServerThread debug_floating_options robot2)"
    by (simp_all add: debug_floating_options_def OcraControllerOptions_default_def OcraControllerServerThread_def)
  from debug_floating_init_fails[OF h, of init2] obtain s' where
    "threadInit init2 (OcraControllerServerThread debug_floating_options robot2) = Inr (False, s')"
    "controllerStatus s' = controllerStatus (OcraControllerServerThread debug_floating_options robot2)"
    "openPorts s' = openPorts (OcraControllerServerThread debug_floating_options robot2) @ [''/OCRA/Controller/rpc:i'']"
    "wbiCalls s' = wbiCalls (OcraControllerServerThread debug_floating_options robot2)"
    by blast
  then show ?thesis using h by (simp add: OcraControllerServerThread_def)
qed

subsection \<open>Retargeting and release\<close>

lemma map_fst_replace_manager: "map fst (replace_manager k m xs) = map fst xs"
  by (induction xs) auto

lemma map_of_replace_manager:
  "map_of (replace_manager k m xs) k' =
     (if k' = k \<and> map_of xs k \<noteq> None then Some m else map_of xs k')"
  by (induction xs) auto

lemma retarget_Inr:
  assumes "retarget setter key s = Inr s'"
  obtains ts m where "taskSequence s = Some ts" "setter (map_of (taskManagers ts) key) = Some m"
    "s' = s\<lparr>taskSequence := Some (ts\<lparr>taskManagers := replace_manager key m (taskManagers ts)\<rparr>)\<rparr>"
  using assms by (auto simp: retarget_def split: option.splits)

lemma setPosture_Some: "setPosture v x = Some m \<Longrightarrow> m = FullPostureTaskManager v \<and> x \<noteq> None"
  by (cases "(v, x)" rule: setPosture.cases) auto

lemma setState_CoM_Some: "setState_CoM v x = Some m \<Longrightarrow> m = CoMTaskManager v \<and> x \<noteq> None"
  by (cases "(v, x)" rule: setState_CoM.cases) auto

lemma setState_SegCartesian_Some:
  "setState_SegCartesian v x = Some m \<Longrightarrow> m = SegCartesianTaskManager v \<and> x \<noteq> None"
  by (cases "(v, x)" rule: setState_SegCartesian.cases) auto

lemma retarget_stabilization_tasks_Inr:
  assumes "retarget_stabilization_tasks s = Inr s'"
  shows "\<exists>ts ts'. taskSequence s = Some ts \<and> s' = s\<lparr>isStabilizing := True, taskSequence := Some ts'\<rparr> \<and>
           updateCalls ts' = updateCalls ts \<and> initCalls ts' = initCalls ts \<and>
           map fst (taskManagers ts') = map fst (taskManagers ts) \<and>
           (\<forall>k. k \<notin> stabilization_keys \<longrightarrow> map_of (taskManagers ts') k = map_of (taskManagers ts) k) \<and>
           map_of (taskManagers ts') ''stabilization_fullPosture'' = Some (FullPostureTaskManager (initialPosture s)) \<and>
           map_of (taskManagers ts') ''stabilization_comTask'' = Some (CoMTaskManager (initialCoMPosition s)) \<and>
           map_of (taskManagers ts') ''stabilization_torsoCartesianTask'' =
             Some (SegCartesianTaskManager (initialTorsoPosition s))"
proof -
  let ?s0 = "s\<lparr>isStabilizing := True\<rparr>"
  from assms obtain s1 s2 where
    r1: "retarget (setPosture (initialPosture ?s0)) ''stabilization_fullPosture'' ?s0 = Inr s1" and
    r2: "retarget (setState_CoM (initialCoMPosition s1)) ''stabilization_comTask'' s1 = Inr s2" and
    r3: "retarget (setState_SegCartesian (initialTorsoPosition s2)) ''stabilization_torsoCartesianTask'' s2 = Inr s'"
    by (auto simp: retarget_stabilization_tasks_def Let_def split: sum.splits)
  from r1 obtain ts m1 where
    a1: "taskSequence ?s0 = Some ts" "setPosture (initialPosture ?s0) (map_of (taskManagers ts) ''stabilization_fullPosture'') = Some m1"
    "s1 = ?s0\<lparr>taskSequence := Some (ts\<lparr>taskManagers := replace_manager ''stabilization_fullPosture'' m1 (taskManagers ts)\<rparr>)\<rparr>"
    by (rule retarget_Inr)
  let ?ts1 = "ts\<lparr>taskManagers := replace_manager ''stabilization_fullPosture'' m1 (taskManagers ts)\<rparr>"
  from r2 obtain tsb m2 where
    a2: "taskSequence s1 = Some tsb" "setState_CoM (initialCoMPosition s1) (map_of (taskManagers tsb) ''stabilization_comTask'') = Some m2"
    "s2 = s1\<lparr>taskSequence := Some (tsb\<lparr>taskManagers := replace_manager ''stabilization_comTask'' m2 (taskManagers tsb)\<rparr>)\<rparr>"
    by (rule retarget_Inr)
  have tsb: "tsb = ?ts1" using a1(3) a2(1) by simp
  let ?ts2 = "?ts1\<lparr>taskManagers := replace_manager ''stabilization_comTask'' m2 (taskManagers ?ts1)\<rparr>"
  from r3 obtain tsc m3 where
    a3: "taskSequence s2 = Some tsc"
    "setState_SegCartesian (initialTorsoPosition s2) (map_of (taskManagers tsc) ''stabilization_torsoCartesianTask'') = Some m3"
    "s' = s2\<lparr>taskSequence := Some (tsc\<lparr>taskManagers := replace_manager ''stabilization_torsoCartesianTask'' m3 (taskManagers tsc)\<rparr>)\<rparr>"
    by (rule retarget_Inr)
  have tsc: "tsc = ?ts2" using a2(3) a3(1) tsb by simp
  let ?ts3 = "?ts2\<lparr>taskManagers := replace_manager ''stabilization_torsoCartesianTask'' m3 (taskManagers ?ts2)\<rparr>"
  have m1: "m1 = FullPostureTaskManager (initialPosture s)"
    "map_of (taskManagers ts) ''stabilization_fullPosture'' \<noteq> None"
    using setPosture_Some[OF a1(2)] by simp_all
  have m2: "m2 = CoMTaskManager (initialCoMPosition s)"
    "map_of (taskManagers ?ts1) ''stabilization_comTask'' \<noteq> None"
    using setState_CoM_Some[OF a2(2)] a1(3) tsb by simp_all
  have m3: "m3 = SegCartesianTaskManager (initialTorsoPosition s)"
    "map_of (taskManagers ?ts2) ''stabilization_torsoCartesianTask'' \<noteq> None"
    using setState_SegCartesian_Some[OF a3(2)] a1(3) a2(3) tsc by simp_all
  have s': "s' = s\<lparr>isStabilizing := True, taskSequence := Some ?ts3\<rparr>"
    using a1(3) a2(3) a3(3) tsb tsc by simp
  have t: "taskSequence s = Some ts" using a1(1) by simp
  have f: "map fst (taskManagers ?ts3) = map fst (taskManagers ts)"
    by (simp add: map_fst_replace_manager)
  have o: "\<forall>k. k \<notin> stabilization_keys \<longrightarrow> map_of (taskManagers ?ts3) k = map_of (taskManagers ts) k"
    by (simp add: map_of_replace_manager stabilization_keys_def)
  have p1: "map_of (taskManagers ?ts3) ''stabilization_fullPosture'' = Some (FullPostureTaskManager (initialPosture s))"
    using m1 by (simp add: map_of_replace_manager)
  have p2: "map_of (taskManagers ?ts3) ''stabilization_comTask'' = Some (CoMTaskManager (initialCoMPosition s))"
    using m2 by (simp add: map_of_replace_manager)
  have p3: "map_of (taskManagers ?ts3) ''stabilization_torsoCartesianTask'' =
             Some (SegCartesianTaskManager (initialTorsoPosition s))"
    using m3 by (simp add: map_of_replace_manager)
  show ?thesis
    apply (rule exI[of _ ts], rule exI[of _ ?ts3])
    using t s' f o p1 p2 p3 by simp
qed

lemma stabilizeRobot_Inr:
  assumes "stabilizeRobot inp s = Some (Inr s')"
  obtains s1 s2 where "retarget_stabilization_tasks s = Inr s1"
    "stabilize_loop (loop_steps inp) (time_now inp) (time_now inp 0) 0
       (say [Str ''Attempting to stabilize the robot's posture. Time elapsed:''] s1) = Some (Inr s2)"
    "s' = (if isRobotStable s2 then say [Str ''Stabilization procedure complete!''] s2 else s2)"
  using assms
  by (auto simp: stabilizeRobot_def Let_def split: sum.splits option.splits)

lemma stabilizeRobot_kept:
  assumes "stabilizeRobot inp s = Some (Inr s')"
  shows "kept_by_run s' = kept_by_run (s\<lparr>isStabilizing := True\<rparr>)"
    and "\<exists>s1. retarget_stabilization_tasks s = Inr s1 \<and> taskSequence s' = taskSequence s1"
    and "\<exists>k. time_sim s' = time_after (Suc k) s"
proof -
  let ?msg = "[Str ''Attempting to stabilize the robot's posture. Time elapsed:'']"
  from assms obtain s1 s2 where
    r: "retarget_stabilization_tasks s = Inr s1" and
    l: "stabilize_loop (loop_steps inp) (time_now inp) (time_now inp 0) 0 (say ?msg s1) = Some (Inr s2)" and
    e: "s' = (if isRobotStable s2 then say [Str ''Stabilization procedure complete!''] s2 else s2)"
    by (rule stabilizeRobot_Inr)
  from retarget_stabilization_tasks_Inr[OF r] obtain ts' where
    s1: "s1 = s\<lparr>isStabilizing := True, taskSequence := Some ts'\<rparr>" by blast
  have k1: "kept_by_run (say ?msg s1) = kept_by_run (s\<lparr>isStabilizing := True\<rparr>)"
    "isStabilizing (say ?msg s1)" "taskSequence (say ?msg s1) = taskSequence s1"
    "time_sim (say ?msg s1) = time_sim s" "getRate (say ?msg s1) = getRate s"
    using s1 by (simp_all add: kept_by_run_def say_def getRate_def)
  have k2: "kept_by_run s' = kept_by_run s2" "taskSequence s' = taskSequence s2" "time_sim s' = time_sim s2"
    using e by (simp_all add: kept_by_run_def say_def)
  show "kept_by_run s' = kept_by_run (s\<lparr>isStabilizing := True\<rparr>)"
    using stabilize_loop_kept[OF l] k1 k2 by simp
  show "\<exists>s1. retarget_stabilization_tasks s = Inr s1 \<and> taskSequence s' = taskSequence s1"
    using stabilize_loop_sequence[OF l k1(2)] k1 k2 r by simp
  from stabilize_loop_exit[OF l] obtain n where
    "time_sim s2 = time_after (Suc n - 0) (say ?msg s1)"
    by blast
  then show "\<exists>k. time_sim s' = time_after (Suc k) s"
    using k2(3) time_after_cong[OF k1(4) k1(5), of "Suc n"] by (intro exI[of _ n]) simp
qed

lemma release_stabilize_Inr:
  assumes "release_stabilize inp s = Some (Inr s1)"
  obtains ts where "taskSequence s = Some ts" "hasFixedRoot s"
      "s1 = s\<lparr>taskSequence := Some (ts\<lparr>taskManagers := []\<rparr>)\<rparr>"
  | ts where "taskSequence s = Some ts" "\<not> hasFixedRoot s" "\<not> stabilization_added inp"
      "s1 = say [Str ''[WARNING] Error loading stabilization task set. Could not perform safe stabilization procedure.'']
              (s\<lparr>taskSequence := Some (ts\<lparr>taskManagers := stabilization_tasks inp\<rparr>)\<rparr>)"
  | ts where "taskSequence s = Some ts" "\<not> hasFixedRoot s" "stabilization_added inp"
      "stabilizeRobot inp (s\<lparr>taskSequence := Some (ts\<lparr>taskManagers := stabilization_tasks inp\<rparr>)\<rparr>) = Some (Inr s1)"
  using assms
  by (auto simp: release_stabilize_def clearSequence_def loadStabilizationTasks_def
        addTaskManagersToSequence_def
      split: option.splits if_splits sum.splits prod.splits bool.splits)

lemma release_stabilize_kept:
  assumes "release_stabilize inp s = Some (Inr s1)"
  shows "kept_by_run s1 =
           kept_by_run (s\<lparr>isStabilizing := isStabilizing s \<or> (\<not> hasFixedRoot s \<and> stabilization_added inp)\<rparr>)"
    and "taskSequence s1 \<noteq> None"
  using assms
proof (atomize (full), cases rule: release_stabilize_Inr)
  case (1 ts)
  then show "kept_by_run s1 =
           kept_by_run (s\<lparr>isStabilizing := isStabilizing s \<or> (\<not> hasFixedRoot s \<and> stabilization_added inp)\<rparr>)
         \<and> taskSequence s1 \<noteq> None"
    by (simp add: kept_by_run_def)
next
  case (2 ts)
  then show "kept_by_run s1 =
           kept_by_run (s\<lparr>isStabilizing := isStabilizing s \<or> (\<not> hasFixedRoot s \<and> stabilization_added inp)\<rparr>)
         \<and> taskSequence s1 \<noteq> None"
    by (simp add: kept_by_run_def say_def)
next
  case (3 ts)
  from stabilizeRobot_kept(1)[OF 3(4)] stabilizeRobot_kept(2)[OF 3(4)] 3(2,3)
  show "kept_by_run s1 =
           kept_by_run (s\<lparr>isStabilizing := isStabilizing s \<or> (\<not> hasFixedRoot s \<and> stabilization_added inp)\<rparr>)
         \<and> taskSequence s1 \<noteq> None"
    by (auto simp: kept_by_run_def dest!: retarget_stabilization_tasks_Inr)
qed

lemma release_position_mode_Inr:
  assumes "taskSequence s1 \<noteq> None"
  shows "release_position_mode inp s1 =
     Inr (if set_position_mode inp
          then s1\<lparr>wbiCalls := wbiCalls s1 @ [SetControlMode CTRL_MODE_POS ALL_JOINTS,
                                              SetControlReference (initialPosture s1) ALL_JOINTS],
                  cout := cout s1 @ [Str ''--> Closing controller thread. Switching to POSITION mode and returning to home pose.''],
                  taskSequence := map_option (\<lambda>ts. ts\<lparr>taskManagers := []\<rparr>) (taskSequence s1),
                  controllerStatus := CONTROLLER_STOPPED\<rparr>
          else s1\<lparr>wbiCalls := wbiCalls s1 @ [SetControlMode CTRL_MODE_POS ALL_JOINTS],
                  cout := cout s1 @ [Str ''[ERROR] (OcraControllerServerThread::threadRelease): Could not set the robot into Position Control mode.'']\<rparr>)"
  using assms
  by (auto simp: release_position_mode_def clearSequence_def call_def say_def Let_def)

lemma threadRelease_Inr:
  assumes "threadRelease inp s = Some (Inr s')"
  obtains s1 where "release_stabilize inp s = Some (Inr s1)" "release_position_mode inp s1 = Inr s'"
  using assms by (auto simp: threadRelease_def split: option.splits sum.splits)

lemma threadRelease_terminates:
  assumes "STABILIZATION_TIMEOUT \<le> time_now inp (Suc n) - time_now inp 0"
  shows "\<exists>r. stabilizeRobot inp s = Some r" and "\<exists>r. threadRelease inp s = Some r"
proof -
  have l: "\<exists>r. stabilize_loop (loop_steps inp) (time_now inp) (time_now inp 0) 0 x = Some r" for x
    using stabilize_loop_terminates[where now = "time_now inp" and ?t0.0 = "time_now inp 0" and n = n and k = 0] assms
    by simp
  show a: "\<exists>r. stabilizeRobot inp x = Some r" for x
  proof (cases "retarget_stabilization_tasks x")
    case (Inl e)
    then show ?thesis by (simp add: stabilizeRobot_def)
  next
    case (Inr s1)
    from l[of "say [Str ''Attempting to stabilize the robot's posture. Time elapsed:''] s1"]
    obtain r where "stabilize_loop (loop_steps inp) (time_now inp) (time_now inp 0) 0
        (say [Str ''Attempting to stabilize the robot's posture. Time elapsed:''] s1) = Some r" by blast
    then show ?thesis using Inr
      by (cases r) (simp_all add: stabilizeRobot_def Let_def)
  qed
  have "\<exists>r. release_stabilize inp s = Some r"
    using a
    by (auto simp: release_stabilize_def split: sum.splits prod.splits bool.splits)
  then show "\<exists>r. threadRelease inp s = Some r"
    by (auto simp: threadRelease_def split: sum.splits)
qed

lemma floating2_eq:
  "floating2 = started2\<lparr>ctrlOptions := floating_xml_options, hasFixedRoot := False\<rparr>"
  by (simp add: floating2_def started2_eq example_defs init_defs numeral_2_eq_2)

lemma release2_floating2:
  "threadRelease release2 floating2 =
     Some (Inr (floating2\<lparr>isStabilizing := True, controllerStatus := CONTROLLER_STOPPED,
        taskSequence := Some \<lparr>taskManagers = [], initCalls = 1, updateCalls = []\<rparr>,
        torques := [24, - 24], time_sim := 5764607523034235 / 576460752303423488,
        wbiCalls := [SetControlMode CTRL_MODE_TORQUE ALL_JOINTS,
                     SetControlReference [24, - 24] ALL_JOINTS,
                     SetControlMode CTRL_MODE_POS ALL_JOINTS,
                     SetControlReference [1, 2] ALL_JOINTS],
        cout := cout floating2 @
                [Str ''Attempting to stabilize the robot's posture. Time elapsed:'',
                 Str ''Stabilization procedure complete!'',
                 Str ''--> Closing controller thread. Switching to POSITION mode and returning to home pose.'']\<rparr>))"
  apply (simp add: floating2_eq started2_eq release_defs example_defs)
  apply (subst stabilize_loop.simps)
  apply (simp add: example_defs release_defs run_defs)
  done

lemma timing_out2_floating2:
  "threadRelease timing_out2 floating2 =
     Some (Inr (floating2\<lparr>isStabilizing := True, controllerStatus := CONTROLLER_STOPPED,
        taskSequence := Some \<lparr>taskManagers = [], initCalls = 1, updateCalls = []\<rparr>,
        jointVelocities := [1, 0], torques := [1, 1], time_sim := 5764607523034235 / 288230376151711744,
        wbiCalls := [SetControlMode CTRL_MODE_TORQUE ALL_JOINTS,
                     SetControlReference [1, 1] ALL_JOINTS,
                     SetControlReference [1, 1] ALL_JOINTS,
                     SetControlMode CTRL_MODE_POS ALL_JOINTS,
                     SetControlReference [1, 2] ALL_JOINTS],
        cout := cout floating2 @
                [Str ''Attempting to stabilize the robot's posture. Time elapsed:'',
                 Str ''****[WARNING] Stabilization procedure has timed out. The robot may fall!****'',
                 Str ''--> Closing controller thread. Switching to POSITION mode and returning to home pose.'']\<rparr>))"
  apply (simp add: floating2_eq started2_eq release_defs example_defs)
  apply (subst stabilize_loop.simps)
  apply (simp add: example_defs release_defs run_defs)
  apply (subst stabilize_loop.simps)
  apply (simp add: example_defs release_defs run_defs)
  done

subsection \<open>The end of the stabilization loop\<close>

text \<open>
  Claim C5. The stabilization loop ends: once a reading of the clock is at least the timeout
  of 1.0 s after the start reading, the loop, \<^verbatim>\<open>stabilizeRobot\<close> and \<^verbatim>\<open>threadRelease\<close>
  return. When the loop returns it has made at least one call of \<^verbatim>\<open>run\<close>, and at its
  exit the robot is stable (the norm of the joint velocities is at most 0.01) or the
  elapsed time has reached the timeout, which no earlier reading had. A timeout is no
  fault: the step in which the elapsed time reaches the timeout prints the warning and
  leaves the loop with the state of the step. When the robot is stable after the first
  step, \<^verbatim>\<open>stabilizeRobot\<close> returns after that one step and its last message is the
  completion message. However the first part of \<^verbatim>\<open>threadRelease\<close> ended, the switch to
  position mode for all joints follows.
\<close>

theorem stabilization_loop_ends:
  "(STABILIZATION_TIMEOUT \<le> time_now inp (Suc n) - time_now inp 0 \<longrightarrow>
      (\<exists>r. stabilize_loop (loop_steps inp) (time_now inp) (time_now inp 0) 0 s = Some r) \<and>
      (\<exists>r. stabilizeRobot inp s = Some r) \<and> (\<exists>r. threadRelease inp s = Some r)) \<and>
   (stabilize_loop (loop_steps inp) (time_now inp) (time_now inp 0) 0 s = Some (Inr s') \<longrightarrow>
      (\<exists>k. time_sim s' = time_after (Suc k) s \<and>
           (isRobotStable s' \<or> STABILIZATION_TIMEOUT \<le> time_now inp (Suc k) - time_now inp 0) \<and>
           (\<forall>j<k. time_now inp (Suc j) - time_now inp 0 < STABILIZATION_TIMEOUT))) \<and>
   (run i a = Inr a1 \<and> STABILIZATION_TIMEOUT \<le> t \<longrightarrow>
      (\<exists>a2. stabilize_step i t a = Inr (False, a2) \<and> a2 = a1\<lparr>cout := cout a2\<rparr> \<and>
            cout a2 = cout a1 @ (if fmod t 5 \<le> 0.01 then [DblVal t, Str '' sec''] else []) @
              [Str ''****[WARNING] Stabilization procedure has timed out. The robot may fall!****''])) \<and>
   (retarget_stabilization_tasks b = Inr b1 \<and>
    run (loop_steps inp 0) (say [Str ''Attempting to stabilize the robot's posture. Time elapsed:''] b1) = Inr b2 \<and>
    isRobotStable b2 \<longrightarrow>
      (\<exists>b3. stabilizeRobot inp b = Some (Inr b3) \<and>
            last (cout b3) = Str ''Stabilization procedure complete!'' \<and>
            time_sim b3 = dadd (time_sim b) (dmul TIME_MSEC_TO_SEC (getRate b)))) \<and>
   (release_stabilize inp c = Some (Inr c1) \<longrightarrow>
      (\<exists>c2. threadRelease inp c = Some (Inr c2) \<and>
            wbiCalls c2 = wbiCalls c1 @ SetControlMode CTRL_MODE_POS ALL_JOINTS #
              (if set_position_mode inp then [SetControlReference (initialPosture c1) ALL_JOINTS] else []))) \<and>
   isRobotStable x = (vnorm (jointVelocities x) \<le> 1 / 100) \<and>
   STABILIZATION_TIMEOUT = 1"
proof -
  have A: "STABILIZATION_TIMEOUT \<le> time_now inp (Suc n) - time_now inp 0 \<longrightarrow>
      (\<exists>r. stabilize_loop (loop_steps inp) (time_now inp) (time_now inp 0) 0 s = Some r) \<and>
      (\<exists>r. stabilizeRobot inp s = Some r) \<and> (\<exists>r. threadRelease inp s = Some r)"
    using stabilize_loop_terminates[where now = "time_now inp" and ?t0.0 = "time_now inp 0" and n = n and k = 0]
      threadRelease_terminates[of inp n s]
    by simp
  have B: "stabilize_loop (loop_steps inp) (time_now inp) (time_now inp 0) 0 s = Some (Inr s') \<longrightarrow>
      (\<exists>k. time_sim s' = time_after (Suc k) s \<and>
           (isRobotStable s' \<or> STABILIZATION_TIMEOUT \<le> time_now inp (Suc k) - time_now inp 0) \<and>
           (\<forall>j<k. time_now inp (Suc j) - time_now inp 0 < STABILIZATION_TIMEOUT))"
  proof
    assume l: "stabilize_loop (loop_steps inp) (time_now inp) (time_now inp 0) 0 s = Some (Inr s')"
    from stabilize_loop_exit[OF l] obtain k where
      "time_sim s' = time_after (Suc k - 0) s"
      "isRobotStable s' \<or> STABILIZATION_TIMEOUT \<le> time_now inp (Suc k) - time_now inp 0"
      "\<forall>j. 0 \<le> j \<and> j < k \<longrightarrow> time_now inp (Suc j) - time_now inp 0 < STABILIZATION_TIMEOUT"
      by blast
    then show "\<exists>k. time_sim s' = time_after (Suc k) s \<and>
           (isRobotStable s' \<or> STABILIZATION_TIMEOUT \<le> time_now inp (Suc k) - time_now inp 0) \<and>
           (\<forall>j<k. time_now inp (Suc j) - time_now inp 0 < STABILIZATION_TIMEOUT)"
      by (intro exI[of _ k]) simp
  qed
  have C: "run i a = Inr a1 \<and> STABILIZATION_TIMEOUT \<le> t \<longrightarrow>
      (\<exists>a2. stabilize_step i t a = Inr (False, a2) \<and> a2 = a1\<lparr>cout := cout a2\<rparr> \<and>
            cout a2 = cout a1 @ (if fmod t 5 \<le> 0.01 then [DblVal t, Str '' sec''] else []) @
              [Str ''****[WARNING] Stabilization procedure has timed out. The robot may fall!****''])"
    by (auto simp: stabilize_step_def say_def Let_def)
  have D: "retarget_stabilization_tasks b = Inr b1 \<and>
    run (loop_steps inp 0) (say [Str ''Attempting to stabilize the robot's posture. Time elapsed:''] b1) = Inr b2 \<and>
    isRobotStable b2 \<longrightarrow>
      (\<exists>b3. stabilizeRobot inp b = Some (Inr b3) \<and>
            last (cout b3) = Str ''Stabilization procedure complete!'' \<and>
            time_sim b3 = dadd (time_sim b) (dmul TIME_MSEC_TO_SEC (getRate b)))"
  proof
    let ?m = "say [Str ''Attempting to stabilize the robot's posture. Time elapsed:''] b1"
    assume h: "retarget_stabilization_tasks b = Inr b1 \<and> run (loop_steps inp 0) ?m = Inr b2 \<and> isRobotStable b2"
    from retarget_stabilization_tasks_Inr[of b b1] h obtain ts' where
      b1: "b1 = b\<lparr>isStabilizing := True, taskSequence := Some ts'\<rparr>" by blast
    have m: "time_sim ?m = time_sim b" "getRate ?m = getRate b"
      using b1 by (simp_all add: say_def getRate_def)
    obtain again b2' where st: "stabilize_step (loop_steps inp 0) (time_now inp (Suc 0) - time_now inp 0) ?m = Inr (again, b2')"
      using h by (auto simp: stabilize_step_def Let_def)
    from stabilize_step_run[OF st] h have na: "\<not> again" and e: "b2' = b2\<lparr>cout := cout b2'\<rparr>"
      by auto
    have stb: "isRobotStable b2'"
      using h by (subst e) (simp add: isRobotStable_def)
    have l: "stabilize_loop (loop_steps inp) (time_now inp) (time_now inp 0) 0 ?m = Some (Inr b2')"
      using st na by (subst stabilize_loop.simps) simp
    have r: "stabilizeRobot inp b = Some (Inr (say [Str ''Stabilization procedure complete!''] b2'))"
      using h l stb by (simp add: stabilizeRobot_def Let_def)
    have t: "time_sim b2' = dadd (time_sim b) (dmul TIME_MSEC_TO_SEC (getRate b))"
      using stabilize_step_kept(2)[OF st] m by simp
    show "\<exists>b3. stabilizeRobot inp b = Some (Inr b3) \<and>
            last (cout b3) = Str ''Stabilization procedure complete!'' \<and>
            time_sim b3 = dadd (time_sim b) (dmul TIME_MSEC_TO_SEC (getRate b))"
      using r t by (intro exI[of _ "say [Str ''Stabilization procedure complete!''] b2'"]) (simp add: say_def)
  qed
  have E: "release_stabilize inp c = Some (Inr c1) \<longrightarrow>
      (\<exists>c2. threadRelease inp c = Some (Inr c2) \<and>
            wbiCalls c2 = wbiCalls c1 @ SetControlMode CTRL_MODE_POS ALL_JOINTS #
              (if set_position_mode inp then [SetControlReference (initialPosture c1) ALL_JOINTS] else []))"
  proof
    assume h: "release_stabilize inp c = Some (Inr c1)"
    from release_stabilize_kept(2)[OF h] have "taskSequence c1 \<noteq> None" .
    from release_position_mode_Inr[OF this, of inp] h
    show "\<exists>c2. threadRelease inp c = Some (Inr c2) \<and>
            wbiCalls c2 = wbiCalls c1 @ SetControlMode CTRL_MODE_POS ALL_JOINTS #
              (if set_position_mode inp then [SetControlReference (initialPosture c1) ALL_JOINTS] else [])"
      by (simp add: threadRelease_def)
  qed
  have F: "isRobotStable x = (vnorm (jointVelocities x) \<le> 1 / 100)"
    by (simp add: isRobotStable_def ZERO_VELOCITY_THRESHOLD_def)
  have G: "STABILIZATION_TIMEOUT = 1"
    by (simp add: STABILIZATION_TIMEOUT_def)
  show ?thesis
    by (intro conjI) (fact A, fact B, fact C, fact D, fact E, fact F, fact G)
qed

lemma loaded2_eq:
  "loaded2 = started2\<lparr>ctrlOptions := floating_xml_options, hasFixedRoot := False,
      taskSequence := Some \<lparr>taskManagers = stabilization_set, initCalls = 1, updateCalls = []\<rparr>\<rparr>"
  by (simp add: loaded2_def floating2_eq)

lemma run_moving2_loaded2:
  "run moving2 loaded2 = Inr (projr (run moving2 loaded2))"
  by (simp add: loaded2_eq started2_eq run_defs example_defs)

lemma retarget_loaded2:
  "retarget_stabilization_tasks loaded2 = Inr (projr (retarget_stabilization_tasks loaded2))"
  by (simp add: loaded2_eq started2_eq release_defs example_defs)

lemma run_step2_retargeted2:
  "run (loop_steps release2 0)
     (say [Str ''Attempting to stabilize the robot's posture. Time elapsed:'']
        (projr (retarget_stabilization_tasks loaded2))) =
   Inr (projr (run (loop_steps release2 0)
     (say [Str ''Attempting to stabilize the robot's posture. Time elapsed:'']
        (projr (retarget_stabilization_tasks loaded2)))))
   \<and> isRobotStable (projr (run (loop_steps release2 0)
     (say [Str ''Attempting to stabilize the robot's posture. Time elapsed:'']
        (projr (retarget_stabilization_tasks loaded2)))))"
  by (simp add: loaded2_eq started2_eq release_defs run_defs example_defs)

lemma Some_Inr_the: "x = Some (Inr y) \<Longrightarrow> x = Some (Inr (projr (the x)))"
  by simp

lemma release_stabilize_timing_out2:
  "release_stabilize timing_out2 floating2 = Some (Inr (projr (the (release_stabilize timing_out2 floating2))))"
proof -
  have "\<exists>y. release_stabilize timing_out2 floating2 = Some (Inr y)"
    apply (simp add: floating2_eq started2_eq release_defs example_defs)
    apply (subst stabilize_loop.simps)
    apply (simp add: example_defs release_defs run_defs)
    apply (subst stabilize_loop.simps)
    apply (simp add: example_defs release_defs run_defs)
    done
  then show ?thesis by (auto dest: Some_Inr_the)
qed

lemma loop_timing_out2_loaded2:
  "stabilize_loop (loop_steps timing_out2) (time_now timing_out2) (time_now timing_out2 0) 0 loaded2 =
   Some (Inr (projr (the (stabilize_loop (loop_steps timing_out2) (time_now timing_out2) (time_now timing_out2 0) 0 loaded2))))"
proof -
  have "\<exists>y. stabilize_loop (loop_steps timing_out2) (time_now timing_out2) (time_now timing_out2 0) 0 loaded2
          = Some (Inr y)"
    apply (subst stabilize_loop.simps)
    apply (simp add: loaded2_eq started2_eq example_defs release_defs run_defs)
    apply (subst stabilize_loop.simps)
    apply (simp add: example_defs release_defs run_defs)
    done
  then show ?thesis by (auto dest: Some_Inr_the)
qed

theorem stabilization_loop_ends_witness:
  "STABILIZATION_TIMEOUT \<le> time_now release2 (Suc 1) - time_now release2 0 \<and>
   (\<exists>r. threadRelease release2 floating2 = Some r) \<and>
   stabilize_loop (loop_steps timing_out2) (time_now timing_out2) (time_now timing_out2 0) 0 loaded2 =
     Some (Inr (projr (the (stabilize_loop (loop_steps timing_out2) (time_now timing_out2) (time_now timing_out2 0) 0 loaded2)))) \<and>
   (\<exists>k. time_sim (projr (the (stabilize_loop (loop_steps timing_out2) (time_now timing_out2) (time_now timing_out2 0) 0 loaded2)))
        = time_after (Suc k) loaded2) \<and>
   run moving2 loaded2 = Inr (projr (run moving2 loaded2)) \<and>
   STABILIZATION_TIMEOUT \<le> 1 \<and>
   (\<exists>a2. stabilize_step moving2 1 loaded2 = Inr (False, a2) \<and>
      cout a2 = cout (projr (run moving2 loaded2)) @
        [Str ''****[WARNING] Stabilization procedure has timed out. The robot may fall!****'']) \<and>
   retarget_stabilization_tasks loaded2 = Inr (projr (retarget_stabilization_tasks loaded2)) \<and>
   isRobotStable (projr (run (loop_steps release2 0)
     (say [Str ''Attempting to stabilize the robot's posture. Time elapsed:'']
        (projr (retarget_stabilization_tasks loaded2))))) \<and>
   (\<exists>b3. stabilizeRobot release2 loaded2 = Some (Inr b3) \<and>
      last (cout b3) = Str ''Stabilization procedure complete!'' \<and> time_sim b3 = 5764607523034235 / 576460752303423488) \<and>
   release_stabilize timing_out2 floating2 = Some (Inr (projr (the (release_stabilize timing_out2 floating2)))) \<and>
   (\<exists>c2. threadRelease timing_out2 floating2 = Some (Inr c2) \<and>
      wbiCalls c2 = wbiCalls (projr (the (release_stabilize timing_out2 floating2))) @
        [SetControlMode CTRL_MODE_POS ALL_JOINTS,
         SetControlReference (initialPosture (projr (the (release_stabilize timing_out2 floating2)))) ALL_JOINTS])"
proof -
  have clock: "STABILIZATION_TIMEOUT \<le> time_now release2 (Suc 1) - time_now release2 0"
    by (simp add: release2_def STABILIZATION_TIMEOUT_def)
  have t1: "STABILIZATION_TIMEOUT \<le> 1" by (simp add: STABILIZATION_TIMEOUT_def)
  have f: "\<not> fmod 1 5 \<le> 0.01" by (simp add: fmod_def)
  have p: "set_position_mode timing_out2" by (simp add: timing_out2_def release2_def)
  have z: "time_sim loaded2 = 0" "dmul TIME_MSEC_TO_SEC (getRate loaded2) = 5764607523034235 / 576460752303423488"
    by (simp_all add: loaded2_eq started2_eq getRate_def increment_value example_defs)
  note T = stabilization_loop_ends
    [where inp = release2 and n = 1 and s = floating2 and i = moving2 and a = loaded2
       and ?a1.0 = "projr (run moving2 loaded2)" and t = 1 and b = loaded2
       and ?b1.0 = "projr (retarget_stabilization_tasks loaded2)"
       and ?b2.0 = "projr (run (loop_steps release2 0)
           (say [Str ''Attempting to stabilize the robot's posture. Time elapsed:'']
              (projr (retarget_stabilization_tasks loaded2))))"]
  note U = stabilization_loop_ends
    [where inp = timing_out2 and s = loaded2 and c = floating2
       and s' = "projr (the (stabilize_loop (loop_steps timing_out2) (time_now timing_out2) (time_now timing_out2 0) 0 loaded2))"
       and ?c1.0 = "projr (the (release_stabilize timing_out2 floating2))"]
  note TA = T[THEN conjunct1]
  note TC = T[THEN conjunct2, THEN conjunct2, THEN conjunct1]
  note TD = T[THEN conjunct2, THEN conjunct2, THEN conjunct2, THEN conjunct1]
  note UB = U[THEN conjunct2, THEN conjunct1]
  note UE = U[THEN conjunct2, THEN conjunct2, THEN conjunct2, THEN conjunct2, THEN conjunct1]
  have A: "\<exists>r. threadRelease release2 floating2 = Some r"
    using TA[rule_format, OF clock] by blast
  from TC[rule_format, OF conjI[OF run_moving2_loaded2 t1]] obtain a2 where
    a2: "stabilize_step moving2 1 loaded2 = Inr (False, a2)"
      "cout a2 = cout (projr (run moving2 loaded2)) @ (if fmod 1 5 \<le> 0.01 then [DblVal 1, Str '' sec''] else []) @
              [Str ''****[WARNING] Stabilization procedure has timed out. The robot may fall!****'']"
    by blast
  have C: "\<exists>a2. stabilize_step moving2 1 loaded2 = Inr (False, a2) \<and>
      cout a2 = cout (projr (run moving2 loaded2)) @
        [Str ''****[WARNING] Stabilization procedure has timed out. The robot may fall!****'']"
    using a2 f by (intro exI[of _ a2]) simp
  from TD[rule_format, OF conjI[OF retarget_loaded2 run_step2_retargeted2]] obtain b3 where
    b3: "stabilizeRobot release2 loaded2 = Some (Inr b3)"
      "last (cout b3) = Str ''Stabilization procedure complete!''"
      "time_sim b3 = dadd (time_sim loaded2) (dmul TIME_MSEC_TO_SEC (getRate loaded2))"
    by blast
  have D: "\<exists>b3. stabilizeRobot release2 loaded2 = Some (Inr b3) \<and>
      last (cout b3) = Str ''Stabilization procedure complete!'' \<and> time_sim b3 = 5764607523034235 / 576460752303423488"
    using b3 z by (intro exI[of _ b3]) (simp add: time_value_1)
  have B: "\<exists>k. time_sim (projr (the (stabilize_loop (loop_steps timing_out2) (time_now timing_out2) (time_now timing_out2 0) 0 loaded2)))
        = time_after (Suc k) loaded2"
    using UB[rule_format, OF loop_timing_out2_loaded2] by blast
  have E: "\<exists>c2. threadRelease timing_out2 floating2 = Some (Inr c2) \<and>
      wbiCalls c2 = wbiCalls (projr (the (release_stabilize timing_out2 floating2))) @
        [SetControlMode CTRL_MODE_POS ALL_JOINTS,
         SetControlReference (initialPosture (projr (the (release_stabilize timing_out2 floating2)))) ALL_JOINTS]"
    using UE[rule_format, OF release_stabilize_timing_out2] p by simp
  show ?thesis
    by (intro conjI)
       (fact clock, fact A, fact loop_timing_out2_loaded2, fact B, fact run_moving2_loaded2, fact t1,
        fact C, fact retarget_loaded2, fact run_step2_retargeted2[THEN conjunct2], fact D,
        fact release_stabilize_timing_out2, fact E)
qed

subsection \<open>The status after a release\<close>

lemma threadRelease_result:
  assumes "threadRelease inp s = Some (Inr s')"
  obtains s1 where "release_stabilize inp s = Some (Inr s1)"
    "kept_by_run s1 =
       kept_by_run (s\<lparr>isStabilizing := isStabilizing s \<or> (\<not> hasFixedRoot s \<and> stabilization_added inp)\<rparr>)"
    "taskSequence s1 \<noteq> None"
    "s' = (if set_position_mode inp
          then s1\<lparr>wbiCalls := wbiCalls s1 @ [SetControlMode CTRL_MODE_POS ALL_JOINTS,
                                              SetControlReference (initialPosture s1) ALL_JOINTS],
                  cout := cout s1 @ [Str ''--> Closing controller thread. Switching to POSITION mode and returning to home pose.''],
                  taskSequence := map_option (\<lambda>ts. ts\<lparr>taskManagers := []\<rparr>) (taskSequence s1),
                  controllerStatus := CONTROLLER_STOPPED\<rparr>
          else s1\<lparr>wbiCalls := wbiCalls s1 @ [SetControlMode CTRL_MODE_POS ALL_JOINTS],
                  cout := cout s1 @ [Str ''[ERROR] (OcraControllerServerThread::threadRelease): Could not set the robot into Position Control mode.'']\<rparr>)"
proof -
  from assms obtain s1 where a: "release_stabilize inp s = Some (Inr s1)"
    and b: "release_position_mode inp s1 = Inr s'"
    by (rule threadRelease_Inr)
  note k = release_stabilize_kept[OF a]
  from release_position_mode_Inr[OF k(2), of inp] b that[OF a k(1) k(2)] show thesis
    by simp
qed

lemma threadRelease_status:
  assumes "threadRelease inp s = Some (Inr s')"
  shows "controllerStatus s' = (if set_position_mode inp then CONTROLLER_STOPPED else controllerStatus s)"
    and "isStabilizing s' = (isStabilizing s \<or> (\<not> hasFixedRoot s \<and> stabilization_added inp))"
    and "ctrlOptions s' = ctrlOptions s" and "hasFixedRoot s' = hasFixedRoot s"
    and "minTorques s' = minTorques s" and "maxTorques s' = maxTorques s"
proof -
  from assms obtain s1 where
    k: "kept_by_run s1 =
       kept_by_run (s\<lparr>isStabilizing := isStabilizing s \<or> (\<not> hasFixedRoot s \<and> stabilization_added inp)\<rparr>)"
    and e: "s' = (if set_position_mode inp
          then s1\<lparr>wbiCalls := wbiCalls s1 @ [SetControlMode CTRL_MODE_POS ALL_JOINTS,
                                              SetControlReference (initialPosture s1) ALL_JOINTS],
                  cout := cout s1 @ [Str ''--> Closing controller thread. Switching to POSITION mode and returning to home pose.''],
                  taskSequence := map_option (\<lambda>ts. ts\<lparr>taskManagers := []\<rparr>) (taskSequence s1),
                  controllerStatus := CONTROLLER_STOPPED\<rparr>
          else s1\<lparr>wbiCalls := wbiCalls s1 @ [SetControlMode CTRL_MODE_POS ALL_JOINTS],
                  cout := cout s1 @ [Str ''[ERROR] (OcraControllerServerThread::threadRelease): Could not set the robot into Position Control mode.'']\<rparr>)"
    by (rule threadRelease_result)
  from k have k': "controllerStatus s1 = controllerStatus s"
    "isStabilizing s1 = (isStabilizing s \<or> (\<not> hasFixedRoot s \<and> stabilization_added inp))"
    "ctrlOptions s1 = ctrlOptions s" "hasFixedRoot s1 = hasFixedRoot s"
    "minTorques s1 = minTorques s" "maxTorques s1 = maxTorques s"
    by (simp_all add: kept_by_run_def)
  show "controllerStatus s' = (if set_position_mode inp then CONTROLLER_STOPPED else controllerStatus s)"
    using e k' by simp
  show "isStabilizing s' = (isStabilizing s \<or> (\<not> hasFixedRoot s \<and> stabilization_added inp))"
    using e k' by simp
  show "ctrlOptions s' = ctrlOptions s" using e k' by simp
  show "hasFixedRoot s' = hasFixedRoot s" using e k' by simp
  show "minTorques s' = minTorques s" using e k' by simp
  show "maxTorques s' = maxTorques s" using e k' by simp
qed

text \<open>
  Claim C6. When \<^verbatim>\<open>threadRelease\<close> returns, the status is STOPPED if the switch of all
  joints to position mode succeeded and is what it was if the switch failed; so a thread
  that was RUNNING is STOPPED afterwards if and only if the switch succeeded. After a
  successful switch the posture captured at initialisation is commanded to all joints, the
  closing message is printed and the task sequence is cleared again; after a failed switch
  the error message is the only thing added to the state that the switch was tried in.
\<close>

theorem release_status:
  assumes "threadRelease inp s = Some (Inr s')"
  shows "controllerStatus s' = (if set_position_mode inp then CONTROLLER_STOPPED else controllerStatus s) \<and>
         (controllerStatus s = CONTROLLER_RUNNING \<longrightarrow>
            (controllerStatus s' = CONTROLLER_STOPPED \<longleftrightarrow> set_position_mode inp)) \<and>
         (\<exists>s1. release_stabilize inp s = Some (Inr s1) \<and>
            s' = (if set_position_mode inp
                  then s1\<lparr>wbiCalls := wbiCalls s1 @ [SetControlMode CTRL_MODE_POS ALL_JOINTS,
                                                      SetControlReference (initialPosture s) ALL_JOINTS],
                          cout := cout s1 @ [Str ''--> Closing controller thread. Switching to POSITION mode and returning to home pose.''],
                          taskSequence := map_option (\<lambda>ts. ts\<lparr>taskManagers := []\<rparr>) (taskSequence s1),
                          controllerStatus := CONTROLLER_STOPPED\<rparr>
                  else s1\<lparr>wbiCalls := wbiCalls s1 @ [SetControlMode CTRL_MODE_POS ALL_JOINTS],
                          cout := cout s1 @ [Str ''[ERROR] (OcraControllerServerThread::threadRelease): Could not set the robot into Position Control mode.'']\<rparr>)) \<and>
         (set_position_mode inp \<longrightarrow> (\<exists>ts. taskSequence s' = Some ts \<and> taskManagers ts = []))"
proof -
  from assms obtain s1 where
    a: "release_stabilize inp s = Some (Inr s1)" and
    k: "kept_by_run s1 =
       kept_by_run (s\<lparr>isStabilizing := isStabilizing s \<or> (\<not> hasFixedRoot s \<and> stabilization_added inp)\<rparr>)"
    and n: "taskSequence s1 \<noteq> None"
    and e: "s' = (if set_position_mode inp
          then s1\<lparr>wbiCalls := wbiCalls s1 @ [SetControlMode CTRL_MODE_POS ALL_JOINTS,
                                              SetControlReference (initialPosture s1) ALL_JOINTS],
                  cout := cout s1 @ [Str ''--> Closing controller thread. Switching to POSITION mode and returning to home pose.''],
                  taskSequence := map_option (\<lambda>ts. ts\<lparr>taskManagers := []\<rparr>) (taskSequence s1),
                  controllerStatus := CONTROLLER_STOPPED\<rparr>
          else s1\<lparr>wbiCalls := wbiCalls s1 @ [SetControlMode CTRL_MODE_POS ALL_JOINTS],
                  cout := cout s1 @ [Str ''[ERROR] (OcraControllerServerThread::threadRelease): Could not set the robot into Position Control mode.'']\<rparr>)"
    by (rule threadRelease_result)
  have p: "initialPosture s1 = initialPosture s" using k by (simp add: kept_by_run_def)
  have A: "controllerStatus s' = (if set_position_mode inp then CONTROLLER_STOPPED else controllerStatus s)"
    by (rule threadRelease_status(1)[OF assms])
  have B: "controllerStatus s = CONTROLLER_RUNNING \<longrightarrow>
            (controllerStatus s' = CONTROLLER_STOPPED \<longleftrightarrow> set_position_mode inp)"
    using A by simp
  have C: "\<exists>s1. release_stabilize inp s = Some (Inr s1) \<and>
            s' = (if set_position_mode inp
                  then s1\<lparr>wbiCalls := wbiCalls s1 @ [SetControlMode CTRL_MODE_POS ALL_JOINTS,
                                                      SetControlReference (initialPosture s) ALL_JOINTS],
                          cout := cout s1 @ [Str ''--> Closing controller thread. Switching to POSITION mode and returning to home pose.''],
                          taskSequence := map_option (\<lambda>ts. ts\<lparr>taskManagers := []\<rparr>) (taskSequence s1),
                          controllerStatus := CONTROLLER_STOPPED\<rparr>
                  else s1\<lparr>wbiCalls := wbiCalls s1 @ [SetControlMode CTRL_MODE_POS ALL_JOINTS],
                          cout := cout s1 @ [Str ''[ERROR] (OcraControllerServerThread::threadRelease): Could not set the robot into Position Control mode.'']\<rparr>)"
    using a e p by (intro exI[of _ s1]) simp
  have D: "set_position_mode inp \<longrightarrow> (\<exists>ts. taskSequence s' = Some ts \<and> taskManagers ts = [])"
    using e n by auto
  show ?thesis by (intro conjI) (fact A, fact B, fact C, fact D)
qed

lemma released2_eq:
  "released2 = floating2\<lparr>isStabilizing := True, controllerStatus := CONTROLLER_STOPPED,
        taskSequence := Some \<lparr>taskManagers = [], initCalls = 1, updateCalls = []\<rparr>,
        torques := [24, - 24], time_sim := 5764607523034235 / 576460752303423488,
        wbiCalls := [SetControlMode CTRL_MODE_TORQUE ALL_JOINTS,
                     SetControlReference [24, - 24] ALL_JOINTS,
                     SetControlMode CTRL_MODE_POS ALL_JOINTS,
                     SetControlReference [1, 2] ALL_JOINTS],
        cout := cout floating2 @
                [Str ''Attempting to stabilize the robot's posture. Time elapsed:'',
                 Str ''Stabilization procedure complete!'',
                 Str ''--> Closing controller thread. Switching to POSITION mode and returning to home pose.'']\<rparr>"
  by (simp add: released2_def release2_floating2)

lemma release2_floating2_released2: "threadRelease release2 floating2 = Some (Inr released2)"
  by (simp add: released2_def release2_floating2)

lemma refused2_floating2:
  "\<exists>y. threadRelease refused2 floating2 = Some (Inr y) \<and> controllerStatus y = CONTROLLER_RUNNING \<and>
       last (cout y) = Str ''[ERROR] (OcraControllerServerThread::threadRelease): Could not set the robot into Position Control mode.''"
  apply (simp add: floating2_eq started2_eq release_defs example_defs)
  apply (subst stabilize_loop.simps)
  apply (simp add: example_defs release_defs run_defs)
  done

theorem release_status_witness:
  "threadRelease release2 floating2 = Some (Inr released2) \<and>
   controllerStatus floating2 = CONTROLLER_RUNNING \<and> set_position_mode release2 \<and>
   controllerStatus released2 = CONTROLLER_STOPPED \<and>
   taskSequence released2 = Some \<lparr>taskManagers = [], initCalls = 1, updateCalls = []\<rparr> \<and>
   last (wbiCalls released2) = SetControlReference (initialPosture floating2) ALL_JOINTS \<and>
   \<not> set_position_mode refused2 \<and>
   (\<exists>y. threadRelease refused2 floating2 = Some (Inr y) \<and> controllerStatus y = controllerStatus floating2)"
proof -
  have r: "controllerStatus floating2 = CONTROLLER_RUNNING" "set_position_mode release2"
    "initialPosture floating2 = [1, 2]" "\<not> set_position_mode refused2"
    by (simp_all add: floating2_eq started2_eq release2_def refused2_def)
  from release_status[OF release2_floating2_released2] r
  have a: "controllerStatus released2 = CONTROLLER_STOPPED" by simp
  from refused2_floating2 obtain y where y: "threadRelease refused2 floating2 = Some (Inr y)"
    by blast
  from release_status[OF y] r have "controllerStatus y = controllerStatus floating2" by simp
  with y have b: "\<exists>y. threadRelease refused2 floating2 = Some (Inr y) \<and> controllerStatus y = controllerStatus floating2"
    by blast
  show ?thesis
    using r a b release2_floating2_released2 by (simp add: released2_eq)
qed

subsection \<open>A second release\<close>

lemma release2_released2:
  "\<exists>y. threadRelease release2 released2 = Some (Inr y) \<and> controllerStatus y = CONTROLLER_STOPPED \<and>
       time_sim y = 5764607523034235 / 288230376151711744 \<and>
       count_list (cout y) (Str ''Attempting to stabilize the robot's posture. Time elapsed:'') = 2"
  apply (simp add: released2_eq floating2_eq started2_eq release_defs example_defs)
  apply (subst stabilize_loop.simps)
  apply (simp add: example_defs release_defs run_defs)
  done

text \<open>
  Claim C7, as stated, fails. On the floating base, the first release leaves the status
  STOPPED after one step of stabilization; a second release, called in that state, returns
  and has run the stabilization procedure again: the simulated time has advanced by another
  step, and the message that opens the procedure has been printed twice.
\<close>

theorem second_release_stabilizes_again:
  "threadRelease release2 floating2 = Some (Inr released2) \<and>
   controllerStatus released2 = CONTROLLER_STOPPED \<and>
   time_sim released2 = 5764607523034235 / 576460752303423488 \<and>
   count_list (cout released2) (Str ''Attempting to stabilize the robot's posture. Time elapsed:'') = 1 \<and>
   threadRelease release2 released2 = Some (Inr released_twice2) \<and>
   controllerStatus released_twice2 = CONTROLLER_STOPPED \<and>
   time_sim released_twice2 = 5764607523034235 / 288230376151711744 \<and>
   count_list (cout released_twice2) (Str ''Attempting to stabilize the robot's posture. Time elapsed:'') = 2"
proof -
  from release2_released2 obtain y where
    y: "threadRelease release2 released2 = Some (Inr y)" "controllerStatus y = CONTROLLER_STOPPED"
      "time_sim y = 5764607523034235 / 288230376151711744"
      "count_list (cout y) (Str ''Attempting to stabilize the robot's posture. Time elapsed:'') = 2"
    by blast
  have t: "released_twice2 = y" using y(1) by (simp add: released_twice2_def)
  have a: "controllerStatus released2 = CONTROLLER_STOPPED" "time_sim released2 = 5764607523034235 / 576460752303423488"
    "count_list (cout released2) (Str ''Attempting to stabilize the robot's posture. Time elapsed:'') = 1"
    by (simp_all add: released2_eq floating2_eq started2_eq)
  show ?thesis using y t a release2_floating2_released2 by simp
qed

text \<open>
  Claim C7, amended. \<^verbatim>\<open>threadRelease\<close> reads neither the status nor the flag: whatever
  they are (so also when the status is already STOPPED), on a fixed base with a constructed
  task sequence it returns without a fault, runs no step and leaves the flag as it was;
  on a floating base whose stabilization task set is added, a call that returns has run the
  stabilization procedure, with at least one step, and the flag is set, every time it is
  called.
\<close>

theorem release_has_no_guard:
  "(hasFixedRoot s \<and> taskSequence s \<noteq> None \<longrightarrow>
      (\<exists>s'. threadRelease inp s = Some (Inr s') \<and> isStabilizing s' = isStabilizing s \<and>
            time_sim s' = time_sim s)) \<and>
   (\<not> hasFixedRoot a \<and> stabilization_added inp \<and> threadRelease inp a = Some (Inr a') \<longrightarrow>
      isStabilizing a' \<and>
      (\<exists>k. time_sim a' = time_after (Suc k) a))"
proof -
  have A: "hasFixedRoot s \<and> taskSequence s \<noteq> None \<longrightarrow>
      (\<exists>s'. threadRelease inp s = Some (Inr s') \<and> isStabilizing s' = isStabilizing s \<and>
            time_sim s' = time_sim s)"
    by (auto simp: threadRelease_def release_stabilize_def clearSequence_def
          release_position_mode_def call_def say_def Let_def)
  have B: "\<not> hasFixedRoot a \<and> stabilization_added inp \<and> threadRelease inp a = Some (Inr a') \<longrightarrow>
      isStabilizing a' \<and>
      (\<exists>k. time_sim a' = time_after (Suc k) a)"
  proof
    assume h: "\<not> hasFixedRoot a \<and> stabilization_added inp \<and> threadRelease inp a = Some (Inr a')"
    then have r: "threadRelease inp a = Some (Inr a')" by simp
    from r obtain a1 where a1: "release_stabilize inp a = Some (Inr a1)"
      and p: "release_position_mode inp a1 = Inr a'"
      by (rule threadRelease_Inr)
    have n: "taskSequence a1 \<noteq> None" by (rule release_stabilize_kept(2)[OF a1])
    have t: "time_sim a' = time_sim a1"
      using release_position_mode_Inr[OF n, of inp] p by (auto split: if_splits)
    from a1 h obtain ts where
      st: "stabilizeRobot inp (a\<lparr>taskSequence := Some (ts\<lparr>taskManagers := stabilization_tasks inp\<rparr>)\<rparr>) = Some (Inr a1)"
      by (cases rule: release_stabilize_Inr) auto
    from stabilizeRobot_kept(3)[OF st] obtain k where
      "time_sim a1 = time_after (Suc k) (a\<lparr>taskSequence := Some (ts\<lparr>taskManagers := stabilization_tasks inp\<rparr>)\<rparr>)"
      by blast
    then have "time_sim a1 = time_after (Suc k) a"
      by (simp add: time_after_def getRate_def)
    with t have "\<exists>k. time_sim a' = time_after (Suc k) a"
      by auto
    moreover have "isStabilizing a'"
      using threadRelease_status(2)[OF r] h by simp
    ultimately show "isStabilizing a' \<and>
      (\<exists>k. time_sim a' = time_after (Suc k) a)"
      by simp
  qed
  show ?thesis by (intro conjI) (fact A, fact B)
qed

theorem release_has_no_guard_witness:
  "\<not> hasFixedRoot released2 \<and> stabilization_added release2 \<and>
   controllerStatus released2 = CONTROLLER_STOPPED \<and>
   threadRelease release2 released2 = Some (Inr released_twice2) \<and>
   isStabilizing released_twice2 \<and>
   (\<exists>k. time_sim released_twice2 = time_after (Suc k) released2) \<and>
   hasFixedRoot started2 \<and> taskSequence started2 \<noteq> None \<and>
   (\<exists>s'. threadRelease release2 started2 = Some (Inr s') \<and> isStabilizing s' = isStabilizing started2 \<and>
         time_sim s' = time_sim started2)"
proof -
  from release2_released2 obtain y where
    y: "threadRelease release2 released2 = Some (Inr y)" by blast
  have t: "threadRelease release2 released2 = Some (Inr released_twice2)"
    using y by (simp add: released_twice2_def)
  have h: "\<not> hasFixedRoot released2" "stabilization_added release2"
    "controllerStatus released2 = CONTROLLER_STOPPED"
    by (simp_all add: released2_eq floating2_eq started2_eq release2_def)
  have f: "hasFixedRoot started2" "taskSequence started2 \<noteq> None"
    by (simp_all add: started2_eq)
  note T = release_has_no_guard[where s = started2 and inp = release2 and a = released2
      and a' = released_twice2]
  from T[THEN conjunct1, rule_format, OF conjI[OF f]]
  have A: "\<exists>s'. threadRelease release2 started2 = Some (Inr s') \<and> isStabilizing s' = isStabilizing started2 \<and>
         time_sim s' = time_sim started2" .
  from T[THEN conjunct2, rule_format, OF conjI[OF h(1) conjI[OF h(2) t]]]
  have B: "isStabilizing released_twice2"
    "\<exists>k. time_sim released_twice2 = time_after (Suc k) released2"
    by simp_all
  show ?thesis
    by (intro conjI) (fact h(1), fact h(2), fact h(3), fact t, fact B(1), fact B(2), fact f(1), fact f(2), fact A)
qed

subsection \<open>The task sequence during stabilization\<close>

lemma steps_stabilizing:
  assumes "steps inps s = Inr s'" and "isStabilizing s"
  shows "isStabilizing s' \<and> taskSequence s' = taskSequence s"
  using assms
proof (induction inps arbitrary: s)
  case Nil
  then show ?case by simp
next
  case (Cons inp inps)
  then obtain s1 where r: "run inp s = Inr s1" and rest: "steps inps s1 = Inr s'"
    by (auto split: sum.splits)
  have "isStabilizing s1" using run_kept[OF r] Cons.prems(2) by (simp add: kept_by_run_def)
  moreover have "taskSequence s1 = taskSequence s" using run_sequence[OF r] Cons.prems(2) by simp
  ultimately show ?case using Cons.IH[OF rest] by simp
qed

text \<open>
  Claim C8. While the flag is set, a call of \<^verbatim>\<open>run\<close> that returns leaves the task
  sequence as it was, so \<^verbatim>\<open>update\<close> is not called, and so does any number of calls in
  a row. Over the whole of \<^verbatim>\<open>stabilizeRobot\<close> the sequence keeps its record of
  \<^verbatim>\<open>update\<close> and \<^verbatim>\<open>init\<close> calls and the names of its managers, every manager under
  another name than the three stabilization names is what it was, and the three hold the
  posture, the centre of mass and the torso position captured at initialisation.
\<close>

theorem no_update_while_stabilizing:
  "(isStabilizing s \<and> run inp s = Inr s' \<longrightarrow> taskSequence s' = taskSequence s) \<and>
   (isStabilizing a \<and> steps inps a = Inr a' \<longrightarrow> isStabilizing a' \<and> taskSequence a' = taskSequence a) \<and>
   (stabilizeRobot i b = Some (Inr b') \<longrightarrow>
      (\<exists>ts ts'. taskSequence b = Some ts \<and> taskSequence b' = Some ts' \<and>
         updateCalls ts' = updateCalls ts \<and> initCalls ts' = initCalls ts \<and>
         map fst (taskManagers ts') = map fst (taskManagers ts) \<and>
         (\<forall>k. k \<notin> stabilization_keys \<longrightarrow> map_of (taskManagers ts') k = map_of (taskManagers ts) k) \<and>
         map_of (taskManagers ts') ''stabilization_fullPosture'' = Some (FullPostureTaskManager (initialPosture b)) \<and>
         map_of (taskManagers ts') ''stabilization_comTask'' = Some (CoMTaskManager (initialCoMPosition b)) \<and>
         map_of (taskManagers ts') ''stabilization_torsoCartesianTask'' =
           Some (SegCartesianTaskManager (initialTorsoPosition b))))"
proof -
  have A: "isStabilizing s \<and> run inp s = Inr s' \<longrightarrow> taskSequence s' = taskSequence s"
    using run_sequence[of inp s s'] by simp
  have B: "isStabilizing a \<and> steps inps a = Inr a' \<longrightarrow> isStabilizing a' \<and> taskSequence a' = taskSequence a"
    using steps_stabilizing[of inps a a'] by simp
  have C: "stabilizeRobot i b = Some (Inr b') \<longrightarrow>
      (\<exists>ts ts'. taskSequence b = Some ts \<and> taskSequence b' = Some ts' \<and>
         updateCalls ts' = updateCalls ts \<and> initCalls ts' = initCalls ts \<and>
         map fst (taskManagers ts') = map fst (taskManagers ts) \<and>
         (\<forall>k. k \<notin> stabilization_keys \<longrightarrow> map_of (taskManagers ts') k = map_of (taskManagers ts) k) \<and>
         map_of (taskManagers ts') ''stabilization_fullPosture'' = Some (FullPostureTaskManager (initialPosture b)) \<and>
         map_of (taskManagers ts') ''stabilization_comTask'' = Some (CoMTaskManager (initialCoMPosition b)) \<and>
         map_of (taskManagers ts') ''stabilization_torsoCartesianTask'' =
           Some (SegCartesianTaskManager (initialTorsoPosition b)))"
  proof
    assume h: "stabilizeRobot i b = Some (Inr b')"
    from stabilizeRobot_kept(2)[OF h] obtain b1 where
      r: "retarget_stabilization_tasks b = Inr b1" and e: "taskSequence b' = taskSequence b1" by blast
    from retarget_stabilization_tasks_Inr[OF r] obtain ts ts' where
      t: "taskSequence b = Some ts" "b1 = b\<lparr>isStabilizing := True, taskSequence := Some ts'\<rparr>"
      "updateCalls ts' = updateCalls ts" "initCalls ts' = initCalls ts"
      "map fst (taskManagers ts') = map fst (taskManagers ts)"
      "\<forall>k. k \<notin> stabilization_keys \<longrightarrow> map_of (taskManagers ts') k = map_of (taskManagers ts) k"
      "map_of (taskManagers ts') ''stabilization_fullPosture'' = Some (FullPostureTaskManager (initialPosture b))"
      "map_of (taskManagers ts') ''stabilization_comTask'' = Some (CoMTaskManager (initialCoMPosition b))"
      "map_of (taskManagers ts') ''stabilization_torsoCartesianTask'' =
           Some (SegCartesianTaskManager (initialTorsoPosition b))"
      by blast
    have "taskSequence b' = Some ts'" using e t(2) by simp
    with t show "\<exists>ts ts'. taskSequence b = Some ts \<and> taskSequence b' = Some ts' \<and>
         updateCalls ts' = updateCalls ts \<and> initCalls ts' = initCalls ts \<and>
         map fst (taskManagers ts') = map fst (taskManagers ts) \<and>
         (\<forall>k. k \<notin> stabilization_keys \<longrightarrow> map_of (taskManagers ts') k = map_of (taskManagers ts) k) \<and>
         map_of (taskManagers ts') ''stabilization_fullPosture'' = Some (FullPostureTaskManager (initialPosture b)) \<and>
         map_of (taskManagers ts') ''stabilization_comTask'' = Some (CoMTaskManager (initialCoMPosition b)) \<and>
         map_of (taskManagers ts') ''stabilization_torsoCartesianTask'' =
           Some (SegCartesianTaskManager (initialTorsoPosition b))"
      by (intro exI[of _ ts] exI[of _ ts']) simp
  qed
  show ?thesis by (intro conjI) (fact A, fact B, fact C)
qed

lemma run_step2_released2:
  "\<exists>y. run step2 released2 = Inr y"
  by (simp add: released2_eq floating2_eq started2_eq run_defs example_defs)

lemma steps2_released2:
  "\<exists>y. steps [step2, moving2] released2 = Inr y"
  by (simp add: released2_eq floating2_eq started2_eq run_defs example_defs)

lemma stabilizeRobot_loaded2:
  "\<exists>y. stabilizeRobot release2 loaded2 = Some (Inr y)"
  apply (simp add: loaded2_eq started2_eq release_defs example_defs)
  apply (subst stabilize_loop.simps)
  apply (simp add: example_defs release_defs run_defs)
  done

theorem no_update_while_stabilizing_witness:
  "isStabilizing released2 \<and>
   run step2 released2 = Inr (projr (run step2 released2)) \<and>
   taskSequence (projr (run step2 released2)) = taskSequence released2 \<and>
   steps [step2, moving2] released2 = Inr (projr (steps [step2, moving2] released2)) \<and>
   taskSequence (projr (steps [step2, moving2] released2)) = taskSequence released2 \<and>
   stabilizeRobot release2 loaded2 = Some (Inr (projr (the (stabilizeRobot release2 loaded2)))) \<and>
   map_option updateCalls (taskSequence (projr (the (stabilizeRobot release2 loaded2)))) = Some [] \<and>
   map_option taskManagers (taskSequence (projr (the (stabilizeRobot release2 loaded2)))) =
     Some [(''stabilization_fullPosture'', FullPostureTaskManager [1, 2]),
           (''stabilization_comTask'', CoMTaskManager [0, 0, 1]),
           (''stabilization_torsoCartesianTask'', SegCartesianTaskManager [0, 0, 2])]"
proof -
  have st: "isStabilizing released2" by (simp add: released2_eq)
  from run_step2_released2 have r: "run step2 released2 = Inr (projr (run step2 released2))" by auto
  from steps2_released2 have q: "steps [step2, moving2] released2 = Inr (projr (steps [step2, moving2] released2))"
    by auto
  from stabilizeRobot_loaded2
  have z: "stabilizeRobot release2 loaded2 = Some (Inr (projr (the (stabilizeRobot release2 loaded2))))"
    by (auto dest: Some_Inr_the)
  note T = no_update_while_stabilizing[where s = released2 and inp = step2
      and s' = "projr (run step2 released2)" and a = released2 and inps = "[step2, moving2]"
      and a' = "projr (steps [step2, moving2] released2)" and i = release2 and b = loaded2
      and b' = "projr (the (stabilizeRobot release2 loaded2))"]
  from T[THEN conjunct1, rule_format, OF conjI[OF st r]]
  have A: "taskSequence (projr (run step2 released2)) = taskSequence released2" .
  from T[THEN conjunct2, THEN conjunct1, rule_format, OF conjI[OF st q]]
  have B: "taskSequence (projr (steps [step2, moving2] released2)) = taskSequence released2" by simp
  from T[THEN conjunct2, THEN conjunct2, rule_format, OF z] obtain ts ts' where
    c: "taskSequence loaded2 = Some ts" "taskSequence (projr (the (stabilizeRobot release2 loaded2))) = Some ts'"
       "updateCalls ts' = updateCalls ts" by blast
  have l: "taskSequence loaded2 = Some \<lparr>taskManagers = stabilization_set, initCalls = 1, updateCalls = []\<rparr>"
    by (simp add: loaded2_eq)
  have "updateCalls ts = []" using c(1) l by auto
  then have C: "map_option updateCalls (taskSequence (projr (the (stabilizeRobot release2 loaded2)))) = Some []"
    using c(2,3) by simp
  have D: "map_option taskManagers (taskSequence (projr (the (stabilizeRobot release2 loaded2)))) =
     Some [(''stabilization_fullPosture'', FullPostureTaskManager [1, 2]),
           (''stabilization_comTask'', CoMTaskManager [0, 0, 1]),
           (''stabilization_torsoCartesianTask'', SegCartesianTaskManager [0, 0, 2])]"
    apply (simp add: loaded2_eq started2_eq release_defs example_defs)
    apply (subst stabilize_loop.simps)
    apply (simp add: example_defs release_defs run_defs)
    done
  show ?thesis by (intro conjI) (fact st, fact r, fact A, fact q, fact B, fact z, fact C, fact D)
qed

subsection \<open>The command handler\<close>

lemma handle_message_reply:
  "fst (handle_message val (asInt b) reply s) = reply @ reply_for val s b"
  by (simp add: handle_message_def reply_for_def)

lemma handle_message_thread:
  "snd (handle_message val k reply s) = s\<lparr>cout := cout (snd (handle_message val k reply s))\<rparr>"
  "length (cout (snd (handle_message val k reply s))) = Suc (length (cout s))"
  by (simp_all add: handle_message_def say_def)

lemma reply_for_cout: "reply_for val (s\<lparr>cout := c\<rparr>) = reply_for val s"
  by (rule ext) (simp add: reply_for_def)

lemma parse_from_result:
  "parse_from val input i reply s = (reply', s') \<Longrightarrow>
     reply' = reply @ concat (map (reply_for val s) (drop i input)) \<and>
     s' = s\<lparr>cout := cout s'\<rparr> \<and>
     length (cout s') = length (cout s) + (length input - i)"
proof (induction val input i reply s arbitrary: reply' s' rule: parse_from.induct)
  case (1 val input i reply s)
  show ?case
  proof (cases "i < length input")
    case False
    with "1.prems" show ?thesis by (subst (asm) parse_from.simps) simp
  next
    case True
    obtain r1 s1 where h: "handle_message val (asInt (input ! i)) reply s = (r1, s1)"
      by (cases "handle_message val (asInt (input ! i)) reply s") auto
    from handle_message_reply[of val "input ! i" reply s] h
    have r1: "r1 = reply @ reply_for val s (input ! i)" by simp
    from handle_message_thread[of val "asInt (input ! i)" reply s] h
    have s1: "s1 = s\<lparr>cout := cout s1\<rparr>" "length (cout s1) = Suc (length (cout s))" by simp_all
    from "1.prems" True h have rec: "parse_from val input (Suc i) r1 s1 = (reply', s')"
      by (subst (asm) parse_from.simps) simp
    from "1.IH"[OF True h[symmetric] rec]
    have ih: "reply' = r1 @ concat (map (reply_for val s1) (drop (Suc i) input))"
      "s' = s1\<lparr>cout := cout s'\<rparr>" "length (cout s') = length (cout s1) + (length input - Suc i)"
      by simp_all
    have rf: "reply_for val s1 = reply_for val s"
      by (subst s1(1)) (simp add: reply_for_cout)
    have d: "drop i input = input ! i # drop (Suc i) input"
      using True by (simp add: Cons_nth_drop_Suc)
    have a: "reply' = reply @ concat (map (reply_for val s) (drop i input))"
      using ih(1) r1 rf d by simp
    have b: "s' = s\<lparr>cout := cout s'\<rparr>"
      by (subst ih(2), subst s1(1)) simp
    have c: "length (cout s') = length (cout s) + (length input - i)"
      using ih(3) s1(2) True by simp
    from a b c show ?thesis by simp
  qed
qed

lemma parseIncomingMessage_result:
  assumes "parseIncomingMessage val input reply s = (reply', s')"
  shows "reply' = reply @ concat (map (reply_for val s) input)"
    and "s' = s\<lparr>cout := cout s'\<rparr>"
    and "length (cout s') = length (cout s) + length input"
  using parse_from_result[of val input 0 reply s reply' s'] assms
  by (simp_all add: parseIncomingMessage_def)

lemma parseIncomingMessage_kept:
  "kept_by_run (snd (parseIncomingMessage val input reply s)) = kept_by_run s"
  "taskSequence (snd (parseIncomingMessage val input reply s)) = taskSequence s"
proof -
  obtain r' s' where e: "parseIncomingMessage val input reply s = (r', s')"
    by (cases "parseIncomingMessage val input reply s") auto
  have k: "kept_by_run s' = kept_by_run s" "taskSequence s' = taskSequence s"
    by (subst parseIncomingMessage_result(2)[OF e], simp add: kept_by_run_def)+
  show "kept_by_run (snd (parseIncomingMessage val input reply s)) = kept_by_run s"
    "taskSequence (snd (parseIncomingMessage val input reply s)) = taskSequence s"
    using e k by simp_all
qed

text \<open>
  Claim C9. Handling a message leaves the thread as it was but for what is printed, one
  line per value of the bottle; in particular the status is what it was, also for the
  values of START_CONTROLLER, STOP_CONTROLLER and PAUSE_CONTROLLER, for which, as for every
  value but those of the three queries, nothing is appended to the reply. The reply grows
  by the status for a status query and by the configuration path and the robot name for
  those queries, in the order of the values. The status is STOPPED at construction; a step
  leaves it; \<^verbatim>\<open>threadInit\<close> sets it to RUNNING exactly when it returns true, and
  \<^verbatim>\<open>threadRelease\<close> sets it to STOPPED exactly when the switch to position mode succeeds.
\<close>

theorem command_handler_frame:
  "(parseIncomingMessage val input reply s = (reply', s') \<longrightarrow>
      controllerStatus s' = controllerStatus s \<and> s' = s\<lparr>cout := cout s'\<rparr> \<and>
      length (cout s') = length (cout s) + length input \<and>
      reply' = reply @ concat (map (reply_for val s) input)) \<and>
   (inj val \<longrightarrow>
      reply_for val s (BInt (val START_CONTROLLER)) = [] \<and>
      reply_for val s (BInt (val STOP_CONTROLLER)) = [] \<and>
      reply_for val s (BInt (val PAUSE_CONTROLLER)) = []) \<and>
   controllerStatus (OcraControllerServerThread opts ci) = CONTROLLER_STOPPED \<and>
   (run inp a = Inr a' \<longrightarrow> controllerStatus a' = controllerStatus a) \<and>
   (threadInit ii b = Inr (r, b') \<longrightarrow>
      controllerStatus b' = (if r then CONTROLLER_RUNNING else controllerStatus b)) \<and>
   (threadRelease ri c = Some (Inr c') \<longrightarrow>
      controllerStatus c' = (if set_position_mode ri then CONTROLLER_STOPPED else controllerStatus c))"
proof -
  have A: "parseIncomingMessage val input reply s = (reply', s') \<longrightarrow>
      controllerStatus s' = controllerStatus s \<and> s' = s\<lparr>cout := cout s'\<rparr> \<and>
      length (cout s') = length (cout s) + length input \<and>
      reply' = reply @ concat (map (reply_for val s) input)"
  proof
    assume e: "parseIncomingMessage val input reply s = (reply', s')"
    have "controllerStatus s' = controllerStatus s"
      by (subst parseIncomingMessage_result(2)[OF e]) simp
    then show "controllerStatus s' = controllerStatus s \<and> s' = s\<lparr>cout := cout s'\<rparr> \<and>
      length (cout s') = length (cout s) + length input \<and>
      reply' = reply @ concat (map (reply_for val s) input)"
      using parseIncomingMessage_result[OF e] by simp
  qed
  have B: "inj val \<longrightarrow>
      reply_for val s (BInt (val START_CONTROLLER)) = [] \<and>
      reply_for val s (BInt (val STOP_CONTROLLER)) = [] \<and>
      reply_for val s (BInt (val PAUSE_CONTROLLER)) = []"
    by (simp add: reply_for_def inj_eq)
  have C: "controllerStatus (OcraControllerServerThread opts ci) = CONTROLLER_STOPPED"
    by (simp add: OcraControllerServerThread_def)
  have D: "run inp a = Inr a' \<longrightarrow> controllerStatus a' = controllerStatus a"
    using run_kept[of inp a a'] by (simp add: kept_by_run_def)
  have E: "threadInit ii b = Inr (r, b') \<longrightarrow>
      controllerStatus b' = (if r then CONTROLLER_RUNNING else controllerStatus b)"
    using threadInit_kept[of ii b r b'] by simp
  have F: "threadRelease ri c = Some (Inr c') \<longrightarrow>
      controllerStatus c' = (if set_position_mode ri then CONTROLLER_STOPPED else controllerStatus c)"
    using threadRelease_status(1)[of ri c c'] by simp
  show ?thesis by (intro conjI) (fact A, fact B, fact C, fact D, fact E, fact F)
qed

lemma inj_val0: "inj val0"
proof (rule injI)
  fix x y assume "val0 x = val0 y"
  then show "x = y" by (cases x; cases y; simp)
qed

lemma parse_example:
  "parseIncomingMessage val0
     [BInt 1, BInt 4, BInt 5, BInt 6, BInt 2, BString ''hello'', BInt 3, BInt 99] [] started2 =
   ([BInt 14, BString [], BString []],
    started2\<lparr>cout := cout started2 @
      [Str ''Got message: GET_CONTROLLER_STATUS.'', Str ''Got message: START_CONTROLLER.'',
       Str ''Got message: STOP_CONTROLLER.'', Str ''Got message: PAUSE_CONTROLLER.'',
       Str ''Got message: GET_WBI_CONFIG_FILE_PATH.'', Str ''Got message: UNKNOWN.'',
       Str ''Got message: GET_ROBOT_NAME.'', Str ''Got message: UNKNOWN.'']\<rparr>)"
  by (simp add: parseIncomingMessage_def parse_from.simps handle_message_def say_def started2_eq
        xml_options_def OcraControllerOptions_default_def)

theorem command_handler_frame_witness:
  "parseIncomingMessage val0
     [BInt 1, BInt 4, BInt 5, BInt 6, BInt 2, BString ''hello'', BInt 3, BInt 99] [] started2 =
   ([BInt 14, BString [], BString []],
    started2\<lparr>cout := cout started2 @
      [Str ''Got message: GET_CONTROLLER_STATUS.'', Str ''Got message: START_CONTROLLER.'',
       Str ''Got message: STOP_CONTROLLER.'', Str ''Got message: PAUSE_CONTROLLER.'',
       Str ''Got message: GET_WBI_CONFIG_FILE_PATH.'', Str ''Got message: UNKNOWN.'',
       Str ''Got message: GET_ROBOT_NAME.'', Str ''Got message: UNKNOWN.'']\<rparr>) \<and>
   controllerStatus (started2\<lparr>cout := cout started2 @
      [Str ''Got message: GET_CONTROLLER_STATUS.'', Str ''Got message: START_CONTROLLER.'',
       Str ''Got message: STOP_CONTROLLER.'', Str ''Got message: PAUSE_CONTROLLER.'',
       Str ''Got message: GET_WBI_CONFIG_FILE_PATH.'', Str ''Got message: UNKNOWN.'',
       Str ''Got message: GET_ROBOT_NAME.'', Str ''Got message: UNKNOWN.'']\<rparr>) = controllerStatus started2 \<and>
   controllerStatus started2 = CONTROLLER_RUNNING \<and>
   inj val0 \<and> reply_for val0 started2 (BInt (val0 PAUSE_CONTROLLER)) = [] \<and>
   run step2 started2 = Inr (projr (run step2 started2)) \<and>
   controllerStatus (projr (run step2 started2)) = controllerStatus started2 \<and>
   threadInit init2 (OcraControllerServerThread xml_options robot2) = Inr (True, started2) \<and>
   threadRelease release2 floating2 = Some (Inr released2) \<and>
   controllerStatus released2 = CONTROLLER_STOPPED"
proof -
  note T = command_handler_frame[where val = val0
      and input = "[BInt 1, BInt 4, BInt 5, BInt 6, BInt 2, BString ''hello'', BInt 3, BInt 99]"
      and reply = "[]" and s = started2 and inp = step2 and a = started2
      and a' = "projr (run step2 started2)" and ii = init2
      and b = "OcraControllerServerThread xml_options robot2" and r = True and b' = started2
      and ri = release2 and c = floating2 and c' = released2]
  have r: "run step2 started2 = Inr (projr (run step2 started2))"
    by (simp add: run_step2_started2)
  have p: "set_position_mode release2" by (simp add: release2_def)
  from T[THEN conjunct1, rule_format, OF parse_example, THEN conjunct1]
  have A: "controllerStatus (started2\<lparr>cout := cout started2 @
      [Str ''Got message: GET_CONTROLLER_STATUS.'', Str ''Got message: START_CONTROLLER.'',
       Str ''Got message: STOP_CONTROLLER.'', Str ''Got message: PAUSE_CONTROLLER.'',
       Str ''Got message: GET_WBI_CONFIG_FILE_PATH.'', Str ''Got message: UNKNOWN.'',
       Str ''Got message: GET_ROBOT_NAME.'', Str ''Got message: UNKNOWN.'']\<rparr>) = controllerStatus started2" .
  from T[THEN conjunct2, THEN conjunct1, rule_format, OF inj_val0]
  have B: "reply_for val0 started2 (BInt (val0 PAUSE_CONTROLLER)) = []" by simp
  from T[THEN conjunct2, THEN conjunct2, THEN conjunct2, THEN conjunct1, rule_format, OF r]
  have D: "controllerStatus (projr (run step2 started2)) = controllerStatus started2" .
  from T[THEN conjunct2, THEN conjunct2, THEN conjunct2, THEN conjunct2, THEN conjunct1, rule_format,
      OF threadInit_started2]
  have E: "controllerStatus started2 = CONTROLLER_RUNNING" by simp
  from T[THEN conjunct2, THEN conjunct2, THEN conjunct2, THEN conjunct2, THEN conjunct2, rule_format,
      OF release2_floating2_released2] p
  have F: "controllerStatus released2 = CONTROLLER_STOPPED" by simp
  show ?thesis
    by (intro conjI)
       (fact parse_example, fact A, fact E, fact inj_val0, fact B, fact r, fact D,
        fact threadInit_started2, fact release2_floating2_released2, fact F)
qed

subsection \<open>The flag over a lifetime\<close>

lemma fire_flag:
  assumes "fire val e s = Some (Inr s')"
  shows "isStabilizing s \<longrightarrow> isStabilizing s'"
    and "(\<forall>ri. e \<noteq> Release ri) \<longrightarrow> isStabilizing s' = isStabilizing s"
proof -
  have "(isStabilizing s \<longrightarrow> isStabilizing s') \<and>
        ((\<forall>ri. e \<noteq> Release ri) \<longrightarrow> isStabilizing s' = isStabilizing s)"
  proof (cases e)
    case (Init inp)
    with assms have m: "map_sum id snd (threadInit inp s) = Inr s'" by simp
    then obtain p where p: "threadInit inp s = Inr p" by (cases "threadInit inp s") simp_all
    obtain r x where rx: "p = (r, x)" by (cases p)
    from m p rx have "threadInit inp s = Inr (r, s')" by simp
    from threadInit_kept[OF this] show ?thesis by simp
  next
    case (Step inp)
    with assms have "run inp s = Inr s'" by simp
    from run_kept[OF this] show ?thesis by (simp add: kept_by_run_def)
  next
    case (Release inp)
    with assms have "threadRelease inp s = Some (Inr s')" by simp
    from threadRelease_status(2)[OF this] Release show ?thesis by simp
  next
    case (Message input)
    with assms have "s' = snd (parseIncomingMessage val input [] s)" by simp
    with parseIncomingMessage_kept(1)[of val input "[]" s] show ?thesis
      by (simp add: kept_by_run_def)
  qed
  then show "isStabilizing s \<longrightarrow> isStabilizing s'"
    and "(\<forall>ri. e \<noteq> Release ri) \<longrightarrow> isStabilizing s' = isStabilizing s"
    by simp_all
qed

lemma life_flag:
  assumes "life val es s = Some (Inr s')"
  shows "isStabilizing s \<longrightarrow> isStabilizing s'"
    and "(\<forall>x \<in> set es. \<forall>ri. x \<noteq> Release ri) \<longrightarrow> isStabilizing s' = isStabilizing s"
proof -
  have "(isStabilizing s \<longrightarrow> isStabilizing s') \<and>
        ((\<forall>x \<in> set es. \<forall>ri. x \<noteq> Release ri) \<longrightarrow> isStabilizing s' = isStabilizing s)"
    using assms
  proof (induction es arbitrary: s)
    case Nil
    then show ?case by simp
  next
    case (Cons e es)
    then obtain s1 where f: "fire val e s = Some (Inr s1)" and l: "life val es s1 = Some (Inr s')"
      by (auto split: option.splits sum.splits)
    from fire_flag[OF f] Cons.IH[OF l] show ?case by auto
  qed
  then show "isStabilizing s \<longrightarrow> isStabilizing s'"
    and "(\<forall>x \<in> set es. \<forall>ri. x \<noteq> Release ri) \<longrightarrow> isStabilizing s' = isStabilizing s"
    by simp_all
qed

text \<open>
  Claim C10. The flag is false in the constructed thread; \<^verbatim>\<open>threadInit\<close>, \<^verbatim>\<open>run\<close> and
  the command handler leave it as it is; \<^verbatim>\<open>stabilizeRobot\<close> returns with the flag set,
  and after \<^verbatim>\<open>threadRelease\<close> it is set exactly if it was set before or
  \<^verbatim>\<open>stabilizeRobot\<close> was entered (the base is floating and the stabilization task set
  was added). So over any sequence of calls without a release the flag of the constructed
  thread stays false, and once the flag is set it is set after any sequence of calls
  whatever, and every step from there on leaves the task sequence without an update.
\<close>

theorem stabilizing_flag_is_never_reset:
  "\<not> isStabilizing (OcraControllerServerThread opts ci) \<and>
   (threadInit ii a = Inr (r, a') \<longrightarrow> isStabilizing a' = isStabilizing a) \<and>
   (run inp b = Inr b' \<longrightarrow> isStabilizing b' = isStabilizing b) \<and>
   isStabilizing (snd (parseIncomingMessage val input reply c)) = isStabilizing c \<and>
   (stabilizeRobot ri d = Some (Inr d') \<longrightarrow> isStabilizing d') \<and>
   (threadRelease ri e = Some (Inr e') \<longrightarrow>
      isStabilizing e' = (isStabilizing e \<or> (\<not> hasFixedRoot e \<and> stabilization_added ri))) \<and>
   (life val es (OcraControllerServerThread opts ci) = Some (Inr f) \<and>
    (\<forall>x \<in> set es. \<forall>ri. x \<noteq> Release ri) \<longrightarrow> \<not> isStabilizing f) \<and>
   (isStabilizing g \<and> life val es' g = Some (Inr g') \<longrightarrow>
      isStabilizing g' \<and> (\<forall>inp g''. run inp g' = Inr g'' \<longrightarrow> taskSequence g'' = taskSequence g'))"
proof -
  have A: "\<not> isStabilizing (OcraControllerServerThread opts ci)"
    by (simp add: OcraControllerServerThread_def)
  have B: "threadInit ii a = Inr (r, a') \<longrightarrow> isStabilizing a' = isStabilizing a"
    using threadInit_kept[of ii a r a'] by simp
  have C: "run inp b = Inr b' \<longrightarrow> isStabilizing b' = isStabilizing b"
    using run_kept[of inp b b'] by (simp add: kept_by_run_def)
  have D: "isStabilizing (snd (parseIncomingMessage val input reply c)) = isStabilizing c"
    using parseIncomingMessage_kept(1)[of val input reply c] by (simp add: kept_by_run_def)
  have E: "stabilizeRobot ri d = Some (Inr d') \<longrightarrow> isStabilizing d'"
    using stabilizeRobot_kept(1)[of ri d d'] by (simp add: kept_by_run_def)
  have F: "threadRelease ri e = Some (Inr e') \<longrightarrow>
      isStabilizing e' = (isStabilizing e \<or> (\<not> hasFixedRoot e \<and> stabilization_added ri))"
    using threadRelease_status(2)[of ri e e'] by simp
  have G: "life val es (OcraControllerServerThread opts ci) = Some (Inr f) \<and>
    (\<forall>x \<in> set es. \<forall>ri. x \<noteq> Release ri) \<longrightarrow> \<not> isStabilizing f"
    using life_flag(2)[of val es "OcraControllerServerThread opts ci" f] A by simp
  have H: "isStabilizing g \<and> life val es' g = Some (Inr g') \<longrightarrow>
      isStabilizing g' \<and> (\<forall>inp g''. run inp g' = Inr g'' \<longrightarrow> taskSequence g'' = taskSequence g')"
  proof
    assume h: "isStabilizing g \<and> life val es' g = Some (Inr g')"
    then have s: "isStabilizing g'" using life_flag(1)[of val es' g g'] by simp
    have "taskSequence g'' = taskSequence g'" if "run inp g' = Inr g''" for inp g''
      using run_sequence[OF that] s by simp
    with s show "isStabilizing g' \<and> (\<forall>inp g''. run inp g' = Inr g'' \<longrightarrow> taskSequence g'' = taskSequence g')"
      by simp
  qed
  show ?thesis by (intro conjI) (fact A, fact B, fact C, fact D, fact E, fact F, fact G, fact H)
qed

lemma life_example_before:
  "\<exists>y. life val0 [Init init2, Step step2, Message [BInt 1]] (OcraControllerServerThread floating_xml_options robot2)
         = Some (Inr y)"
  by (simp add: example_defs init_defs run_defs numeral_2_eq_2 parseIncomingMessage_def parse_from.simps
        handle_message_def)

lemma life_example_after:
  "\<exists>y. life val0 [Step step2, Message [BInt 1], Step moving2] released2 = Some (Inr y)"
  by (simp add: released2_eq floating2_eq started2_eq example_defs run_defs parseIncomingMessage_def
        parse_from.simps handle_message_def)

theorem stabilizing_flag_is_never_reset_witness:
  "life val0 [Init init2, Step step2, Message [BInt 1]] (OcraControllerServerThread floating_xml_options robot2)
     = Some (Inr (projr (the (life val0 [Init init2, Step step2, Message [BInt 1]]
          (OcraControllerServerThread floating_xml_options robot2))))) \<and>
   \<not> isStabilizing (projr (the (life val0 [Init init2, Step step2, Message [BInt 1]]
          (OcraControllerServerThread floating_xml_options robot2)))) \<and>
   \<not> isStabilizing floating2 \<and> \<not> hasFixedRoot floating2 \<and> stabilization_added release2 \<and>
   threadRelease release2 floating2 = Some (Inr released2) \<and>
   isStabilizing released2 \<and>
   life val0 [Step step2, Message [BInt 1], Step moving2] released2
     = Some (Inr (projr (the (life val0 [Step step2, Message [BInt 1], Step moving2] released2)))) \<and>
   isStabilizing (projr (the (life val0 [Step step2, Message [BInt 1], Step moving2] released2)))"
proof -
  let ?es = "[Init init2, Step step2, Message [BInt 1]]"
  let ?c = "OcraControllerServerThread floating_xml_options robot2"
  let ?es' = "[Step step2, Message [BInt 1], Step moving2]"
  from life_example_before have l1: "life val0 ?es ?c = Some (Inr (projr (the (life val0 ?es ?c))))"
    by (auto dest: Some_Inr_the)
  from life_example_after have l2: "life val0 ?es' released2 = Some (Inr (projr (the (life val0 ?es' released2))))"
    by (auto dest: Some_Inr_the)
  have nr: "\<forall>x \<in> set ?es. \<forall>ri. x \<noteq> Release ri" by simp
  have h: "\<not> isStabilizing floating2" "\<not> hasFixedRoot floating2" "stabilization_added release2"
    by (simp_all add: floating2_eq started2_eq release2_def)
  note T = stabilizing_flag_is_never_reset[where val = val0 and es = ?es and opts = floating_xml_options
      and ci = robot2 and f = "projr (the (life val0 ?es ?c))" and ri = release2 and e = floating2
      and e' = released2 and g = released2 and es' = ?es' and g' = "projr (the (life val0 ?es' released2))"]
  from T[THEN conjunct2, THEN conjunct2, THEN conjunct2, THEN conjunct2, THEN conjunct2, THEN conjunct2,
      THEN conjunct1, rule_format, OF conjI[OF l1 nr]]
  have G: "\<not> isStabilizing (projr (the (life val0 ?es ?c)))" .
  from T[THEN conjunct2, THEN conjunct2, THEN conjunct2, THEN conjunct2, THEN conjunct2, THEN conjunct1,
      rule_format, OF release2_floating2_released2] h
  have F: "isStabilizing released2" by simp
  from T[THEN conjunct2, THEN conjunct2, THEN conjunct2, THEN conjunct2, THEN conjunct2, THEN conjunct2,
      THEN conjunct2, rule_format, OF conjI[OF F l2]]
  have H: "isStabilizing (projr (the (life val0 ?es' released2)))" by simp
  show ?thesis
    by (intro conjI)
       (fact l1, fact G, fact h(1), fact h(2), fact h(3), fact release2_floating2_released2, fact F,
        fact l2, fact H)
qed

subsection \<open>The torque clamp\<close>

lemma run_clamps:
  assumes ok: "run inp s = Inr s'"
      and bounds: "\<forall>i < length (minTorques s). minTorques s ! i \<le> maxTorques s ! i"
  shows "length (torques s') = length (minTorques s) \<and>
         (\<forall>i < length (torques s'). minTorques s ! i \<le> torques s' ! i \<and> torques s' ! i \<le> maxTorques s ! i) \<and>
         (\<exists>before. wbiCalls s' = before @
            [if runInDebugMode (ctrlOptions s)
             then SetControlReference [torques s' ! nat (debugJointIndex s')] (Joint (debugJointIndex s'))
             else SetControlReference (torques s') ALL_JOINTS]) \<and>
         (runInDebugMode (ctrlOptions s) \<longrightarrow>
            0 \<le> debugJointIndex s' \<and> nat (debugJointIndex s') < length (torques s'))"
proof -
  from ok obtain s1 s2 s3 where
    s1: "update_tasks inp (update_model inp s) = Inr s1" and
    s2: "threshold_torques (s1\<lparr>torques := computeOutput inp\<rparr>) = Inr s2" and
    s3: "send_torques s2 = Inr s3" and
    s': "s' = s3\<lparr>time_sim := dadd (time_sim s3) (dmul TIME_MSEC_TO_SEC (getRate s3))\<rparr>"
    by (rule run_Inr)
  have "kept_by_run s1 = kept_by_run s"
    using update_tasks_kept[OF s1] update_model_kept by simp
  then have f1: "ctrlOptions s1 = ctrlOptions s" "minTorques s1 = minTorques s"
    "maxTorques s1 = maxTorques s"
    by (simp_all add: kept_by_run_def)
  note t = threshold_torques_Inr[OF s2]
  have len: "length (computeOutput inp) = length (minTorques s)"
    "length (minTorques s) = length (maxTorques s)"
    using t f1 by simp_all
  have tq: "torques s2 = map2 min (map2 max (computeOutput inp) (minTorques s)) (maxTorques s)"
    using t f1 by simp
  have o2: "ctrlOptions s2 = ctrlOptions s" using t f1 by simp
  note d = send_torques_Inr[OF s3]
  have tq': "torques s' = torques s2"
    using d s' by (auto simp: call_def split: if_splits)
  have dj: "debugJointIndex s' = debugJointIndex s2"
    using d s' by (auto simp: call_def split: if_splits)
  have A: "length (torques s') = length (minTorques s)"
    using tq tq' len by simp
  have B: "\<forall>i < length (torques s'). minTorques s ! i \<le> torques s' ! i \<and> torques s' ! i \<le> maxTorques s ! i"
    using tq tq' len bounds by simp
  have C: "\<exists>before. wbiCalls s' = before @
            [if runInDebugMode (ctrlOptions s)
             then SetControlReference [torques s' ! nat (debugJointIndex s')] (Joint (debugJointIndex s'))
             else SetControlReference (torques s') ALL_JOINTS]"
    using d s' o2 by (auto simp: call_def split: if_splits)
  have D: "runInDebugMode (ctrlOptions s) \<longrightarrow>
            0 \<le> debugJointIndex s' \<and> nat (debugJointIndex s') < length (torques s')"
    using d o2 tq' dj by (auto split: if_splits)
  from A B C D show ?thesis by blast
qed

lemma fire_bounds:
  assumes "fire val e s = Some (Inr s')"
  shows "minTorques s' = minTorques s \<and> maxTorques s' = maxTorques s \<and> ctrlOptions s' = ctrlOptions s"
proof (cases e)
  case (Init inp)
  with assms have m: "map_sum id snd (threadInit inp s) = Inr s'" by simp
  then obtain p where p: "threadInit inp s = Inr p" by (cases "threadInit inp s") simp_all
  obtain r x where rx: "p = (r, x)" by (cases p)
  from m p rx have "threadInit inp s = Inr (r, s')" by simp
  from threadInit_kept[OF this] show ?thesis by simp
next
  case (Step inp)
  with assms have "run inp s = Inr s'" by simp
  from run_kept[OF this] show ?thesis by (simp add: kept_by_run_def)
next
  case (Release inp)
  with assms have r: "threadRelease inp s = Some (Inr s')" by simp
  from threadRelease_status(3,5,6)[OF r] show ?thesis by simp
next
  case (Message input)
  with assms have "s' = snd (parseIncomingMessage val input [] s)" by simp
  with parseIncomingMessage_kept(1)[of val input "[]" s] show ?thesis
    by (simp add: kept_by_run_def)
qed

lemma life_bounds:
  assumes "life val es s = Some (Inr s')"
  shows "minTorques s' = minTorques s \<and> maxTorques s' = maxTorques s \<and> ctrlOptions s' = ctrlOptions s"
  using assms
proof (induction es arbitrary: s)
  case Nil
  then show ?case by simp
next
  case (Cons e es)
  then obtain s1 where f: "fire val e s = Some (Inr s1)" and l: "life val es s1 = Some (Inr s')"
    by (auto split: option.splits sum.splits)
  from fire_bounds[OF f] Cons.IH[OF l] show ?case by simp
qed

text \<open>
  Claim C1. In every control cycle that \<^verbatim>\<open>run\<close> completes, the torques it leaves in
  \<^verbatim>\<open>torques\<close> have the length of the bounds and every component \<open>i\<close> lies between
  \<open>minTorques ! i\<close> and \<open>maxTorques ! i\<close>, whatever vector the controller computed; the
  last call on the interface is the dispatch of these clamped torques: the whole vector
  outside debug mode, the component of the debug joint, which is in range, in debug mode.
  The interval of each joint is taken not to be empty. For the thread as constructed, whose
  bounds are the macros \<^verbatim>\<open>TORQUE_MIN\<close> and \<^verbatim>\<open>TORQUE_MAX\<close> for every joint, this holds
  in every cycle after any calls of its member functions, provided
  \<^verbatim>\<open>TORQUE_MIN\<close> is at most \<^verbatim>\<open>TORQUE_MAX\<close>.
\<close>

theorem run_dispatch_within_bounds:
  "(run inp s = Inr s' \<and> (\<forall>i < length (minTorques s). minTorques s ! i \<le> maxTorques s ! i) \<longrightarrow>
      length (torques s') = length (minTorques s) \<and>
      (\<forall>i < length (torques s'). minTorques s ! i \<le> torques s' ! i \<and> torques s' ! i \<le> maxTorques s ! i) \<and>
      (\<exists>before. wbiCalls s' = before @
         [if runInDebugMode (ctrlOptions s)
          then SetControlReference [torques s' ! nat (debugJointIndex s')] (Joint (debugJointIndex s'))
          else SetControlReference (torques s') ALL_JOINTS]) \<and>
      (runInDebugMode (ctrlOptions s) \<longrightarrow>
         0 \<le> debugJointIndex s' \<and> nat (debugJointIndex s') < length (torques s'))) \<and>
   (TORQUE_MIN c \<le> TORQUE_MAX c \<and>
    life val es (OcraControllerServerThread opts c) = Some (Inr a) \<and> run i a = Inr a' \<longrightarrow>
      length (torques a') = robot_DoFs c \<and>
      (\<forall>j < robot_DoFs c. TORQUE_MIN c \<le> torques a' ! j \<and> torques a' ! j \<le> TORQUE_MAX c) \<and>
      (\<exists>before. wbiCalls a' = before @
         [if runInDebugMode opts
          then SetControlReference [torques a' ! nat (debugJointIndex a')] (Joint (debugJointIndex a'))
          else SetControlReference (torques a') ALL_JOINTS]) \<and>
      (runInDebugMode opts \<longrightarrow> 0 \<le> debugJointIndex a' \<and> nat (debugJointIndex a') < robot_DoFs c))"
proof -
  have A: "run inp s = Inr s' \<and> (\<forall>i < length (minTorques s). minTorques s ! i \<le> maxTorques s ! i) \<longrightarrow>
      length (torques s') = length (minTorques s) \<and>
      (\<forall>i < length (torques s'). minTorques s ! i \<le> torques s' ! i \<and> torques s' ! i \<le> maxTorques s ! i) \<and>
      (\<exists>before. wbiCalls s' = before @
         [if runInDebugMode (ctrlOptions s)
          then SetControlReference [torques s' ! nat (debugJointIndex s')] (Joint (debugJointIndex s'))
          else SetControlReference (torques s') ALL_JOINTS]) \<and>
      (runInDebugMode (ctrlOptions s) \<longrightarrow>
         0 \<le> debugJointIndex s' \<and> nat (debugJointIndex s') < length (torques s'))"
    using run_clamps[of inp s s'] by blast
  have B: "TORQUE_MIN c \<le> TORQUE_MAX c \<and>
    life val es (OcraControllerServerThread opts c) = Some (Inr a) \<and> run i a = Inr a' \<longrightarrow>
      length (torques a') = robot_DoFs c \<and>
      (\<forall>j < robot_DoFs c. TORQUE_MIN c \<le> torques a' ! j \<and> torques a' ! j \<le> TORQUE_MAX c) \<and>
      (\<exists>before. wbiCalls a' = before @
         [if runInDebugMode opts
          then SetControlReference [torques a' ! nat (debugJointIndex a')] (Joint (debugJointIndex a'))
          else SetControlReference (torques a') ALL_JOINTS]) \<and>
      (runInDebugMode opts \<longrightarrow> 0 \<le> debugJointIndex a' \<and> nat (debugJointIndex a') < robot_DoFs c)"
  proof
    assume h: "TORQUE_MIN c \<le> TORQUE_MAX c \<and>
      life val es (OcraControllerServerThread opts c) = Some (Inr a) \<and> run i a = Inr a'"
    then have l: "life val es (OcraControllerServerThread opts c) = Some (Inr a)"
      and r: "run i a = Inr a'" and le: "TORQUE_MIN c \<le> TORQUE_MAX c" by simp_all
    from life_bounds[OF l]
    have k: "minTorques a = replicate (robot_DoFs c) (TORQUE_MIN c)"
      "maxTorques a = replicate (robot_DoFs c) (TORQUE_MAX c)" "ctrlOptions a = opts"
      by (simp_all add: OcraControllerServerThread_def)
    have b: "\<forall>i < length (minTorques a). minTorques a ! i \<le> maxTorques a ! i"
      using k le by simp
    from run_clamps[OF r b] have
      c1: "length (torques a') = length (minTorques a)" and
      c2: "\<forall>i < length (torques a'). minTorques a ! i \<le> torques a' ! i \<and> torques a' ! i \<le> maxTorques a ! i" and
      c3: "\<exists>before. wbiCalls a' = before @
            [if runInDebugMode (ctrlOptions a)
             then SetControlReference [torques a' ! nat (debugJointIndex a')] (Joint (debugJointIndex a'))
             else SetControlReference (torques a') ALL_JOINTS]" and
      c4: "runInDebugMode (ctrlOptions a) \<longrightarrow>
            0 \<le> debugJointIndex a' \<and> nat (debugJointIndex a') < length (torques a')"
      by blast+
    have d1: "length (torques a') = robot_DoFs c" using c1 k by simp
    have d2: "\<forall>j < robot_DoFs c. TORQUE_MIN c \<le> torques a' ! j \<and> torques a' ! j \<le> TORQUE_MAX c"
      using c2 d1 k by simp
    show "length (torques a') = robot_DoFs c \<and>
      (\<forall>j < robot_DoFs c. TORQUE_MIN c \<le> torques a' ! j \<and> torques a' ! j \<le> TORQUE_MAX c) \<and>
      (\<exists>before. wbiCalls a' = before @
         [if runInDebugMode opts
          then SetControlReference [torques a' ! nat (debugJointIndex a')] (Joint (debugJointIndex a'))
          else SetControlReference (torques a') ALL_JOINTS]) \<and>
      (runInDebugMode opts \<longrightarrow> 0 \<le> debugJointIndex a' \<and> nat (debugJointIndex a') < robot_DoFs c)"
      using d1 d2 c3 c4 k(3) by simp
  qed
  show ?thesis by (intro conjI) (fact A, fact B)
qed

lemma life_init_step2:
  "life val0 [Init init2, Step step2] (OcraControllerServerThread xml_options robot2)
     = Some (Inr (projr (run step2 started2)))"
  by (simp add: threadInit_started2 run_step2_started2)

lemma run_moving2_after:
  "\<exists>y. run moving2 (projr (run step2 started2)) = Inr y \<and> torques y = [1, 1]"
  by (simp add: run_step2_started2 started2_eq run_defs example_defs)

theorem run_dispatch_within_bounds_witness:
  "run step2 started2 = Inr (projr (run step2 started2)) \<and>
   minTorques started2 = [- 24, - 24] \<and> maxTorques started2 = [24, 24] \<and>
   computeOutput step2 = [30, - 50] \<and>
   length (torques (projr (run step2 started2))) = length (minTorques started2) \<and>
   torques (projr (run step2 started2)) = [24, - 24] \<and>
   minTorques started2 ! 0 \<le> torques (projr (run step2 started2)) ! 0 \<and>
   torques (projr (run step2 started2)) ! 0 \<le> maxTorques started2 ! 0 \<and>
   minTorques started2 ! 1 \<le> torques (projr (run step2 started2)) ! 1 \<and>
   torques (projr (run step2 started2)) ! 1 \<le> maxTorques started2 ! 1 \<and>
   last (wbiCalls (projr (run step2 started2))) = SetControlReference [24, - 24] ALL_JOINTS \<and>
   TORQUE_MIN robot2 \<le> TORQUE_MAX robot2 \<and>
   life val0 [Init init2, Step step2] (OcraControllerServerThread xml_options robot2)
     = Some (Inr (projr (run step2 started2))) \<and>
   run moving2 (projr (run step2 started2)) = Inr (projr (run moving2 (projr (run step2 started2)))) \<and>
   length (torques (projr (run moving2 (projr (run step2 started2))))) = robot_DoFs robot2"
proof -
  have ok: "run step2 started2 = Inr (projr (run step2 started2))"
    by (simp add: run_step2_started2)
  have b: "\<forall>i < length (minTorques started2). minTorques started2 ! i \<le> maxTorques started2 ! i"
    by (simp add: started2_eq less_Suc_eq)
  have c: "computeOutput step2 = [30, - 50]"
    by (simp add: step2_def)
  have d: "minTorques started2 = [- 24, - 24]" "maxTorques started2 = [24, 24]"
    by (simp_all add: started2_eq)
  have m: "TORQUE_MIN robot2 \<le> TORQUE_MAX robot2" by (simp add: robot2_def)
  from run_moving2_after
  have r2: "run moving2 (projr (run step2 started2)) = Inr (projr (run moving2 (projr (run step2 started2))))"
    by auto
  note T = run_dispatch_within_bounds[where inp = step2 and s = started2
      and s' = "projr (run step2 started2)" and c = robot2 and val = val0
      and es = "[Init init2, Step step2]" and opts = xml_options
      and a = "projr (run step2 started2)" and i = moving2
      and a' = "projr (run moving2 (projr (run step2 started2)))"]
  from T[THEN conjunct1, rule_format, OF conjI[OF ok b]]
  have A: "length (torques (projr (run step2 started2))) = length (minTorques started2)" by simp
  from T[THEN conjunct2, rule_format, OF conjI[OF m conjI[OF life_init_step2 r2]]]
  have B: "length (torques (projr (run moving2 (projr (run step2 started2))))) = robot_DoFs robot2" by simp
  have e: "torques (projr (run step2 started2)) = [24, - 24]"
    "last (wbiCalls (projr (run step2 started2))) = SetControlReference [24, - 24] ALL_JOINTS"
    by (simp_all add: run_step2_started2)
  show ?thesis
    using ok d c A e m life_init_step2 r2 B by simp
qed

end
